theory Spec2Isabelle
  imports Main
begin

section \<open>runnermap: the map keyed by (backend, normalised model, mode)\<close>

text \<open>
  \<^verbatim>\<open>type Key struct { Backend string; Model string; Mode inference.BackendMode }\<close>.
  The type \<^verbatim>\<open>inference.BackendMode\<close> is declared outside the files at hand, so the
  mode is a type parameter.
\<close>

record 'mode Key =
  Backend :: string
  Model :: string
  Mode :: 'mode

text \<open>
  \<^verbatim>\<open>type Map[T any] struct { m map[Key]T; initialModel map[Key]string;
  normalizeFn func(string) string }\<close>. Both Go maps are partial functions on keys.
\<close>

record ('mode, 't) Map =
  m :: "'mode Key \<rightharpoonup> 't"
  initialModel :: "'mode Key \<rightharpoonup> string"
  normalizeFn :: "string \<Rightarrow> string"

definition Map_New :: "(string \<Rightarrow> string) \<Rightarrow> ('mode, 't) Map" where
  "Map_New f = \<lparr>m = Map.empty, initialModel = Map.empty, normalizeFn = f\<rparr>"

definition normalizeKey :: "('mode, 't) Map \<Rightarrow> 'mode Key \<Rightarrow> 'mode Key" where
  "normalizeKey rm key = key\<lparr>Model := normalizeFn rm (Model key)\<rparr>"

definition Map_Set :: "('mode, 't) Map \<Rightarrow> 'mode Key \<Rightarrow> 't \<Rightarrow> ('mode, 't) Map" where
  "Map_Set rm key val =
     (let normKey = normalizeKey rm key;
          rm1 = rm\<lparr>initialModel := (initialModel rm)(normKey \<mapsto> Model key)\<rparr>
      in rm1\<lparr>m := (m rm1)(normKey \<mapsto> val)\<rparr>)"

text \<open>
  \<^verbatim>\<open>Get\<close> returns \<^verbatim>\<open>(val, ok)\<close>: \<open>Some val\<close> stands for \<^verbatim>\<open>(val, true)\<close> and
  \<open>None\<close> for the zero value with \<^verbatim>\<open>false\<close>.
\<close>

definition Map_Get :: "('mode, 't) Map \<Rightarrow> 'mode Key \<Rightarrow> 't option" where
  "Map_Get rm key = (let normKey = normalizeKey rm key in m rm normKey)"

text \<open>Reading a missing key of a Go \<^verbatim>\<open>map[Key]string\<close> gives the empty string.\<close>

definition GetInitialModel :: "('mode, 't) Map \<Rightarrow> 'mode Key \<Rightarrow> string" where
  "GetInitialModel rm key =
     (let normKey = normalizeKey rm key
      in case initialModel rm normKey of None \<Rightarrow> [] | Some s \<Rightarrow> s)"

definition Map_Delete :: "('mode, 't) Map \<Rightarrow> 'mode Key \<Rightarrow> ('mode, 't) Map" where
  "Map_Delete rm key =
     (let normKey = normalizeKey rm key;
          rm1 = rm\<lparr>m := (m rm)(normKey := None)\<rparr>
      in rm1\<lparr>initialModel := (initialModel rm1)(normKey := None)\<rparr>)"

text \<open>\<^verbatim>\<open>Items\<close> copies the value map into a fresh Go map; as a value it is the same map.\<close>

definition Items :: "('mode, 't) Map \<Rightarrow> ('mode Key \<rightharpoonup> 't)" where
  "Items rm = m rm"

section \<open>Go's strings and fmt, as far as the recorder uses them\<close>

text \<open>
  A Go \<^verbatim>\<open>string\<close> is a sequence of bytes, as \<^typ>\<open>string\<close> is. The recorder calls
  \<^verbatim>\<open>strings.Split(s, "\n")\<close>, \<^verbatim>\<open>strings.HasPrefix\<close>, \<^verbatim>\<open>strings.TrimPrefix\<close>,
  \<^verbatim>\<open>strings.Contains\<close> and formats integers with the verb \<^verbatim>\<open>%d\<close>.
\<close>

definition newline :: char where
  "newline = CHR 0x0A"

text \<open>
  \<^verbatim>\<open>strings.Split(s, "\n")\<close>: the pieces between the line feeds; the empty string gives
  one empty piece. (The result is never empty, so the first case of the inner
  \<^theory_text>\<open>case\<close> is not reached.)
\<close>

fun SplitLines :: "string \<Rightarrow> string list" where
  "SplitLines [] = [[]]"
| "SplitLines (c # cs) =
     (if c = newline then [] # SplitLines cs
      else (case SplitLines cs of [] \<Rightarrow> [[c]] | l # ls \<Rightarrow> (c # l) # ls))"

definition HasPrefix :: "string \<Rightarrow> string \<Rightarrow> bool" where
  "HasPrefix s p = (take (length p) s = p)"

definition TrimPrefix :: "string \<Rightarrow> string \<Rightarrow> string" where
  "TrimPrefix s p = (if HasPrefix s p then drop (length p) s else s)"

fun Contains :: "string \<Rightarrow> string \<Rightarrow> bool" where
  "Contains [] substr = (substr = [])"
| "Contains (c # cs) substr = (HasPrefix (c # cs) substr \<or> Contains cs substr)"

text \<open>The verb \<^verbatim>\<open>%d\<close>: decimal digits, with a minus sign for a negative number.\<close>

definition digit_char :: "int \<Rightarrow> char" where
  "digit_char d =
     (if d = 0 then CHR ''0'' else if d = 1 then CHR ''1'' else if d = 2 then CHR ''2''
      else if d = 3 then CHR ''3'' else if d = 4 then CHR ''4'' else if d = 5 then CHR ''5''
      else if d = 6 then CHR ''6'' else if d = 7 then CHR ''7'' else if d = 8 then CHR ''8''
      else CHR ''9'')"

function digits_of :: "int \<Rightarrow> string" where
  "digits_of n =
     (if n < 10 then [digit_char n] else digits_of (n div 10) @ [digit_char (n mod 10)])"
  by pat_completeness auto
termination
  by (relation "measure nat") auto

declare digits_of.simps [simp del]

definition Itoa :: "int \<Rightarrow> string" where
  "Itoa i = (if i < 0 then CHR ''-'' # digits_of (- i) else digits_of i)"

section \<open>encoding/json, as far as the recorder uses it\<close>

text \<open>
  \<^verbatim>\<open>convertStreamingResponse\<close> decodes each chunk with \<^verbatim>\<open>json.Unmarshal\<close> into a
  \<^verbatim>\<open>map[string]interface{}\<close> and encodes the rebuilt object with \<^verbatim>\<open>json.Marshal\<close>. Both
  belong to Go's standard library. The functions of the recorder below take them as
  parameters, and every general statement about the recorder is proved for arbitrary ones.
  For the statements about concrete response bodies this section gives an executable model
  of the two functions on a fragment of JSON:
  \<^item> numbers are integer literals of absolute value below \<open>2^53\<close>, which the decoder's
    \<^verbatim>\<open>float64\<close> holds exactly and the encoder prints back as the same digits (a literal
    with a fraction or an exponent, a larger one, and \<^verbatim>\<open>-0\<close> are outside);
  \<^item> strings are ASCII (a byte from \<open>0x80\<close> on, and an escape \<^verbatim>\<open>\u\<close> of a code point from
    \<open>0x80\<close> on, are outside), and the encoder does not take the bytes \<open>0x08\<close> and
    \<open>0x0C\<close>, whose rendering differs between Go releases;
  \<^item> the decoder's limit on the nesting depth is left out.
  On an input outside the fragment the model answers \<open>Inl OutsideModel\<close>, and the
  recorder's function on this model has no result there (\<open>convertStreamingResponse\<close>
  below).

  A decoded value is what \<^verbatim>\<open>json.Unmarshal\<close> stores into an \<^verbatim>\<open>interface{}\<close>:
  \<^verbatim>\<open>nil\<close>, \<^verbatim>\<open>bool\<close>, \<^verbatim>\<open>float64\<close>, \<^verbatim>\<open>string\<close>, \<^verbatim>\<open>[]interface{}\<close> and
  \<^verbatim>\<open>map[string]interface{}\<close>.
\<close>

datatype json =
    JNull
  | JBool bool
  | JNumber int
  | JString string
  | JArray "json list"
  | JObject "(string \<times> json) list"

text \<open>
  A Go map has no order and no duplicate keys, and \<^verbatim>\<open>json.Marshal\<close> writes the keys of a
  map in increasing byte order. An object is therefore an association list that
  \<open>obj_put\<close> keeps sorted by key, without duplicates: \<open>obj_get\<close> is \<^verbatim>\<open>m[k]\<close>,
  \<open>obj_put\<close> is \<^verbatim>\<open>m[k] = v\<close>, \<open>obj_delete\<close> is \<^verbatim>\<open>delete(m, k)\<close>.
\<close>

type_synonym jobject = "(string \<times> json) list"

text \<open>
  The errors of the decoder: a syntax error (\<^verbatim>\<open>*json.SyntaxError\<close>), a value that does not
  fit the target type (\<^verbatim>\<open>*json.UnmarshalTypeError\<close>), and an input outside the fragment
  modelled here.
\<close>

datatype json_error = SyntaxError | UnmarshalTypeError | OutsideModel

fun str_less :: "string \<Rightarrow> string \<Rightarrow> bool" where
  "str_less [] [] = False"
| "str_less [] (y # ys) = True"
| "str_less (x # xs) [] = False"
| "str_less (x # xs) (y # ys) =
     ((of_char x :: nat) < of_char y \<or> (x = y \<and> str_less xs ys))"

definition obj_get :: "jobject \<Rightarrow> string \<Rightarrow> json option" where
  "obj_get obj k = map_of obj k"

fun obj_put :: "string \<Rightarrow> json \<Rightarrow> jobject \<Rightarrow> jobject" where
  "obj_put k v [] = [(k, v)]"
| "obj_put k v ((k', v') # kvs) =
     (if k = k' then (k, v) # kvs
      else if str_less k k' then (k, v) # (k', v') # kvs
      else (k', v') # obj_put k v kvs)"

definition obj_delete :: "string \<Rightarrow> jobject \<Rightarrow> jobject" where
  "obj_delete k obj = filter (\<lambda>kv. fst kv \<noteq> k) obj"

subsection \<open>Decoding: the scanner\<close>

text \<open>
  The scanner reads the text byte by byte. It is a state machine: \<open>lex_step\<close> is one
  transition, \<open>lex_end\<close> is the end of the input.
\<close>

datatype token =
    TLBrace | TRBrace | TLBrack | TRBrack | TColon | TComma
  | TString string | TNumber int | TTrue | TFalse | TNull

definition is_space :: "char \<Rightarrow> bool" where
  "is_space c = (c = CHR '' '' \<or> c = CHR 0x09 \<or> c = CHR 0x0D \<or> c = CHR 0x0A)"

definition is_digit :: "char \<Rightarrow> bool" where
  "is_digit c = (c \<in> set ''0123456789'')"

definition is_number_char :: "char \<Rightarrow> bool" where
  "is_number_char c = (is_digit c \<or> c \<in> set ''-+.eE'')"

definition is_letter :: "char \<Rightarrow> bool" where
  "is_letter c = (c \<in> set ''abcdefghijklmnopqrstuvwxyz'')"

definition digit_val :: "char \<Rightarrow> int" where
  "digit_val c = of_char c - 48"

definition hex_val :: "char \<Rightarrow> nat option" where
  "hex_val c =
     (if is_digit c then Some (of_char c - 48)
      else if c \<in> set ''abcdef'' then Some (of_char c - 87)
      else if c \<in> set ''ABCDEF'' then Some (of_char c - 55)
      else None)"

definition int_of_digits :: "string \<Rightarrow> int" where
  "int_of_digits ds = foldl (\<lambda>n c. 10 * n + digit_val c) 0 ds"

text \<open>
  The grammar of a JSON number is an optional minus sign, then \<^verbatim>\<open>0\<close> or a digit from 1 to 9
  followed by digits, then optionally a point and at least one digit, then optionally an
  exponent: \<^verbatim>\<open>e\<close> or \<^verbatim>\<open>E\<close>, an optional sign and at least one digit.
\<close>

definition valid_exponent :: "string \<Rightarrow> bool" where
  "valid_exponent s =
     (case s of
        [] \<Rightarrow> True
      | c # r \<Rightarrow> (c = CHR ''e'' \<or> c = CHR ''E'') \<and>
          (let ds = (case r of [] \<Rightarrow> [] | d # r' \<Rightarrow> if d = CHR ''+'' \<or> d = CHR ''-'' then r' else r)
           in ds \<noteq> [] \<and> list_all is_digit ds))"

definition valid_fraction :: "string \<Rightarrow> bool" where
  "valid_fraction s =
     (case s of
        [] \<Rightarrow> True
      | c # r \<Rightarrow>
          if c = CHR ''.'' then takeWhile is_digit r \<noteq> [] \<and> valid_exponent (dropWhile is_digit r)
          else valid_exponent s)"

definition valid_number :: "string \<Rightarrow> bool" where
  "valid_number s =
     (let u = (case s of [] \<Rightarrow> [] | c # r \<Rightarrow> if c = CHR ''-'' then r else s);
          ip = takeWhile is_digit u
      in ip \<noteq> [] \<and> (ip = ''0'' \<or> hd ip \<noteq> CHR ''0'') \<and> valid_fraction (dropWhile is_digit u))"

definition max_exact :: int where
  "max_exact = 2 ^ 53"

definition number_token :: "string \<Rightarrow> json_error + token" where
  "number_token s =
     (if \<not> valid_number s then Inl SyntaxError
      else case s of
        [] \<Rightarrow> Inl SyntaxError
      | c # r \<Rightarrow>
          if c = CHR ''-'' then
            (if list_all is_digit r \<and> r \<noteq> ''0'' \<and> int_of_digits r < max_exact
             then Inr (TNumber (- int_of_digits r)) else Inl OutsideModel)
          else
            (if list_all is_digit s \<and> int_of_digits s < max_exact
             then Inr (TNumber (int_of_digits s)) else Inl OutsideModel))"

definition word_token :: "string \<Rightarrow> json_error + token" where
  "word_token s =
     (if s = ''true'' then Inr TTrue
      else if s = ''false'' then Inr TFalse
      else if s = ''null'' then Inr TNull
      else Inl SyntaxError)"

datatype lex_mode =
    Idle
  | InString string
  | InEscape string
  | InUnicode string "nat list"
  | InNumber string
  | InWord string

definition punct :: "char \<Rightarrow> token option" where
  "punct c =
     (if c = CHR ''{'' then Some TLBrace
      else if c = CHR ''}'' then Some TRBrace
      else if c = CHR ''['' then Some TLBrack
      else if c = CHR '']'' then Some TRBrack
      else if c = CHR '':'' then Some TColon
      else if c = CHR '','' then Some TComma
      else None)"

definition unescape :: "char \<Rightarrow> char option" where
  "unescape c =
     (if c = CHR 0x22 \<or> c = CHR 0x5C \<or> c = CHR ''/'' then Some c
      else if c = CHR ''b'' then Some (CHR 0x08)
      else if c = CHR ''f'' then Some (CHR 0x0C)
      else if c = CHR ''n'' then Some (CHR 0x0A)
      else if c = CHR ''r'' then Some (CHR 0x0D)
      else if c = CHR ''t'' then Some (CHR 0x09)
      else None)"

text \<open>Tokens are collected in reverse; the accumulators of strings, numbers and words too.\<close>

definition lex_idle :: "token list \<Rightarrow> char \<Rightarrow> json_error + lex_mode \<times> token list" where
  "lex_idle ts c =
     (if is_space c then Inr (Idle, ts)
      else if c = CHR 0x22 then Inr (InString [], ts)
      else if is_digit c \<or> c = CHR ''-'' then Inr (InNumber [c], ts)
      else if is_letter c then Inr (InWord [c], ts)
      else case punct c of None \<Rightarrow> Inl SyntaxError | Some t \<Rightarrow> Inr (Idle, t # ts))"

fun lex_step :: "lex_mode \<Rightarrow> token list \<Rightarrow> char \<Rightarrow> json_error + lex_mode \<times> token list" where
  "lex_step Idle ts c = lex_idle ts c"
| "lex_step (InNumber acc) ts c =
     (if is_number_char c then Inr (InNumber (c # acc), ts)
      else case number_token (rev acc) of
             Inl e \<Rightarrow> Inl e
           | Inr t \<Rightarrow> lex_idle (t # ts) c)"
| "lex_step (InWord acc) ts c =
     (if is_letter c then Inr (InWord (c # acc), ts)
      else case word_token (rev acc) of
             Inl e \<Rightarrow> Inl e
           | Inr t \<Rightarrow> lex_idle (t # ts) c)"
| "lex_step (InString acc) ts c =
     (if c = CHR 0x22 then Inr (Idle, TString (rev acc) # ts)
      else if c = CHR 0x5C then Inr (InEscape acc, ts)
      else if (of_char c :: nat) < 0x20 then Inl SyntaxError
      else if (of_char c :: nat) \<ge> 0x80 then Inl OutsideModel
      else Inr (InString (c # acc), ts))"
| "lex_step (InEscape acc) ts c =
     (if c = CHR ''u'' then Inr (InUnicode acc [], ts)
      else case unescape c of
             None \<Rightarrow> Inl SyntaxError
           | Some d \<Rightarrow> Inr (InString (d # acc), ts))"
| "lex_step (InUnicode acc hs) ts c =
     (case hex_val c of
        None \<Rightarrow> Inl SyntaxError
      | Some h \<Rightarrow>
          if length hs < 3 then Inr (InUnicode acc (hs @ [h]), ts)
          else (let code = foldl (\<lambda>n d. 16 * n + d) 0 (hs @ [h])
                in if code < 0x80 then Inr (InString (char_of code # acc), ts)
                   else Inl OutsideModel))"

fun lex_end :: "lex_mode \<Rightarrow> token list \<Rightarrow> json_error + token list" where
  "lex_end Idle ts = Inr (rev ts)"
| "lex_end (InNumber acc) ts =
     (case number_token (rev acc) of Inl e \<Rightarrow> Inl e | Inr t \<Rightarrow> Inr (rev (t # ts)))"
| "lex_end (InWord acc) ts =
     (case word_token (rev acc) of Inl e \<Rightarrow> Inl e | Inr t \<Rightarrow> Inr (rev (t # ts)))"
| "lex_end (InString acc) ts = Inl SyntaxError"
| "lex_end (InEscape acc) ts = Inl SyntaxError"
| "lex_end (InUnicode acc hs) ts = Inl SyntaxError"

fun lex :: "lex_mode \<Rightarrow> token list \<Rightarrow> string \<Rightarrow> json_error + token list" where
  "lex mode ts [] = lex_end mode ts"
| "lex mode ts (c # cs) =
     (case lex_step mode ts c of
        Inl e \<Rightarrow> Inl e
      | Inr (mode', ts') \<Rightarrow> lex mode' ts' cs)"


subsection \<open>Decoding: the parser\<close>

text \<open>
  The parser runs over the tokens with an explicit stack of the arrays and objects that are
  open, as the decoder of the library does. A later value of a repeated key replaces the
  earlier one.
\<close>

datatype frame = FArray "json list" | FObject jobject string

datatype pstate =
    PValue "frame list"
  | PFirstElem "frame list"
  | PAfterElem "json list" "frame list"
  | PFirstKey "frame list"
  | PKey jobject "frame list"
  | PColon jobject string "frame list"
  | PAfterMember jobject "frame list"
  | PDone json

fun reduce :: "json \<Rightarrow> frame list \<Rightarrow> pstate" where
  "reduce v [] = PDone v"
| "reduce v (FArray es # st) = PAfterElem (v # es) st"
| "reduce v (FObject kvs k # st) = PAfterMember (obj_put k v kvs) st"

fun begin_value :: "token \<Rightarrow> frame list \<Rightarrow> json_error + pstate" where
  "begin_value TLBrace st = Inr (PFirstKey st)"
| "begin_value TLBrack st = Inr (PFirstElem st)"
| "begin_value (TString s) st = Inr (reduce (JString s) st)"
| "begin_value (TNumber n) st = Inr (reduce (JNumber n) st)"
| "begin_value TTrue st = Inr (reduce (JBool True) st)"
| "begin_value TFalse st = Inr (reduce (JBool False) st)"
| "begin_value TNull st = Inr (reduce JNull st)"
| "begin_value TRBrace st = Inl SyntaxError"
| "begin_value TRBrack st = Inl SyntaxError"
| "begin_value TColon st = Inl SyntaxError"
| "begin_value TComma st = Inl SyntaxError"

fun parse_step :: "pstate \<Rightarrow> token \<Rightarrow> json_error + pstate" where
  "parse_step (PValue st) t = begin_value t st"
| "parse_step (PFirstElem st) t =
     (if t = TRBrack then Inr (reduce (JArray []) st) else begin_value t (FArray [] # st))"
| "parse_step (PAfterElem es st) t =
     (if t = TComma then Inr (PValue (FArray es # st))
      else if t = TRBrack then Inr (reduce (JArray (rev es)) st)
      else Inl SyntaxError)"
| "parse_step (PFirstKey st) t =
     (case t of
        TRBrace \<Rightarrow> Inr (reduce (JObject []) st)
      | TString k \<Rightarrow> Inr (PColon [] k st)
      | _ \<Rightarrow> Inl SyntaxError)"
| "parse_step (PKey kvs st) t =
     (case t of TString k \<Rightarrow> Inr (PColon kvs k st) | _ \<Rightarrow> Inl SyntaxError)"
| "parse_step (PColon kvs k st) t =
     (if t = TColon then Inr (PValue (FObject kvs k # st)) else Inl SyntaxError)"
| "parse_step (PAfterMember kvs st) t =
     (if t = TComma then Inr (PKey kvs st)
      else if t = TRBrace then Inr (reduce (JObject kvs) st)
      else Inl SyntaxError)"
| "parse_step (PDone v) t = Inl SyntaxError"

fun parse_tokens :: "pstate \<Rightarrow> token list \<Rightarrow> json_error + json" where
  "parse_tokens (PDone v) [] = Inr v"
| "parse_tokens ps [] = Inl SyntaxError"
| "parse_tokens ps (t # ts) =
     (case parse_step ps t of Inl e \<Rightarrow> Inl e | Inr ps' \<Rightarrow> parse_tokens ps' ts)"

text \<open>
  \<^verbatim>\<open>json.Unmarshal(data, &chunk)\<close> with \<^verbatim>\<open>var chunk map[string]interface{}\<close>: a JSON object
  is stored as a map, \<^verbatim>\<open>null\<close> leaves \<^verbatim>\<open>chunk\<close> the nil map and is no error, any other
  value is a type error, and a text that is not one JSON value is a syntax error.
  The result \<open>Inr None\<close> is the nil map.
\<close>

definition decode :: "string \<Rightarrow> json_error + json" where
  "decode s =
     (case lex Idle [] s of
        Inl e \<Rightarrow> Inl e
      | Inr ts \<Rightarrow> parse_tokens (PValue []) ts)"

definition json_Unmarshal :: "string \<Rightarrow> json_error + jobject option" where
  "json_Unmarshal data =
     (case decode data of
        Inl e \<Rightarrow> Inl e
      | Inr (JObject obj) \<Rightarrow> Inr (Some obj)
      | Inr JNull \<Rightarrow> Inr None
      | Inr _ \<Rightarrow> Inl UnmarshalTypeError)"

subsection \<open>Encoding\<close>

text \<open>
  \<^verbatim>\<open>json.Marshal\<close> writes no white space, escapes the quote and the backslash with a
  backslash, writes line feed, carriage return and tab as \<^verbatim>\<open>\n\<close>, \<^verbatim>\<open>\r\<close>, \<^verbatim>\<open>\t\<close>, and
  writes the other control characters and the characters \<^verbatim>\<open><\<close>, \<^verbatim>\<open>>\<close>, \<^verbatim>\<open>&\<close> as
  \<^verbatim>\<open>\u00XX\<close>. It fails on no value that \<^verbatim>\<open>json.Unmarshal\<close> produced.
\<close>

definition hex_digit :: "nat \<Rightarrow> char" where
  "hex_digit d = (''0123456789abcdef'' ! d)"

definition encode_char :: "char \<Rightarrow> string" where
  "encode_char c =
     (if c = CHR 0x22 then [CHR 0x5C, CHR 0x22]
      else if c = CHR 0x5C then [CHR 0x5C, CHR 0x5C]
      else if c = CHR 0x0A then [CHR 0x5C, CHR ''n'']
      else if c = CHR 0x0D then [CHR 0x5C, CHR ''r'']
      else if c = CHR 0x09 then [CHR 0x5C, CHR ''t'']
      else if (of_char c :: nat) < 0x20 \<or> c = CHR ''<'' \<or> c = CHR ''>'' \<or> c = CHR ''&''
        then [CHR 0x5C, CHR ''u'', CHR ''0'', CHR ''0'',
              hex_digit (of_char c div 16), hex_digit (of_char c mod 16)]
      else [c])"

definition encode_string :: "string \<Rightarrow> string" where
  "encode_string s = [CHR 0x22] @ concat (map encode_char s) @ [CHR 0x22]"

fun join_comma :: "string list \<Rightarrow> string" where
  "join_comma [] = []"
| "join_comma [x] = x"
| "join_comma (x # y # ys) = x @ '','' @ join_comma (y # ys)"

fun encode :: "json \<Rightarrow> string" where
  "encode JNull = ''null''"
| "encode (JBool b) = (if b then ''true'' else ''false'')"
| "encode (JNumber n) = Itoa n"
| "encode (JString s) = encode_string s"
| "encode (JArray vs) = ''['' @ join_comma (map encode vs) @ '']''"
| "encode (JObject kvs) =
     ''{'' @ join_comma (map (\<lambda>(k, v). encode_string k @ '':'' @ encode v) kvs) @ ''}''"

definition encodable_string :: "string \<Rightarrow> bool" where
  "encodable_string s = list_all (\<lambda>c. (of_char c :: nat) < 0x80 \<and> c \<noteq> CHR 0x08 \<and> c \<noteq> CHR 0x0C) s"

fun encodable :: "json \<Rightarrow> bool" where
  "encodable JNull = True"
| "encodable (JBool b) = True"
| "encodable (JNumber n) = (- max_exact < n \<and> n < max_exact)"
| "encodable (JString s) = encodable_string s"
| "encodable (JArray vs) = list_all encodable vs"
| "encodable (JObject kvs) = list_all (\<lambda>(k, v). encodable_string k \<and> encodable v) kvs"

definition json_Marshal :: "json \<Rightarrow> json_error + string" where
  "json_Marshal v = (if encodable v then Inr (encode v) else Inl OutsideModel)"

section \<open>Stream reconstruction: convertStreamingResponse\<close>

text \<open>
  The source, \<^verbatim>\<open>pkg/metrics/openai_recorder.go\<close>, lines 162 to 225. The two calls into
  encoding/json are the parameters \<open>unmarshal\<close> and \<open>marshal\<close>; \<open>Inl\<close> is a
  non-nil \<^verbatim>\<open>err\<close>. A chunk is a \<^verbatim>\<open>map[string]interface{}\<close> that may be the nil map:
  \<open>None\<close>. No type assertion of the function can panic: each has the form
  \<^verbatim>\<open>v, ok := x.(T)\<close>.
\<close>

text \<open>\<^verbatim>\<open>chunk[k]\<close>: reading a nil map finds nothing.\<close>

definition lookup :: "jobject option \<Rightarrow> string \<Rightarrow> json option" where
  "lookup chunk k = (case chunk of None \<Rightarrow> None | Some obj \<Rightarrow> obj_get obj k)"

text \<open>
  \<^verbatim>\<open>choices, ok := x["choices"].([]interface{}); ok && len(choices) > 0\<close> followed by
  \<^verbatim>\<open>choice, ok := choices[0].(map[string]interface{})\<close>: the first choice and the other
  choices, when the field is a non-empty array whose first element is an object.
\<close>

fun first_choice :: "json option \<Rightarrow> (jobject \<times> json list) option" where
  "first_choice (Some (JArray (JObject choice # rest))) = Some (choice, rest)"
| "first_choice _ = None"

text \<open>
  What one chunk adds to \<^verbatim>\<open>contentBuilder\<close>: the string
  \<^verbatim>\<open>choices[0].delta.content\<close>, and nothing when any step of that path has another type.
\<close>

definition delta_content :: "jobject option \<Rightarrow> string" where
  "delta_content chunk =
     (case first_choice (lookup chunk ''choices'') of
        None \<Rightarrow> []
      | Some (choice, rest) \<Rightarrow>
          (case obj_get choice ''delta'' of
             Some (JObject delta) \<Rightarrow>
               (case obj_get delta ''content'' of
                  Some (JString content) \<Rightarrow> content
                | _ \<Rightarrow> [])
           | _ \<Rightarrow> []))"

text \<open>
  The loop over the lines, with the state \<^verbatim>\<open>(contentBuilder, lastChunk)\<close>:
  \<^verbatim>\<open>break\<close> at the sentinel, \<^verbatim>\<open>continue\<close> at a chunk that does not decode.
\<close>

fun scanLines ::
  "(string \<Rightarrow> 'e + jobject option) \<Rightarrow> string list \<Rightarrow> string \<times> jobject option
     \<Rightarrow> string \<times> jobject option" where
  "scanLines unmarshal [] acc = acc"
| "scanLines unmarshal (line # lines) (contentBuilder, lastChunk) =
     (if HasPrefix line ''data: '' then
        (let data = TrimPrefix line ''data: '' in
         if data = ''[DONE]'' then (contentBuilder, lastChunk)
         else case unmarshal data of
                Inl err \<Rightarrow> scanLines unmarshal lines (contentBuilder, lastChunk)
              | Inr chunk \<Rightarrow>
                  scanLines unmarshal lines (contentBuilder @ delta_content chunk, chunk))
      else scanLines unmarshal lines (contentBuilder, lastChunk))"

text \<open>
  The three updates of the first choice: \<^verbatim>\<open>choice["message"] = {role, content}\<close>,
  \<^verbatim>\<open>delete(choice, "delta")\<close>, and \<^verbatim>\<open>choice["finish_reason"] = "stop"\<close> when the key
  is absent (a key that is present with the value \<^verbatim>\<open>null\<close> is kept).
\<close>

definition materialize :: "jobject \<Rightarrow> string \<Rightarrow> jobject" where
  "materialize choice content =
     (let choice1 = obj_put ''message''
            (JObject (obj_put ''content'' (JString content)
                       (obj_put ''role'' (JString ''assistant'') []))) choice;
          choice2 = obj_delete ''delta'' choice1
      in if obj_get choice2 ''finish_reason'' = None
         then obj_put ''finish_reason'' (JString ''stop'') choice2
         else choice2)"

text \<open>
  \<^verbatim>\<open>finalResponse\<close>: a copy of the last chunk, its first choice updated, and the field
  \<^verbatim>\<open>object\<close> set. The source updates the choice in place, through the map that the copy
  shares with the last chunk; the last chunk is not read afterwards.
\<close>

definition finalize :: "jobject \<Rightarrow> string \<Rightarrow> jobject" where
  "finalize lastChunk content =
     (let finalResponse = lastChunk;
          finalResponse1 =
            (case first_choice (obj_get finalResponse ''choices'') of
               None \<Rightarrow> finalResponse
             | Some (choice, rest) \<Rightarrow>
                 obj_put ''choices'' (JArray (JObject (materialize choice content) # rest))
                   finalResponse)
      in obj_put ''object'' (JString ''chat.completion'') finalResponse1)"

definition convertStreamingResponse_with ::
  "(string \<Rightarrow> 'e + jobject option) \<Rightarrow> (json \<Rightarrow> 'e + string) \<Rightarrow> string \<Rightarrow> string" where
  "convertStreamingResponse_with unmarshal marshal streamingBody =
     (let lines = SplitLines streamingBody;
          (content, lastChunk) = scanLines unmarshal lines ([], None)
      in case lastChunk of
           None \<Rightarrow> streamingBody
         | Some chunk \<Rightarrow>
             (case marshal (JObject (finalize chunk content)) of
                Inl err \<Rightarrow> streamingBody
              | Inr jsonResult \<Rightarrow> jsonResult))"

subsection \<open>What the loop computes\<close>

text \<open>
  In the words of the specification: the lines that carry the data prefix, up to the
  sentinel, are the chunks examined; those that decode are the parsed chunks; the
  accumulated text is the concatenation of their fragments, and the last of them is the
  base object.
\<close>

definition payloads :: "string list \<Rightarrow> string list" where
  "payloads lines =
     map (\<lambda>line. TrimPrefix line ''data: '') (filter (\<lambda>line. HasPrefix line ''data: '') lines)"

definition examined :: "string list \<Rightarrow> string list" where
  "examined lines = takeWhile (\<lambda>data. data \<noteq> ''[DONE]'') (payloads lines)"

definition parsed_chunks :: "(string \<Rightarrow> 'e + jobject option) \<Rightarrow> string list \<Rightarrow> jobject option list" where
  "parsed_chunks unmarshal lines =
     List.map_filter (\<lambda>data. case unmarshal data of Inl err \<Rightarrow> None | Inr chunk \<Rightarrow> Some chunk)
       (examined lines)"

subsection \<open>The function on the model of encoding/json\<close>

text \<open>
  \<open>json_Unmarshal\<close> and \<open>json_Marshal\<close> model encoding/json on a fragment of JSON and
  answer \<open>Inl OutsideModel\<close> off it, where the library may well succeed. On that model
  the function of the recorder is therefore partial: the result is \<open>None\<close> when a data
  line that the loop decodes, or the rebuilt object, is outside the fragment, and the model
  does not say what the code returns; it is \<open>Some\<close> of the text returned otherwise.
\<close>

definition convertStreamingResponse :: "string \<Rightarrow> string option" where
  "convertStreamingResponse streamingBody =
     (let lines = SplitLines streamingBody;
          (content, lastChunk) = scanLines json_Unmarshal lines ([], None)
      in if list_ex (\<lambda>data. json_Unmarshal data = Inl OutsideModel) (examined lines) then None
         else if (case lastChunk of
                    None \<Rightarrow> False
                  | Some chunk \<Rightarrow>
                      json_Marshal (JObject (finalize chunk content)) = Inl OutsideModel)
           then None
         else Some (convertStreamingResponse_with json_Unmarshal json_Marshal streamingBody))"

section \<open>The recorder: OpenAIRecorder\<close>

subsection \<open>Pointers and the heap\<close>

text \<open>
  The recorder keeps pointers: its map holds \<^verbatim>\<open>*ModelData\<close>, a \<^verbatim>\<open>ModelData\<close> holds a slice
  \<^verbatim>\<open>[]*RequestResponsePair\<close>, and \<^verbatim>\<open>RecordResponse\<close> writes through such a pointer. The
  heap is therefore explicit: one list of objects per type, an address being an index into
  it. An allocation appends to the list, so the new address is fresh; nothing is ever
  freed (Go collects what cannot be reached). A Go program cannot make an address that is
  not allocated; where a function of the model finds one, it stops with
  \<open>Panic InvalidAddress\<close>.
\<close>

type_synonym addr = nat

datatype panic = InterfaceConversion | NilDereference | InvalidAddress

datatype 'a outcome = Return 'a | Panic panic

definition load :: "'a list \<Rightarrow> addr \<Rightarrow> 'a option" where
  "load h a = (if a < length h then Some (h ! a) else None)"

definition alloc :: "'a list \<Rightarrow> 'a \<Rightarrow> addr \<times> 'a list" where
  "alloc h v = (length h, h @ [v])"

text \<open>
  \<^verbatim>\<open>type RequestResponsePair struct\<close>. The field \<^verbatim>\<open>Model\<close> is named \<open>PairModel\<close> here,
  apart from the field of the key. A \<^verbatim>\<open>time.Time\<close> is taken as a number of nanoseconds
  since the Unix epoch, which is what \<^verbatim>\<open>UnixNano\<close> returns for it.
\<close>

record RequestResponsePair =
  ID :: string
  PairModel :: string
  Method :: string
  URL :: string
  Request :: string
  Response :: string
  Timestamp :: int
  StatusCode :: int
  UserAgent :: string

text \<open>
  A slice \<^verbatim>\<open>[]*RequestResponsePair\<close> is a view of a backing array: the array, the offset of
  the first element, the length and the capacity. A slot of the array holds a pointer, or
  \<open>None\<close> for \<^verbatim>\<open>nil\<close>.
\<close>

record slice =
  sl_array :: addr
  sl_off :: nat
  sl_len :: nat
  sl_cap :: nat

text \<open>
  \<^verbatim>\<open>type ModelData struct { Config inference.BackendConfiguration; Records
  []*RequestResponsePair }\<close>. The configuration type is declared outside the files at hand:
  it is a type parameter, and the zero value \<^verbatim>\<open>inference.BackendConfiguration{}\<close> is
  \<open>0\<close>.
\<close>

record 'cfg ModelData =
  Config :: 'cfg
  Records :: slice

datatype log_entry = Infof string | Warnf string | Errorf string

text \<open>
  The state: the fields of \<^verbatim>\<open>OpenAIRecorder\<close> (\<open>records\<close>, and what was sent to
  \<^verbatim>\<open>log\<close>), and the heap. Every method of the recorder holds the lock \<^verbatim>\<open>m\<close> while it
  reads or writes the store, so a method is one step on the state. \<open>growslice\<close> is the
  capacity that the Go runtime picks when \<^verbatim>\<open>append\<close> has to allocate (from the old
  capacity and the length needed).
\<close>

record ('mode, 'cfg) state =
  records :: "('mode, addr) Map"
  logged :: "log_entry list"
  datas :: "'cfg ModelData list"
  arrays :: "addr option list list"
  pairs :: "RequestResponsePair list"
  growslice :: "nat \<Rightarrow> nat \<Rightarrow> nat"

definition NewOpenAIRecorder ::
  "(string \<Rightarrow> string) \<Rightarrow> (nat \<Rightarrow> nat \<Rightarrow> nat) \<Rightarrow> ('mode, 'cfg) state" where
  "NewOpenAIRecorder runnerMapNormalizeFn grow =
     \<lparr>records = Map_New runnerMapNormalizeFn, logged = [], datas = [], arrays = [],
      pairs = [], growslice = grow\<rparr>"

subsection \<open>Slices\<close>

text \<open>\<^verbatim>\<open>make([]*RequestResponsePair, n, c)\<close>: a new array of \<open>c\<close> nil pointers.\<close>

definition make_slice :: "addr option list list \<Rightarrow> nat \<Rightarrow> nat \<Rightarrow> slice \<times> addr option list list" where
  "make_slice arrs n c =
     (\<lparr>sl_array = length arrs, sl_off = 0, sl_len = n, sl_cap = c\<rparr>, arrs @ [replicate c None])"

text \<open>The elements of a slice, read from its array.\<close>

definition slice_elems :: "addr option list list \<Rightarrow> slice \<Rightarrow> addr option list option" where
  "slice_elems arrs s =
     (case load arrs (sl_array s) of
        None \<Rightarrow> None
      | Some arr \<Rightarrow>
          if sl_off s + sl_len s \<le> length arr
          then Some (take (sl_len s) (drop (sl_off s) arr))
          else None)"

text \<open>
  \<^verbatim>\<open>append(s, x)\<close>: within the capacity the element is written into the array of \<open>s\<close>;
  otherwise a new array receives the elements and \<open>x\<close>, with the capacity that the
  runtime picks, which is at least the length needed.
\<close>

definition append_slice ::
  "(nat \<Rightarrow> nat \<Rightarrow> nat) \<Rightarrow> addr option list list \<Rightarrow> slice \<Rightarrow> addr option
     \<Rightarrow> (slice \<times> addr option list list) option" where
  "append_slice grow arrs s x =
     (case slice_elems arrs s of
        None \<Rightarrow> None
      | Some elems \<Rightarrow>
          if sl_len s < sl_cap s then
            (if sl_off s + sl_len s < length (arrs ! sl_array s)
             then Some (s\<lparr>sl_len := sl_len s + 1\<rparr>,
                        arrs[sl_array s := (arrs ! sl_array s)[sl_off s + sl_len s := x]])
             else None)
          else
            (let c = max (sl_len s + 1) (grow (sl_cap s) (sl_len s + 1))
             in Some (\<lparr>sl_array = length arrs, sl_off = 0, sl_len = sl_len s + 1, sl_cap = c\<rparr>,
                      arrs @ [elems @ [x] @ replicate (c - (sl_len s + 1)) None])))"

text \<open>\<^verbatim>\<open>s[1:]\<close>, for a slice that is not empty.\<close>

definition reslice_from_1 :: "slice \<Rightarrow> slice" where
  "reslice_from_1 s = s\<lparr>sl_off := sl_off s + 1, sl_len := sl_len s - 1, sl_cap := sl_cap s - 1\<rparr>"

subsection \<open>SetConfigForModel and RecordRequest\<close>

text \<open>
  Both methods start with the same statement, lines 79 to 84 and 106 to 111:
  \<^verbatim>\<open>if _, ok := r.records.Get(runner); !ok { r.records.Set(runner, &ModelData{Records:
  make([]*RequestResponsePair, 0, 10), Config: inference.BackendConfiguration{}}) }\<close>.
\<close>

definition ensureModelData ::
  "('mode, 'cfg::zero) state \<Rightarrow> 'mode Key \<Rightarrow> ('mode, 'cfg) state" where
  "ensureModelData st runner =
     (case Map_Get (records st) runner of
        Some p \<Rightarrow> st
      | None \<Rightarrow>
          (let (s, arrays') = make_slice (arrays st) 0 10;
               (p, datas') = alloc (datas st) \<lparr>Config = 0, Records = s\<rparr>
           in st\<lparr>records := Map_Set (records st) runner p, datas := datas',
                 arrays := arrays'\<rparr>))"

text \<open>The argument \<open>config\<close> is a pointer: \<open>None\<close> is \<^verbatim>\<open>nil\<close>.\<close>

definition SetConfigForModel ::
  "('mode, 'cfg::zero) state \<Rightarrow> 'mode Key \<Rightarrow> 'cfg option \<Rightarrow> unit outcome \<times> ('mode, 'cfg) state" where
  "SetConfigForModel st runner config =
     (case config of
        None \<Rightarrow>
          (Return (),
           st\<lparr>logged := logged st @
             [Warnf (''SetConfigForModel called with nil config for model '' @ Model runner)]\<rparr>)
      | Some c \<Rightarrow>
          (let st1 = ensureModelData st runner
           in case Map_Get (records st1) runner of
                None \<Rightarrow> (Panic NilDereference, st1)
              | Some rr \<Rightarrow>
                  (case load (datas st1) rr of
                     None \<Rightarrow> (Panic InvalidAddress, st1)
                   | Some d \<Rightarrow>
                       (Return (), st1\<lparr>datas := (datas st1)[rr := d\<lparr>Config := c\<rparr>]\<rparr>))))"

text \<open>
  What \<^verbatim>\<open>RecordRequest\<close> reads of the \<^verbatim>\<open>*http.Request\<close>: \<^verbatim>\<open>req.Method\<close>,
  \<^verbatim>\<open>req.URL.Path\<close> and \<^verbatim>\<open>req.UserAgent()\<close>.
\<close>

record http_Request =
  req_Method :: string
  req_URL_Path :: string
  req_UserAgent :: string

text \<open>
  The record that \<^verbatim>\<open>RecordRequest\<close> builds. The clock is read twice: \<open>now1\<close> is the
  value of \<^verbatim>\<open>time.Now().UnixNano()\<close> in the id, \<open>now2\<close> the later \<^verbatim>\<open>time.Now()\<close> of the
  time stamp. The fields \<^verbatim>\<open>Response\<close> and \<^verbatim>\<open>StatusCode\<close> keep their zero values.
\<close>

definition new_record :: "'mode Key \<Rightarrow> http_Request \<Rightarrow> string \<Rightarrow> int \<Rightarrow> int \<Rightarrow> RequestResponsePair" where
  "new_record runner req body now1 now2 =
     \<lparr>ID = Model runner @ ''_'' @ Itoa now1,
      PairModel = Model runner,
      Method = req_Method req,
      URL = req_URL_Path req,
      Request = body,
      Response = [],
      Timestamp = now2,
      StatusCode = 0,
      UserAgent = req_UserAgent req\<rparr>"

definition RecordRequest ::
  "('mode, 'cfg::zero) state \<Rightarrow> 'mode Key \<Rightarrow> http_Request \<Rightarrow> string \<Rightarrow> int \<Rightarrow> int
     \<Rightarrow> string outcome \<times> ('mode, 'cfg) state" where
  "RecordRequest st runner req body now1 now2 =
     (let recordID = Model runner @ ''_'' @ Itoa now1;
          (record, pairs') = alloc (pairs st) (new_record runner req body now1 now2);
          st1 = ensureModelData (st\<lparr>pairs := pairs'\<rparr>) runner
      in case Map_Get (records st1) runner of
           None \<Rightarrow> (Panic NilDereference, st1)
         | Some rr \<Rightarrow>
             (case load (datas st1) rr of
                None \<Rightarrow> (Panic InvalidAddress, st1)
              | Some d \<Rightarrow>
                  (case append_slice (growslice st1) (arrays st1) (Records d) (Some record) of
                     None \<Rightarrow> (Panic InvalidAddress, st1)
                   | Some (s, arrays') \<Rightarrow>
                       (let s' = (if sl_len s > 10 then reslice_from_1 s else s)
                        in (Return recordID,
                            st1\<lparr>arrays := arrays',
                                datas := (datas st1)[rr := d\<lparr>Records := s'\<rparr>]\<rparr>)))))"

subsection \<open>The capturing writer\<close>

text \<open>
  An \<^verbatim>\<open>http.ResponseWriter\<close> is an interface value: \<^verbatim>\<open>nil\<close>, a writer of another type
  (with the bytes and the status it has received), or a \<^verbatim>\<open>*responseRecorder\<close> with its
  three fields: the writer it wraps, the buffer \<^verbatim>\<open>body\<close> and \<^verbatim>\<open>statusCode\<close>.
\<close>

datatype ResponseWriter =
    NilWriter
  | PlainWriter string "int option"
  | ResponseRecorder ResponseWriter string int

definition NewResponseRecorder :: "ResponseWriter \<Rightarrow> ResponseWriter" where
  "NewResponseRecorder w = ResponseRecorder w [] 200"

fun Write :: "ResponseWriter \<Rightarrow> string \<Rightarrow> ResponseWriter outcome" where
  "Write NilWriter b = Panic NilDereference"
| "Write (PlainWriter out status) b =
     Return (PlainWriter (out @ b) (case status of None \<Rightarrow> Some 200 | Some c \<Rightarrow> Some c))"
| "Write (ResponseRecorder w body statusCode) b =
     (case Write w b of
        Panic p \<Rightarrow> Panic p
      | Return w' \<Rightarrow> Return (ResponseRecorder w' (body @ b) statusCode))"

fun WriteHeader :: "ResponseWriter \<Rightarrow> int \<Rightarrow> ResponseWriter outcome" where
  "WriteHeader NilWriter c = Panic NilDereference"
| "WriteHeader (PlainWriter out status) c =
     Return (PlainWriter out (case status of None \<Rightarrow> Some c | Some c' \<Rightarrow> Some c'))"
| "WriteHeader (ResponseRecorder w body statusCode) c =
     (case WriteHeader w c of
        Panic p \<Rightarrow> Panic p
      | Return w' \<Rightarrow> Return (ResponseRecorder w' body c))"

text \<open>The writers that \<^verbatim>\<open>RecordResponse\<close> can take: those of type \<^verbatim>\<open>*responseRecorder\<close>.\<close>

fun is_responseRecorder :: "ResponseWriter \<Rightarrow> bool" where
  "is_responseRecorder (ResponseRecorder w body statusCode) = True"
| "is_responseRecorder _ = False"

subsection \<open>RecordResponse\<close>

text \<open>
  The loop \<^verbatim>\<open>for _, record := range modelData.Records { if record.ID == id ... }\<close>: the
  address of the first record with the id (\<open>reqID\<close>), if there is one.
\<close>

fun find_record :: "RequestResponsePair list \<Rightarrow> addr option list \<Rightarrow> string \<Rightarrow> addr option outcome" where
  "find_record prs [] reqID = Return None"
| "find_record prs (None # rest) reqID = Panic NilDereference"
| "find_record prs (Some a # rest) reqID =
     (case load prs a of
        None \<Rightarrow> Panic InvalidAddress
      | Some record \<Rightarrow> if ID record = reqID then Return (Some a) else find_record prs rest reqID)"

text \<open>Lines 138 to 143: the text to store, from the buffered body.\<close>

definition response_text :: "(string \<Rightarrow> string) \<Rightarrow> string \<Rightarrow> string" where
  "response_text convert responseBody =
     (if Contains responseBody ''data: '' then convert responseBody else responseBody)"

text \<open>
  \<^verbatim>\<open>RecordResponse\<close>, with the stream reconstruction it calls as the parameter
  \<open>convert\<close> (the method \<^verbatim>\<open>convertStreamingResponse\<close>, which reads nothing but its
  argument and calls encoding/json). The type assertion \<^verbatim>\<open>rw.(*responseRecorder)\<close> of line 133 has no
  \<^verbatim>\<open>ok\<close> result: on any other writer it panics.
\<close>

definition RecordResponse ::
  "(string \<Rightarrow> string) \<Rightarrow> ('mode, 'cfg) state \<Rightarrow> string \<Rightarrow> 'mode Key \<Rightarrow> ResponseWriter
     \<Rightarrow> unit outcome \<times> ('mode, 'cfg) state" where
  "RecordResponse convert st reqID runner rw =
     (case rw of
        ResponseRecorder w responseBody statusCode \<Rightarrow>
          (let response = response_text convert responseBody
           in case Map_Get (records st) runner of
                Some p \<Rightarrow>
                  (case load (datas st) p of
                     None \<Rightarrow> (Panic InvalidAddress, st)
                   | Some modelData \<Rightarrow>
                       (case slice_elems (arrays st) (Records modelData) of
                          None \<Rightarrow> (Panic InvalidAddress, st)
                        | Some elems \<Rightarrow>
                            (case find_record (pairs st) elems reqID of
                               Panic e \<Rightarrow> (Panic e, st)
                             | Return (Some a) \<Rightarrow>
                                 (Return (),
                                  st\<lparr>pairs := (pairs st)
                                    [a := (pairs st ! a)\<lparr>Response := response,
                                                          StatusCode := statusCode\<rparr>]\<rparr>)
                             | Return None \<Rightarrow>
                                 (Return (),
                                  st\<lparr>logged := logged st @
                                    [Errorf (''Matching request (id='' @ reqID @
                                       '') not found for model '' @ Model runner @ '' - '' @
                                       Itoa statusCode @ [newline] @ response)]\<rparr>))))
              | None \<Rightarrow>
                  (Return (),
                   st\<lparr>logged := logged st @
                     [Errorf (''Model '' @ Model runner @ '' not found in records - '' @
                        Itoa statusCode @ [newline] @ response)]\<rparr>))
      | _ \<Rightarrow> (Panic InterfaceConversion, st))"

subsection \<open>GetModelData and RemoveModel\<close>

text \<open>
  The two constants of the key that these methods build, \<^verbatim>\<open>llamacpp.Name\<close> and
  \<^verbatim>\<open>inference.BackendModeCompletion\<close>, are declared outside the files at hand.
\<close>

record 'mode constants =
  llamacpp_Name :: string
  BackendModeCompletion :: 'mode

definition completionKey :: "'mode constants \<Rightarrow> string \<Rightarrow> 'mode Key" where
  "completionKey env model =
     \<lparr>Backend = llamacpp_Name env, Model = model, Mode = BackendModeCompletion env\<rparr>"

text \<open>
  \<^verbatim>\<open>GetModelData\<close> returns a pointer to a new \<^verbatim>\<open>ModelData\<close>, or \<^verbatim>\<open>nil\<close> (\<open>None\<close>). The
  new slice has an array of its own (\<^verbatim>\<open>make\<close>), into which \<^verbatim>\<open>copy\<close> writes the elements
  of the stored slice: the pointers, not the records they point to.
\<close>

definition GetModelData ::
  "'mode constants \<Rightarrow> ('mode, 'cfg) state \<Rightarrow> string \<Rightarrow> addr option outcome \<times> ('mode, 'cfg) state" where
  "GetModelData env st model =
     (case Map_Get (records st) (completionKey env model) of
        None \<Rightarrow> (Return None, st)
      | Some p \<Rightarrow>
          (case load (datas st) p of
             None \<Rightarrow> (Panic InvalidAddress, st)
           | Some modelData \<Rightarrow>
               (case slice_elems (arrays st) (Records modelData) of
                  None \<Rightarrow> (Panic InvalidAddress, st)
                | Some elems \<Rightarrow>
                    (let n = sl_len (Records modelData);
                         (records', arrays1) = make_slice (arrays st) n n;
                         arrays2 = arrays1[sl_array records' := elems];
                         (q, datas') =
                           alloc (datas st) \<lparr>Config = Config modelData, Records = records'\<rparr>
                     in (Return (Some q), st\<lparr>arrays := arrays2, datas := datas'\<rparr>)))))"

definition RemoveModel ::
  "'mode constants \<Rightarrow> ('mode, 'cfg) state \<Rightarrow> string \<Rightarrow> ('mode, 'cfg) state" where
  "RemoveModel env st model =
     (let runnerKey = completionKey env model
      in case Map_Get (records st) runnerKey of
           Some p \<Rightarrow>
             st\<lparr>records := Map_Delete (records st) runnerKey,
                logged := logged st @ [Infof (''Removed records for model: '' @ model)]\<rparr>
         | None \<Rightarrow>
             st\<lparr>logged := logged st @ [Warnf (''No records found for model: '' @ model)]\<rparr>)"

subsection \<open>What a caller holds and can do with the result of GetModelData\<close>

text \<open>
  The data behind a \<^verbatim>\<open>*ModelData\<close>: the configuration, and for each element of the slice
  the record it points to (\<open>None\<close> for a nil pointer).
\<close>

definition contents ::
  "('mode, 'cfg) state \<Rightarrow> addr \<Rightarrow> ('cfg \<times> RequestResponsePair option list) option" where
  "contents st p =
     (case load (datas st) p of
        None \<Rightarrow> None
      | Some d \<Rightarrow>
          (case slice_elems (arrays st) (Records d) of
             None \<Rightarrow> None
           | Some elems \<Rightarrow>
               Some (Config d,
                     map (\<lambda>x. case x of None \<Rightarrow> None | Some a \<Rightarrow> load (pairs st) a) elems)))"

text \<open>What a query for a model returns, as data: a call of \<^verbatim>\<open>GetModelData\<close> read at once.\<close>

definition Query ::
  "'mode constants \<Rightarrow> ('mode, 'cfg) state \<Rightarrow> string
     \<Rightarrow> ('cfg \<times> RequestResponsePair option list) option outcome" where
  "Query env st model =
     (case GetModelData env st model of
        (Panic e, st') \<Rightarrow> Panic e
      | (Return None, st') \<Rightarrow> Return None
      | (Return (Some q), st') \<Rightarrow> Return (contents st' q))"




subsection \<open>The records stored for a key\<close>

text \<open>
  The slice stored for a key, as the list of its pointers, and the records behind them
  (\<open>None\<close> when the key has no entry, or when a pointer of the slice is nil).
\<close>

definition stored_pointers :: "('mode, 'cfg) state \<Rightarrow> 'mode Key \<Rightarrow> addr option list option" where
  "stored_pointers st runner =
     (case Map_Get (records st) runner of
        None \<Rightarrow> None
      | Some p \<Rightarrow>
          (case load (datas st) p of
             None \<Rightarrow> None
           | Some d \<Rightarrow> slice_elems (arrays st) (Records d)))"

fun load_all :: "'a list \<Rightarrow> addr option list \<Rightarrow> 'a list option" where
  "load_all h [] = Some []"
| "load_all h (None # xs) = None"
| "load_all h (Some a # xs) =
     (case load h a of
        None \<Rightarrow> None
      | Some v \<Rightarrow> (case load_all h xs of None \<Rightarrow> None | Some vs \<Rightarrow> Some (v # vs)))"

definition stored_records :: "('mode, 'cfg) state \<Rightarrow> 'mode Key \<Rightarrow> RequestResponsePair list option" where
  "stored_records st runner =
     (case stored_pointers st runner of
        None \<Rightarrow> None
      | Some elems \<Rightarrow> load_all (pairs st) elems)"

text \<open>
  A slice is well formed in a heap when its array is allocated and the slice lies in it,
  the capacity reaching to the end of the array. A key has a well-formed entry when the map
  has a \<^verbatim>\<open>*ModelData\<close> for it that is allocated and whose slice is well formed.
\<close>

definition slice_ok :: "addr option list list \<Rightarrow> slice \<Rightarrow> bool" where
  "slice_ok arrs s \<longleftrightarrow>
     sl_array s < length arrs \<and> sl_off s + sl_cap s = length (arrs ! sl_array s)
     \<and> sl_len s \<le> sl_cap s"

definition entry_ok :: "('mode, 'cfg) state \<Rightarrow> 'mode Key \<Rightarrow> bool" where
  "entry_ok st runner =
     (case Map_Get (records st) runner of
        None \<Rightarrow> False
      | Some p \<Rightarrow>
          (case load (datas st) p of
             None \<Rightarrow> False
           | Some d \<Rightarrow> slice_ok (arrays st) (Records d)))"

definition entry_holds ::
  "('mode, 'cfg) state \<Rightarrow> 'mode Key \<Rightarrow> RequestResponsePair list \<Rightarrow> bool" where
  "entry_holds st runner recs \<longleftrightarrow> entry_ok st runner \<and> stored_records st runner = Some recs"

text \<open>A sequence of request captures against one key, each with its two clock readings.\<close>

fun RecordRequests ::
  "('mode, 'cfg::zero) state \<Rightarrow> 'mode Key \<Rightarrow> (http_Request \<times> string \<times> int \<times> int) list
     \<Rightarrow> string list outcome \<times> ('mode, 'cfg) state" where
  "RecordRequests st runner [] = (Return [], st)"
| "RecordRequests st runner ((req, body, now1, now2) # rest) =
     (case RecordRequest st runner req body now1 now2 of
        (Panic e, st') \<Rightarrow> (Panic e, st')
      | (Return recordID, st') \<Rightarrow>
          (case RecordRequests st' runner rest of
             (Panic e, st'') \<Rightarrow> (Panic e, st'')
           | (Return ids, st'') \<Rightarrow> (Return (recordID # ids), st'')))"

text \<open>
  The records that a sequence of captures creates, and the ids that the calls return, in
  the order of the calls.
\<close>

definition created ::
  "'mode Key \<Rightarrow> (http_Request \<times> string \<times> int \<times> int) list \<Rightarrow> RequestResponsePair list" where
  "created runner captures =
     map (\<lambda>(req, body, now1, now2). new_record runner req body now1 now2) captures"

definition returned_ids ::
  "'mode Key \<Rightarrow> (http_Request \<times> string \<times> int \<times> int) list \<Rightarrow> string list" where
  "returned_ids runner captures =
     map (\<lambda>(req, body, now1, now2). Model runner @ ''_'' @ Itoa now1) captures"

text \<open>
  The bound in the words of the specification: after an append that exceeds ten records
  the oldest is dropped; \<open>window\<close> does so for a sequence of appends.
\<close>

definition evict :: "'a list \<Rightarrow> 'a list" where
  "evict xs = (if length xs > 10 then tl xs else xs)"

definition window :: "'a list \<Rightarrow> 'a list \<Rightarrow> 'a list" where
  "window recs news = foldl (\<lambda>acc r. evict (acc @ [r])) recs news"





subsection \<open>Reachable states\<close>

text \<open>
  The states that the recorder can be in: those that its methods produce from a new
  recorder (a call that panics leaves the state it had reached). \<open>wf\<close> is the invariant
  they share: every \<^verbatim>\<open>*ModelData\<close> of the map is allocated; every slice of a
  \<^verbatim>\<open>ModelData\<close> lies in an allocated array, has at most ten elements, and holds pointers
  to allocated records, none of them nil.
\<close>

definition ptr_ok :: "nat \<Rightarrow> addr option \<Rightarrow> bool" where
  "ptr_ok n x = (case x of None \<Rightarrow> False | Some a \<Rightarrow> a < n)"

definition slice_valid :: "addr option list list \<Rightarrow> nat \<Rightarrow> slice \<Rightarrow> bool" where
  "slice_valid arrs n s \<longleftrightarrow>
     slice_ok arrs s \<and> sl_len s \<le> 10
     \<and> list_all (ptr_ok n) (take (sl_len s) (drop (sl_off s) (arrs ! sl_array s)))"

definition wf :: "('mode, 'cfg) state \<Rightarrow> bool" where
  "wf st \<longleftrightarrow>
     (\<forall>k p. m (records st) k = Some p \<longrightarrow> p < length (datas st))
     \<and> list_all (\<lambda>d. slice_valid (arrays st) (length (pairs st)) (Records d)) (datas st)"

inductive reachable :: "'mode constants \<Rightarrow> ('mode, 'cfg::zero) state \<Rightarrow> bool" for env where
  new: "reachable env (NewOpenAIRecorder runnerMapNormalizeFn grow)"
| set_config: "reachable env st \<Longrightarrow> reachable env (snd (SetConfigForModel st runner config))"
| record_request:
    "reachable env st \<Longrightarrow> reachable env (snd (RecordRequest st runner req body now1 now2))"
| record_response:
    "reachable env st \<Longrightarrow> reachable env (snd (RecordResponse convert st reqID runner rw))"
| get_model_data: "reachable env st \<Longrightarrow> reachable env (snd (GetModelData env st model))"
| remove_model: "reachable env st \<Longrightarrow> reachable env (RemoveModel env st model)"

subsection \<open>The query endpoint: GetRecordsByModelHandler\<close>

text \<open>
  The response as the handler leaves it: the header \<^verbatim>\<open>Content-Type\<close>, the status (none
  until the first \<^verbatim>\<open>WriteHeader\<close> or \<^verbatim>\<open>Write\<close>), and the body.
\<close>

record http_response =
  content_type :: string
  status :: "int option"
  out :: string

definition empty_response :: http_response where
  "empty_response = \<lparr>content_type = [], status = None, out = []\<rparr>"

text \<open>
  \<^verbatim>\<open>http.Error(w, msg, code)\<close> of net/http: it sets the content type to plain text, writes
  the status, and prints the message and a line feed. A \<^verbatim>\<open>Write\<close> with no status yet
  sends 200 first.
\<close>

definition http_Error :: "http_response \<Rightarrow> string \<Rightarrow> int \<Rightarrow> http_response" where
  "http_Error w msg code =
     w\<lparr>content_type := ''text/plain; charset=utf-8'',
       status := (case status w of None \<Rightarrow> Some code | Some c \<Rightarrow> Some c),
       out := out w @ msg @ [newline]\<rparr>"

definition http_Write :: "http_response \<Rightarrow> string \<Rightarrow> http_response" where
  "http_Write w b =
     w\<lparr>status := (case status w of None \<Rightarrow> Some 200 | Some c \<Rightarrow> Some c), out := out w @ b\<rparr>"

text \<open>
  The value that the handler encodes:
  \<^verbatim>\<open>map[string]interface{}{"model": model, "records": modelData.Records, "count":
  len(modelData.Records), "config": modelData.Config}\<close>. The encoder follows the pointers of
  \<^verbatim>\<open>records\<close>, so the value holds the records themselves.
\<close>

record 'cfg payload =
  p_model :: string
  p_records :: "RequestResponsePair option list"
  p_count :: int
  p_config :: 'cfg

text \<open>
  The handler, for the value \<open>model\<close> of \<^verbatim>\<open>req.URL.Query().Get("model")\<close>, which is empty
  when the parameter is absent. The encoder of encoding/json is the parameter \<open>encodeJSON\<close>:
  \<open>Inl\<close> is its error, as the text that \<^verbatim>\<open>%v\<close> prints, and \<open>Inr\<close> the JSON text, to
  which \<^verbatim>\<open>Encode\<close> adds a line feed.
\<close>

definition GetRecordsByModelHandler ::
  "'mode constants \<Rightarrow> ('cfg payload \<Rightarrow> string + string) \<Rightarrow> ('mode, 'cfg) state \<Rightarrow> http_response
     \<Rightarrow> string \<Rightarrow> http_response outcome \<times> ('mode, 'cfg) state" where
  "GetRecordsByModelHandler env encodeJSON st w0 model =
     (let w = w0\<lparr>content_type := ''application/json''\<rparr>
      in if model = [] then
           (Return (http_Error w ''A 'model' query parameter is required'' 400), st)
         else
           (case GetModelData env st model of
              (Panic e, st') \<Rightarrow> (Panic e, st')
            | (Return None, st') \<Rightarrow>
                (Return (http_Error w (''No records found for model '' @ [CHR 0x27] @ model @ [CHR 0x27]) 404), st')
            | (Return (Some q), st') \<Rightarrow>
                (case contents st' q of
                   None \<Rightarrow> (Panic InvalidAddress, st')
                 | Some (config, recs) \<Rightarrow>
                     (case encodeJSON \<lparr>p_model = model, p_records = recs,
                                   p_count = int (length recs), p_config = config\<rparr> of
                        Inl err \<Rightarrow>
                          (Return (http_Error w
                             (''Failed to encode records for model '' @ [CHR 0x27] @ model @ [CHR 0x27] @
                                '': '' @ err)
                             500), st')
                      | Inr text \<Rightarrow> (Return (http_Write w (text @ [newline])), st')))))"

section \<open>Example response bodies\<close>

text \<open>
  A streamed chat completion of two chunks with the fragments \<^verbatim>\<open>Hello\<close> and
  \<^verbatim>\<open> world\<close>, no finish reason, and the terminating sentinel; the two chunks as
  \<^verbatim>\<open>json.Unmarshal\<close> decodes them; and the text that reconstruction returns for it.
\<close>

definition hello_chunk1 :: string where
  "hello_chunk1 =
     ''{\"id\":\"chatcmpl-1\",\"object\":\"chat.completion.chunk\",\"created\":1700000000,\"model\":\"m\",\"choices\":[{\"index\":0,\"delta\":{\"role\":\"assistant\",\"content\":\"Hello\"}}]}''"

definition hello_chunk2 :: string where
  "hello_chunk2 =
     ''{\"id\":\"chatcmpl-1\",\"object\":\"chat.completion.chunk\",\"created\":1700000000,\"model\":\"m\",\"choices\":[{\"index\":0,\"delta\":{\"content\":\" world\"}}]}''"

definition hello_stream :: string where
  "hello_stream =
     ''data: '' @ hello_chunk1 @ [newline, newline] @
     ''data: '' @ hello_chunk2 @ [newline, newline] @
     ''data: [DONE]'' @ [newline, newline]"

definition hello_object1 :: jobject where
  "hello_object1 =
     [(''choices'',
       JArray [JObject [(''delta'', JObject [(''content'', JString ''Hello''),
                                             (''role'', JString ''assistant'')]),
                        (''index'', JNumber 0)]]),
      (''created'', JNumber 1700000000), (''id'', JString ''chatcmpl-1''),
      (''model'', JString ''m''), (''object'', JString ''chat.completion.chunk'')]"

definition hello_object2 :: jobject where
  "hello_object2 =
     [(''choices'',
       JArray [JObject [(''delta'', JObject [(''content'', JString '' world'')]),
                        (''index'', JNumber 0)]]),
      (''created'', JNumber 1700000000), (''id'', JString ''chatcmpl-1''),
      (''model'', JString ''m''), (''object'', JString ''chat.completion.chunk'')]"

definition hello_text :: string where
  "hello_text =
     ''{\"choices\":[{\"finish_reason\":\"stop\",\"index\":0,\"message\":{\"content\":\"Hello world\",\"role\":\"assistant\"}}],\"created\":1700000000,\"id\":\"chatcmpl-1\",\"model\":\"m\",\"object\":\"chat.completion\"}''"

text \<open>
  A stream of one chunk that carries a \<^verbatim>\<open>usage\<close> field, the bytes of that field in the
  chunk, the chunk as decoded, and the text that reconstruction returns.
\<close>

definition usage_field :: string where
  "usage_field = ''\"usage\":{\"prompt_tokens\":1,\"completion_tokens\":2,\"total_tokens\":3}''"

definition usage_stream :: string where
  "usage_stream =
     ''data: {\"id\":\"c1\",\"object\":\"chat.completion.chunk\",\"created\":1700000000,\"model\":\"m\",\"choices\":[{\"index\":0,\"delta\":{\"content\":\"Hi\"}}],'' @ usage_field @ ''}'' @ [newline, newline] @
     ''data: [DONE]'' @ [newline, newline]"

definition usage_object :: jobject where
  "usage_object =
     [(''choices'',
       JArray [JObject [(''delta'', JObject [(''content'', JString ''Hi'')]),
                        (''index'', JNumber 0)]]),
      (''created'', JNumber 1700000000), (''id'', JString ''c1''),
      (''model'', JString ''m''), (''object'', JString ''chat.completion.chunk''),
      (''usage'',
       JObject [(''completion_tokens'', JNumber 2), (''prompt_tokens'', JNumber 1),
                (''total_tokens'', JNumber 3)])]"

definition usage_text :: string where
  "usage_text =
     ''{\"choices\":[{\"finish_reason\":\"stop\",\"index\":0,\"message\":{\"content\":\"Hi\",\"role\":\"assistant\"}}],\"created\":1700000000,\"id\":\"c1\",\"model\":\"m\",\"object\":\"chat.completion\",\"usage\":{\"completion_tokens\":2,\"prompt_tokens\":1,\"total_tokens\":3}}''"

text \<open>
  The same stream with the key \<^verbatim>\<open>finish_reason\<close> present in the first choice of both
  chunks, with the value \<^verbatim>\<open>null\<close>, as streaming servers write it on every chunk before
  the last; the chunks as decoded; the text that reconstruction returns; and that text as
  decoded, with its first choice.
\<close>

definition null_chunk1 :: string where
  "null_chunk1 =
     ''{\"id\":\"chatcmpl-1\",\"object\":\"chat.completion.chunk\",\"created\":1700000000,\"model\":\"m\",\"choices\":[{\"index\":0,\"delta\":{\"role\":\"assistant\",\"content\":\"Hello\"},\"finish_reason\":null}]}''"

definition null_chunk2 :: string where
  "null_chunk2 =
     ''{\"id\":\"chatcmpl-1\",\"object\":\"chat.completion.chunk\",\"created\":1700000000,\"model\":\"m\",\"choices\":[{\"index\":0,\"delta\":{\"content\":\" world\"},\"finish_reason\":null}]}''"

definition null_stream :: string where
  "null_stream =
     ''data: '' @ null_chunk1 @ [newline, newline] @
     ''data: '' @ null_chunk2 @ [newline, newline] @
     ''data: [DONE]'' @ [newline, newline]"

definition null_object1 :: jobject where
  "null_object1 =
     [(''choices'',
       JArray [JObject [(''delta'', JObject [(''content'', JString ''Hello''),
                                             (''role'', JString ''assistant'')]),
                        (''finish_reason'', JNull),
                        (''index'', JNumber 0)]]),
      (''created'', JNumber 1700000000), (''id'', JString ''chatcmpl-1''),
      (''model'', JString ''m''), (''object'', JString ''chat.completion.chunk'')]"

definition null_object2 :: jobject where
  "null_object2 =
     [(''choices'',
       JArray [JObject [(''delta'', JObject [(''content'', JString '' world'')]),
                        (''finish_reason'', JNull),
                        (''index'', JNumber 0)]]),
      (''created'', JNumber 1700000000), (''id'', JString ''chatcmpl-1''),
      (''model'', JString ''m''), (''object'', JString ''chat.completion.chunk'')]"

definition null_text :: string where
  "null_text =
     ''{\"choices\":[{\"finish_reason\":null,\"index\":0,\"message\":{\"content\":\"Hello world\",\"role\":\"assistant\"}}],\"created\":1700000000,\"id\":\"chatcmpl-1\",\"model\":\"m\",\"object\":\"chat.completion\"}''"

definition null_choice :: jobject where
  "null_choice =
     [(''finish_reason'', JNull), (''index'', JNumber 0),
      (''message'', JObject [(''content'', JString ''Hello world''),
                             (''role'', JString ''assistant'')])]"

definition null_final :: jobject where
  "null_final =
     [(''choices'', JArray [JObject null_choice]),
      (''created'', JNumber 1700000000), (''id'', JString ''chatcmpl-1''),
      (''model'', JString ''m''), (''object'', JString ''chat.completion'')]"

text \<open>
  An encoder that fails on one value, the object rebuilt from the stream
  \<^verbatim>\<open>data: {}\<close>, and is \<open>json_Marshal\<close> on every other.
\<close>

definition marshal_failing_on :: "json \<Rightarrow> json \<Rightarrow> json_error + string" where
  "marshal_failing_on bad v = (if v = bad then Inl UnmarshalTypeError else json_Marshal v)"

section \<open>Example recorder states\<close>

text \<open>
  The constants of the completion key; a key for the model \<^verbatim>\<open>ai/smollm2\<close>; a request; a
  new recorder whose map normalises nothing and whose slices double when they grow; and the
  recorder after one capture, with the record that the capture creates.
\<close>

definition ex_env :: "nat constants" where
  "ex_env = \<lparr>llamacpp_Name = ''llama.cpp'', BackendModeCompletion = 0\<rparr>"

definition ex_key :: "nat Key" where
  "ex_key = \<lparr>Backend = ''llama.cpp'', Model = ''ai/smollm2'', Mode = 0\<rparr>"

definition ex_request :: http_Request where
  "ex_request =
     \<lparr>req_Method = ''POST'', req_URL_Path = ''/v1/chat/completions'',
      req_UserAgent = ''curl/8.5.0''\<rparr>"

definition ex_recorder0 :: "(nat, nat) state" where
  "ex_recorder0 = NewOpenAIRecorder (\<lambda>s. s) (\<lambda>c n. 2 * c)"

definition ex_recorder1 :: "(nat, nat) state" where
  "ex_recorder1 =
     snd (RecordRequest ex_recorder0 ex_key ex_request ''{}''
            1700000000000000001 1700000000000000002)"

definition ex_id :: string where
  "ex_id = ''ai/smollm2_1700000000000000001''"

definition ex_record :: RequestResponsePair where
  "ex_record =
     \<lparr>ID = ex_id, PairModel = ''ai/smollm2'', Method = ''POST'',
      URL = ''/v1/chat/completions'', Request = ''{}'', Response = [],
      Timestamp = 1700000000000000002, StatusCode = 0, UserAgent = ''curl/8.5.0''\<rparr>"

text \<open>Twelve captures, the clock reading \<open>n\<close> and then \<open>n + 1\<close> at capture \<open>n\<close>.\<close>

definition ex_captures :: "(http_Request \<times> string \<times> int \<times> int) list" where
  "ex_captures =
     map (\<lambda>n. (ex_request, ''{}'', n, n + 1)) [1, 2, 3, 4, 5, 6, 7, 8, 9, 10, 11, 12]"

text \<open>
  A response body that is not a stream; the capturing writer around a writer of the server
  once that body has been written to it, and once \<open>hello_stream\<close> has; a writer that is
  not a capturing writer; and the stream reconstruction on the model of encoding/json, as a
  function of every body (off the fragment of that model it is not the code's).
\<close>

definition ex_body :: string where
  "ex_body = ''{\"ok\":true}''"

definition ex_writer :: ResponseWriter where
  "ex_writer = ResponseRecorder (PlainWriter ex_body (Some 200)) ex_body 200"

definition ex_stream_writer :: ResponseWriter where
  "ex_stream_writer = ResponseRecorder (PlainWriter hello_stream (Some 200)) hello_stream 200"

definition ex_plain_writer :: ResponseWriter where
  "ex_plain_writer = PlainWriter ex_body (Some 200)"

definition ex_convert :: "string \<Rightarrow> string" where
  "ex_convert = convertStreamingResponse_with json_Unmarshal json_Marshal"



text \<open>
  Two encoders for the handler: one that prints the count and the model of the value it is
  given, and one that fails.
\<close>

definition ex_encode :: "nat payload \<Rightarrow> string + string" where
  "ex_encode p =
     Inr (''{\"count\":'' @ Itoa (p_count p) @ '',\"model\":\"'' @ p_model p @ ''\"}'')"

definition ex_encode_failing :: "nat payload \<Rightarrow> string + string" where
  "ex_encode_failing p = Inl ''json: unsupported type''"

text \<open>A normalisation function for the keyed map: it drops the hyphens of a model name.\<close>

definition drop_hyphens :: "string \<Rightarrow> string" where
  "drop_hyphens = filter (\<lambda>c. c \<noteq> CHR ''-'')"

section \<open>Properties of the keyed map\<close>

lemma normalizeFn_Map_Set [simp]: "normalizeFn (Map_Set rm key val) = normalizeFn rm"
  by (simp add: Map_Set_def Let_def)

lemma normalizeFn_Map_Delete [simp]: "normalizeFn (Map_Delete rm key) = normalizeFn rm"
  by (simp add: Map_Delete_def Let_def)

lemma normalizeKey_Map_Set [simp]: "normalizeKey (Map_Set rm key val) k = normalizeKey rm k"
  by (simp add: normalizeKey_def)

lemma normalizeKey_Map_Delete [simp]: "normalizeKey (Map_Delete rm key) k = normalizeKey rm k"
  by (simp add: normalizeKey_def)

lemma m_Map_Set: "m (Map_Set rm key val) = (m rm)(normalizeKey rm key \<mapsto> val)"
  by (simp add: Map_Set_def Let_def)

lemma initialModel_Map_Set:
  "initialModel (Map_Set rm key val) = (initialModel rm)(normalizeKey rm key \<mapsto> Model key)"
  by (simp add: Map_Set_def Let_def)

lemma m_Map_Delete: "m (Map_Delete rm key) = (m rm)(normalizeKey rm key := None)"
  by (simp add: Map_Delete_def Let_def)

lemma initialModel_Map_Delete:
  "initialModel (Map_Delete rm key) = (initialModel rm)(normalizeKey rm key := None)"
  by (simp add: Map_Delete_def Let_def)

lemma Map_Get_Map_Set:
  "Map_Get (Map_Set rm k1 val) k2 =
     (if normalizeKey rm k2 = normalizeKey rm k1 then Some val else Map_Get rm k2)"
  by (simp add: Map_Get_def m_Map_Set)

lemma Map_Get_Map_Delete:
  "Map_Get (Map_Delete rm k1) k2 =
     (if normalizeKey rm k2 = normalizeKey rm k1 then None else Map_Get rm k2)"
  by (simp add: Map_Get_def m_Map_Delete)

lemma normalizeKey_same_bucket:
  "normalizeFn rm s = normalizeFn rm (Model k) \<Longrightarrow>
     normalizeKey rm (k\<lparr>Model := s\<rparr>) = normalizeKey rm k"
  by (simp add: normalizeKey_def)

lemma normalizeKey_eq_iff:
  fixes k1 k2 :: "'mode Key"
  shows "normalizeKey rm k2 = normalizeKey rm k1 \<longleftrightarrow>
     Backend k2 = Backend k1 \<and> Mode k2 = Mode k1
     \<and> normalizeFn rm (Model k2) = normalizeFn rm (Model k1)"
  by (cases k1, cases k2) (auto simp: normalizeKey_def)

lemma GetInitialModel_Map_Set:
  "GetInitialModel (Map_Set rm k1 val) k2 =
     (if normalizeKey rm k2 = normalizeKey rm k1 then Model k1 else GetInitialModel rm k2)"
  by (simp add: GetInitialModel_def initialModel_Map_Set)

lemma GetInitialModel_Map_Delete:
  "GetInitialModel (Map_Delete rm k1) k2 =
     (if normalizeKey rm k2 = normalizeKey rm k1 then [] else GetInitialModel rm k2)"
  by (simp add: GetInitialModel_def initialModel_Map_Delete)

text \<open>
  Claim C9. \<^verbatim>\<open>Set\<close>, \<^verbatim>\<open>Get\<close>, \<^verbatim>\<open>Delete\<close> and \<^verbatim>\<open>GetInitialModel\<close> reach the storage at
  the key whose model is the image of the given model under the normalisation function,
  and nowhere else:

  \<^item> the two Go maps after a \<^verbatim>\<open>Set\<close> and after a \<^verbatim>\<open>Delete\<close>, and the slot that a
    \<^verbatim>\<open>Get\<close> reads, are given with the key written out as
    \<open>k\<lparr>Model := normalizeFn rm (Model k)\<rparr>\<close>; \<^verbatim>\<open>Set\<close> stores the raw model string
    \<open>Model k\<close> in the side map at that key;
  \<^item> a \<^verbatim>\<open>Get\<close> with a key \<open>k'\<close> after a \<^verbatim>\<open>Set\<close> with \<open>k\<close> returns the value set
    exactly when the two keys have the same backend, the same mode, and models with the
    same normal form; with any other key it returns what it returned before. The same
    holds of the side lookup, which then returns the raw model of that last \<^verbatim>\<open>Set\<close>,
    and of \<^verbatim>\<open>Delete\<close>, which removes both entries;
  \<^item> of two \<^verbatim>\<open>Set\<close>s with spellings \<open>Model k\<close> and \<open>s\<close> of the same normal form, the
    side lookup with either spelling returns the raw string of the later one.
\<close>

theorem Map_normalizes_model:
  fixes rm :: "('mode, 't) Map" and k k' :: "'mode Key"
  shows "m (Map_Set rm k v) = (m rm)(k\<lparr>Model := normalizeFn rm (Model k)\<rparr> \<mapsto> v)
       \<and> initialModel (Map_Set rm k v)
           = (initialModel rm)(k\<lparr>Model := normalizeFn rm (Model k)\<rparr> \<mapsto> Model k)
       \<and> m (Map_Delete rm k) = (m rm)(k\<lparr>Model := normalizeFn rm (Model k)\<rparr> := None)
       \<and> initialModel (Map_Delete rm k)
           = (initialModel rm)(k\<lparr>Model := normalizeFn rm (Model k)\<rparr> := None)
       \<and> Map_Get rm k = m rm (k\<lparr>Model := normalizeFn rm (Model k)\<rparr>)
       \<and> GetInitialModel rm k
           = (case initialModel rm (k\<lparr>Model := normalizeFn rm (Model k)\<rparr>) of
                None \<Rightarrow> [] | Some raw \<Rightarrow> raw)
       \<and> normalizeFn (Map_Set rm k v) = normalizeFn rm
       \<and> normalizeFn (Map_Delete rm k) = normalizeFn rm
       \<and> Map_Get (Map_Set rm k v) k' =
           (if Backend k' = Backend k \<and> Mode k' = Mode k
               \<and> normalizeFn rm (Model k') = normalizeFn rm (Model k)
            then Some v else Map_Get rm k')
       \<and> GetInitialModel (Map_Set rm k v) k' =
           (if Backend k' = Backend k \<and> Mode k' = Mode k
               \<and> normalizeFn rm (Model k') = normalizeFn rm (Model k)
            then Model k else GetInitialModel rm k')
       \<and> Map_Get (Map_Delete rm k) k' =
           (if Backend k' = Backend k \<and> Mode k' = Mode k
               \<and> normalizeFn rm (Model k') = normalizeFn rm (Model k)
            then None else Map_Get rm k')
       \<and> GetInitialModel (Map_Delete rm k) k' =
           (if Backend k' = Backend k \<and> Mode k' = Mode k
               \<and> normalizeFn rm (Model k') = normalizeFn rm (Model k)
            then [] else GetInitialModel rm k')
       \<and> (normalizeFn rm s = normalizeFn rm (Model k) \<longrightarrow>
            Map_Get (Map_Set rm k v) (k\<lparr>Model := s\<rparr>) = Some v
          \<and> Map_Get (Map_Set rm (k\<lparr>Model := s\<rparr>) v) k = Some v
          \<and> GetInitialModel (Map_Set rm k v) (k\<lparr>Model := s\<rparr>) = Model k
          \<and> GetInitialModel (Map_Set (Map_Set rm k v) (k\<lparr>Model := s\<rparr>) v') k = s
          \<and> GetInitialModel (Map_Set (Map_Set rm k v) (k\<lparr>Model := s\<rparr>) v') (k\<lparr>Model := s\<rparr>) = s
          \<and> Map_Get (Map_Delete (Map_Set rm k v) (k\<lparr>Model := s\<rparr>)) k = None)"
proof -
  have storage: "m (Map_Set rm k v) = (m rm)(k\<lparr>Model := normalizeFn rm (Model k)\<rparr> \<mapsto> v)"
    "initialModel (Map_Set rm k v)
       = (initialModel rm)(k\<lparr>Model := normalizeFn rm (Model k)\<rparr> \<mapsto> Model k)"
    "m (Map_Delete rm k) = (m rm)(k\<lparr>Model := normalizeFn rm (Model k)\<rparr> := None)"
    "initialModel (Map_Delete rm k)
       = (initialModel rm)(k\<lparr>Model := normalizeFn rm (Model k)\<rparr> := None)"
    "Map_Get rm k = m rm (k\<lparr>Model := normalizeFn rm (Model k)\<rparr>)"
    "GetInitialModel rm k
       = (case initialModel rm (k\<lparr>Model := normalizeFn rm (Model k)\<rparr>) of
            None \<Rightarrow> [] | Some raw \<Rightarrow> raw)"
    by (simp_all add: Map_Set_def Map_Delete_def Map_Get_def GetInitialModel_def
        normalizeKey_def Let_def)
  have lookups: "Map_Get (Map_Set rm k v) k' =
           (if Backend k' = Backend k \<and> Mode k' = Mode k
               \<and> normalizeFn rm (Model k') = normalizeFn rm (Model k)
            then Some v else Map_Get rm k')"
    "GetInitialModel (Map_Set rm k v) k' =
           (if Backend k' = Backend k \<and> Mode k' = Mode k
               \<and> normalizeFn rm (Model k') = normalizeFn rm (Model k)
            then Model k else GetInitialModel rm k')"
    "Map_Get (Map_Delete rm k) k' =
           (if Backend k' = Backend k \<and> Mode k' = Mode k
               \<and> normalizeFn rm (Model k') = normalizeFn rm (Model k)
            then None else Map_Get rm k')"
    "GetInitialModel (Map_Delete rm k) k' =
           (if Backend k' = Backend k \<and> Mode k' = Mode k
               \<and> normalizeFn rm (Model k') = normalizeFn rm (Model k)
            then [] else GetInitialModel rm k')"
    by (simp_all only: Map_Get_Map_Set Map_Get_Map_Delete GetInitialModel_Map_Set
        GetInitialModel_Map_Delete normalizeKey_eq_iff)
  have spellings: "Map_Get (Map_Set rm k v) (k\<lparr>Model := s\<rparr>) = Some v
          \<and> Map_Get (Map_Set rm (k\<lparr>Model := s\<rparr>) v) k = Some v
          \<and> GetInitialModel (Map_Set rm k v) (k\<lparr>Model := s\<rparr>) = Model k
          \<and> GetInitialModel (Map_Set (Map_Set rm k v) (k\<lparr>Model := s\<rparr>) v') k = s
          \<and> GetInitialModel (Map_Set (Map_Set rm k v) (k\<lparr>Model := s\<rparr>) v') (k\<lparr>Model := s\<rparr>) = s
          \<and> Map_Get (Map_Delete (Map_Set rm k v) (k\<lparr>Model := s\<rparr>)) k = None"
    if "normalizeFn rm s = normalizeFn rm (Model k)"
  proof -
    have same: "normalizeKey rm (k\<lparr>Model := s\<rparr>) = normalizeKey rm k"
      using that by (rule normalizeKey_same_bucket)
    show ?thesis
      by (simp add: Map_Get_Map_Set Map_Get_Map_Delete GetInitialModel_Map_Set same)
  qed
  have fn: "normalizeFn (Map_Set rm k v) = normalizeFn rm"
    "normalizeFn (Map_Delete rm k) = normalizeFn rm"
    by simp_all
  from storage fn lookups spellings show ?thesis
    by blast
qed

text \<open>
  With a normalisation that drops hyphens: a value set under \<^verbatim>\<open>ai/smollm2\<close> is found
  under \<^verbatim>\<open>ai/smol-lm2\<close>, whose side lookup returns the raw \<^verbatim>\<open>ai/smollm2\<close>; it is not
  found under another model, and the stored key is the normalised one.
\<close>

theorem Map_normalizes_model_witness:
  "Map_Get (Map_Set (Map_New drop_hyphens :: (nat, nat) Map)
         \<lparr>Backend = ''llama.cpp'', Model = ''ai/smol-lm2'', Mode = 0::nat\<rparr> 7)
         \<lparr>Backend = ''llama.cpp'', Model = ''ai/smollm-2'', Mode = 0::nat\<rparr> = Some 7
   \<and> GetInitialModel (Map_Set (Map_New drop_hyphens :: (nat, nat) Map)
         \<lparr>Backend = ''llama.cpp'', Model = ''ai/smol-lm2'', Mode = 0::nat\<rparr> 7)
         \<lparr>Backend = ''llama.cpp'', Model = ''ai/smollm-2'', Mode = 0::nat\<rparr> = ''ai/smol-lm2''
   \<and> Map_Get (Map_Set (Map_New drop_hyphens :: (nat, nat) Map)
         \<lparr>Backend = ''llama.cpp'', Model = ''ai/smol-lm2'', Mode = 0::nat\<rparr> 7)
         \<lparr>Backend = ''llama.cpp'', Model = ''some/other-model'', Mode = 0::nat\<rparr> = None
   \<and> Map_Get (Map_Set (Map_New drop_hyphens :: (nat, nat) Map)
         \<lparr>Backend = ''llama.cpp'', Model = ''ai/smol-lm2'', Mode = 0::nat\<rparr> 7)
         \<lparr>Backend = ''llama.cpp'', Model = ''ai/smol-lm2'', Mode = 1::nat\<rparr> = None
   \<and> m (Map_Set (Map_New drop_hyphens :: (nat, nat) Map)
         \<lparr>Backend = ''llama.cpp'', Model = ''ai/smol-lm2'', Mode = 0::nat\<rparr> 7)
       = [\<lparr>Backend = ''llama.cpp'', Model = ''ai/smollm2'', Mode = 0::nat\<rparr> \<mapsto> 7]"
proof -
  have empty: "Map_Get (Map_New drop_hyphens :: (nat, nat) Map) k' = None" for k'
    by (simp add: Map_New_def Map_Get_def)
  have fn: "normalizeFn (Map_New drop_hyphens :: (nat, nat) Map) = drop_hyphens"
    by (simp add: Map_New_def)
  have store: "m (Map_New drop_hyphens :: (nat, nat) Map) = Map.empty"
    by (simp add: Map_New_def)
  have nf: "drop_hyphens ''ai/smol-lm2'' = ''ai/smollm2''"
    "drop_hyphens ''ai/smollm-2'' = ''ai/smollm2''"
    "drop_hyphens ''some/other-model'' = ''some/othermodel''"
    by (simp_all add: drop_hyphens_def)
  have a: "Map_Get (Map_Set (Map_New drop_hyphens :: (nat, nat) Map)
         \<lparr>Backend = ''llama.cpp'', Model = ''ai/smol-lm2'', Mode = 0::nat\<rparr> 7)
         \<lparr>Backend = ''llama.cpp'', Model = ''ai/smollm-2'', Mode = 0::nat\<rparr> = Some 7
     \<and> GetInitialModel (Map_Set (Map_New drop_hyphens :: (nat, nat) Map)
         \<lparr>Backend = ''llama.cpp'', Model = ''ai/smol-lm2'', Mode = 0::nat\<rparr> 7)
         \<lparr>Backend = ''llama.cpp'', Model = ''ai/smollm-2'', Mode = 0::nat\<rparr> = ''ai/smol-lm2''
     \<and> m (Map_Set (Map_New drop_hyphens :: (nat, nat) Map)
         \<lparr>Backend = ''llama.cpp'', Model = ''ai/smol-lm2'', Mode = 0::nat\<rparr> 7)
       = [\<lparr>Backend = ''llama.cpp'', Model = ''ai/smollm2'', Mode = 0::nat\<rparr> \<mapsto> 7]"
    using Map_normalizes_model
      [where rm = "Map_New drop_hyphens :: (nat, nat) Map"
        and k = "\<lparr>Backend = ''llama.cpp'', Model = ''ai/smol-lm2'', Mode = 0::nat\<rparr>"
        and v = 7 and v' = 7 and s = "''ai/smollm-2''"
        and k' = "\<lparr>Backend = ''llama.cpp'', Model = ''ai/smollm-2'', Mode = 0::nat\<rparr>"]
    by (simp add: fn store nf)
  have b: "Map_Get (Map_Set (Map_New drop_hyphens :: (nat, nat) Map)
         \<lparr>Backend = ''llama.cpp'', Model = ''ai/smol-lm2'', Mode = 0::nat\<rparr> 7)
         \<lparr>Backend = ''llama.cpp'', Model = ''some/other-model'', Mode = 0::nat\<rparr> = None"
    using Map_normalizes_model
      [where rm = "Map_New drop_hyphens :: (nat, nat) Map"
        and k = "\<lparr>Backend = ''llama.cpp'', Model = ''ai/smol-lm2'', Mode = 0::nat\<rparr>"
        and v = 7 and v' = 7 and s = "''ai/smollm-2''"
        and k' = "\<lparr>Backend = ''llama.cpp'', Model = ''some/other-model'', Mode = 0::nat\<rparr>"]
    by (simp add: fn empty nf)
  have c: "Map_Get (Map_Set (Map_New drop_hyphens :: (nat, nat) Map)
         \<lparr>Backend = ''llama.cpp'', Model = ''ai/smol-lm2'', Mode = 0::nat\<rparr> 7)
         \<lparr>Backend = ''llama.cpp'', Model = ''ai/smol-lm2'', Mode = 1::nat\<rparr> = None"
    using Map_normalizes_model
      [where rm = "Map_New drop_hyphens :: (nat, nat) Map"
        and k = "\<lparr>Backend = ''llama.cpp'', Model = ''ai/smol-lm2'', Mode = 0::nat\<rparr>"
        and v = 7 and v' = 7 and s = "''ai/smollm-2''"
        and k' = "\<lparr>Backend = ''llama.cpp'', Model = ''ai/smol-lm2'', Mode = 1::nat\<rparr>"]
    by (simp add: fn empty nf)
  from a b c show ?thesis by simp
qed

section \<open>Properties of the string functions\<close>

lemma digits_of_small [simp]: "n < 10 \<Longrightarrow> digits_of n = [digit_char n]"
  by (simp add: digits_of.simps)

lemma digits_of_large [simp]:
  "10 \<le> n \<Longrightarrow> digits_of n = digits_of (n div 10) @ [digit_char (n mod 10)]"
  by (subst digits_of.simps) simp

lemma Contains_iff: "Contains s substr \<longleftrightarrow> (\<exists>pre post. s = pre @ substr @ post)"
proof (induction s)
  case Nil
  show ?case by auto
next
  case (Cons c cs)
  have "HasPrefix (c # cs) substr \<longleftrightarrow> (\<exists>post. c # cs = substr @ post)"
    unfolding HasPrefix_def
    by (metis append_eq_conv_conj append_take_drop_id)
  moreover have "(\<exists>pre post. c # cs = pre @ substr @ post) \<longleftrightarrow>
      (\<exists>post. c # cs = substr @ post) \<or> (\<exists>pre post. cs = pre @ substr @ post)"
  proof
    assume "\<exists>pre post. c # cs = pre @ substr @ post"
    then obtain pre post where eq: "c # cs = pre @ substr @ post" by blast
    show "(\<exists>post. c # cs = substr @ post) \<or> (\<exists>pre post. cs = pre @ substr @ post)"
    proof (cases pre)
      case Nil
      with eq show ?thesis by auto
    next
      case (Cons p ps)
      with eq have "cs = ps @ substr @ post" by simp
      then show ?thesis by blast
    qed
  next
    assume "(\<exists>post. c # cs = substr @ post) \<or> (\<exists>pre post. cs = pre @ substr @ post)"
    then show "\<exists>pre post. c # cs = pre @ substr @ post"
    proof
      assume "\<exists>post. c # cs = substr @ post"
      then obtain post where "c # cs = [] @ substr @ post" by auto
      then show ?thesis by blast
    next
      assume "\<exists>pre post. cs = pre @ substr @ post"
      then obtain pre post where "c # cs = (c # pre) @ substr @ post" by auto
      then show ?thesis by blast
    qed
  qed
  ultimately show ?case using Cons.IH by simp
qed

section \<open>Properties of stream reconstruction\<close>

lemma parsed_chunks_Nil [simp]: "parsed_chunks U [] = []"
  by (simp add: parsed_chunks_def examined_def payloads_def map_filter_simps)

lemma parsed_chunks_Cons:
  "parsed_chunks U (line # lines) =
     (if HasPrefix line ''data: '' then
        (if TrimPrefix line ''data: '' = ''[DONE]'' then []
         else case U (TrimPrefix line ''data: '') of
                Inl err \<Rightarrow> parsed_chunks U lines
              | Inr chunk \<Rightarrow> chunk # parsed_chunks U lines)
      else parsed_chunks U lines)"
  by (simp add: parsed_chunks_def examined_def payloads_def map_filter_simps split: sum.splits)

lemma scanLines_eq:
  "scanLines U lines (c0, l0) =
     (c0 @ concat (map delta_content (parsed_chunks U lines)), last (l0 # parsed_chunks U lines))"
proof (induction lines arbitrary: c0 l0)
  case Nil
  show ?case by simp
next
  case (Cons line lines)
  show ?case
    by (simp add: parsed_chunks_Cons Cons.IH Let_def split: sum.splits)
qed

lemma map_of_obj_put: "map_of (obj_put k v kvs) = (map_of kvs)(k \<mapsto> v)"
  by (induction kvs) (auto simp: fun_eq_iff)

lemma obj_get_obj_put: "obj_get (obj_put k v obj) k' = (if k' = k then Some v else obj_get obj k')"
  by (simp add: obj_get_def map_of_obj_put)

lemma obj_get_obj_delete: "obj_get (obj_delete k obj) k' = (if k' = k then None else obj_get obj k')"
  by (induction obj) (auto simp: obj_get_def obj_delete_def)

lemma map_filter_all_None: "\<forall>x \<in> set xs. f x = None \<Longrightarrow> List.map_filter f xs = []"
  by (induction xs) (simp_all add: map_filter_simps)

lemma parsed_chunks_all_fail:
  "\<forall>data \<in> set (examined lines). \<exists>err. U data = Inl err \<Longrightarrow> parsed_chunks U lines = []"
  unfolding parsed_chunks_def by (rule map_filter_all_None) auto

lemma parsed_chunks_skip:
  "HasPrefix line ''data: '' \<Longrightarrow> U (TrimPrefix line ''data: '') = Inl err \<Longrightarrow>
   TrimPrefix line ''data: '' \<noteq> ''[DONE]'' \<Longrightarrow>
     parsed_chunks U (ls1 @ line # ls2) = parsed_chunks U (ls1 @ ls2)"
  by (induction ls1) (simp_all add: parsed_chunks_Cons split: sum.splits)

lemma parsed_chunks_two:
  assumes "payloads lines = d1 # d2 # ''[DONE]'' # rest"
    and "d1 \<noteq> ''[DONE]''" and "d2 \<noteq> ''[DONE]''"
    and "U d1 = Inr c1" and "U d2 = Inr c2"
  shows "parsed_chunks U lines = [c1, c2]"
  using assms by (simp add: parsed_chunks_def examined_def map_filter_simps)

lemma message_object:
  "obj_put ''content'' (JString content) (obj_put ''role'' (JString ''assistant'') [])
     = [(''content'', JString content), (''role'', JString ''assistant'')]"
  by simp

lemma obj_get_materialize:
  "obj_get (materialize choice content) k =
     (if k = ''message'' then
        Some (JObject [(''content'', JString content), (''role'', JString ''assistant'')])
      else if k = ''delta'' then None
      else if k = ''finish_reason'' then
        (case obj_get choice ''finish_reason'' of None \<Rightarrow> Some (JString ''stop'') | Some v \<Rightarrow> Some v)
      else obj_get choice k)"
  by (auto simp: materialize_def Let_def obj_get_obj_put obj_get_obj_delete message_object
      split: option.splits)

lemma obj_get_finalize:
  "obj_get (finalize base content) k =
     (if k = ''object'' then Some (JString ''chat.completion'')
      else if k = ''choices'' then
        (case first_choice (obj_get base ''choices'') of
           None \<Rightarrow> obj_get base ''choices''
         | Some (choice, others) \<Rightarrow>
             Some (JArray (JObject (materialize choice content) # others)))
      else obj_get base k)"
  by (auto simp: finalize_def Let_def obj_get_obj_put split: option.splits)

lemma convert_with_parsed:
  assumes "parsed_chunks unmarshal (SplitLines body) = chunks"
    and "chunks \<noteq> []" and "last chunks = Some base"
    and "marshal (JObject (finalize base (concat (map delta_content chunks)))) = Inr text"
  shows "convertStreamingResponse_with unmarshal marshal body = text"
  using assms by (simp add: convertStreamingResponse_with_def scanLines_eq)


text \<open>
  Claim C5. Stream reconstruction is fail-open, whatever the JSON library does:

  \<^item> if no data line before the sentinel decodes, the body is returned unchanged;
  \<^item> a data line that does not decode is skipped: the loop goes on and ends in the state
    it would have reached without that line;
  \<^item> if the loop ends with a last chunk and the encoding of the object rebuilt from it
    fails, the body is returned unchanged, whatever the encoder answers on other values;
  \<^item> the function returns a string, never an error (it is total, and its type has no
    error): either the body, or the encoder's text for the rebuilt object.
\<close>

theorem convertStreamingResponse_fail_open:
  fixes unmarshal :: "string \<Rightarrow> 'e + jobject option" and marshal :: "json \<Rightarrow> 'e + string"
  shows "((\<forall>data \<in> set (examined (SplitLines body)). \<exists>err. unmarshal data = Inl err)
           \<longrightarrow> convertStreamingResponse_with unmarshal marshal body = body)
       \<and> (unmarshal data = Inl err \<and> data \<noteq> ''[DONE]''
           \<longrightarrow> scanLines unmarshal (ls1 @ (''data: '' @ data) # ls2) acc
               = scanLines unmarshal (ls1 @ ls2) acc)
       \<and> (scanLines unmarshal (SplitLines body) ([], None) = (content, Some chunk)
            \<and> marshal (JObject (finalize chunk content)) = Inl err'
           \<longrightarrow> convertStreamingResponse_with unmarshal marshal body = body)
       \<and> (convertStreamingResponse_with unmarshal marshal body = body
          \<or> (\<exists>content' chunk'.
                scanLines unmarshal (SplitLines body) ([], None) = (content', Some chunk')
              \<and> marshal (JObject (finalize chunk' content'))
                  = Inr (convertStreamingResponse_with unmarshal marshal body)))"
proof (intro conjI impI)
  assume "\<forall>data \<in> set (examined (SplitLines body)). \<exists>err. unmarshal data = Inl err"
  then have "parsed_chunks unmarshal (SplitLines body) = []"
    by (rule parsed_chunks_all_fail)
  then show "convertStreamingResponse_with unmarshal marshal body = body"
    by (simp add: convertStreamingResponse_with_def scanLines_eq)
next
  assume "unmarshal data = Inl err \<and> data \<noteq> ''[DONE]''"
  then have "parsed_chunks unmarshal (ls1 @ (''data: '' @ data) # ls2)
      = parsed_chunks unmarshal (ls1 @ ls2)"
    by (intro parsed_chunks_skip [where err = err]) (simp_all add: HasPrefix_def TrimPrefix_def)
  then show "scanLines unmarshal (ls1 @ (''data: '' @ data) # ls2) acc
      = scanLines unmarshal (ls1 @ ls2) acc"
    by (cases acc) (simp add: scanLines_eq)
next
  assume "scanLines unmarshal (SplitLines body) ([], None) = (content, Some chunk)
      \<and> marshal (JObject (finalize chunk content)) = Inl err'"
  then show "convertStreamingResponse_with unmarshal marshal body = body"
    by (simp add: convertStreamingResponse_with_def)
next
  obtain content' lastChunk
    where scan: "scanLines unmarshal (SplitLines body) ([], None) = (content', lastChunk)"
    by (cases "scanLines unmarshal (SplitLines body) ([], None)")
  show "convertStreamingResponse_with unmarshal marshal body = body
      \<or> (\<exists>content' chunk'.
            scanLines unmarshal (SplitLines body) ([], None) = (content', Some chunk')
          \<and> marshal (JObject (finalize chunk' content'))
              = Inr (convertStreamingResponse_with unmarshal marshal body))"
  proof (cases lastChunk)
    case None
    with scan show ?thesis by (simp add: convertStreamingResponse_with_def)
  next
    case (Some chunk')
    show ?thesis
    proof (cases "marshal (JObject (finalize chunk' content'))")
      case (Inl e)
      with scan Some show ?thesis by (simp add: convertStreamingResponse_with_def)
    next
      case (Inr jsonResult)
      with scan Some show ?thesis by (simp add: convertStreamingResponse_with_def)
    qed
  qed
qed

text \<open>
  On the model of encoding/json: a body whose only data line is not JSON comes back as it
  is; a line that is not JSON between two that are does not change the state in which the
  loop ends; and with an encoder that fails on the rebuilt object alone, the body
  \<^verbatim>\<open>data: {}\<close> comes back as it is, where \<open>json_Marshal\<close> gives the rebuilt object.
\<close>

theorem convertStreamingResponse_fail_open_witness:
  "examined (SplitLines (''data: {oops'' @ [newline] @ ''data: [DONE]'')) = [''{oops'']
   \<and> json_Unmarshal ''{oops'' = Inl SyntaxError
   \<and> convertStreamingResponse_with json_Unmarshal json_Marshal
         (''data: {oops'' @ [newline] @ ''data: [DONE]'')
       = ''data: {oops'' @ [newline] @ ''data: [DONE]''
   \<and> scanLines json_Unmarshal ([''data: {}''] @ (''data: '' @ ''{oops'') # [''data: []''])
         ([], None)
       = scanLines json_Unmarshal ([''data: {}''] @ [''data: []'']) ([], None)
   \<and> scanLines json_Unmarshal (SplitLines ''data: {}'') ([], None) = ([], Some [])
   \<and> marshal_failing_on (JObject (finalize [] [])) (JObject (finalize [] []))
       = Inl UnmarshalTypeError
   \<and> marshal_failing_on (JObject (finalize [] [])) (JObject []) = Inr ''{}''
   \<and> convertStreamingResponse_with json_Unmarshal
         (marshal_failing_on (JObject (finalize [] []))) ''data: {}''
       = ''data: {}''
   \<and> convertStreamingResponse_with json_Unmarshal json_Marshal ''data: {}''
       = ''{\"object\":\"chat.completion\"}''"
proof -
  have ex: "examined (SplitLines (''data: {oops'' @ [newline] @ ''data: [DONE]'')) = [''{oops'']"
    by code_simp
  have un: "json_Unmarshal ''{oops'' = Inl SyntaxError"
    by code_simp
  have all: "\<forall>data \<in> set (examined (SplitLines (''data: {oops'' @ [newline] @ ''data: [DONE]''))).
      \<exists>err. json_Unmarshal data = Inl err"
    by (simp only: ex) (simp add: un)
  have first: "convertStreamingResponse_with json_Unmarshal json_Marshal
      (''data: {oops'' @ [newline] @ ''data: [DONE]'')
      = ''data: {oops'' @ [newline] @ ''data: [DONE]''"
    using convertStreamingResponse_fail_open
      [where body = "''data: {oops'' @ [newline] @ ''data: [DONE]''"
        and unmarshal = json_Unmarshal and marshal = json_Marshal]
      all by blast
  have ne: "''{oops'' \<noteq> ''[DONE]''" by simp
  have second: "scanLines json_Unmarshal
      ([''data: {}''] @ (''data: '' @ ''{oops'') # [''data: []'']) ([], None)
      = scanLines json_Unmarshal ([''data: {}''] @ [''data: []'']) ([], None)"
    using convertStreamingResponse_fail_open
      [where unmarshal = json_Unmarshal and marshal = json_Marshal and data = "''{oops''"
        and err = SyntaxError and ?ls1.0 = "[''data: {}'']" and ?ls2.0 = "[''data: []'']"
        and acc = "([], None)"]
      un ne by blast
  have scan: "scanLines json_Unmarshal (SplitLines ''data: {}'') ([], None) = ([], Some [])"
    by code_simp
  have fails: "marshal_failing_on (JObject (finalize [] [])) (JObject (finalize [] []))
      = Inl UnmarshalTypeError"
    by (simp add: marshal_failing_on_def)
  have other: "marshal_failing_on (JObject (finalize [] [])) (JObject []) = Inr ''{}''"
    by code_simp
  have third: "convertStreamingResponse_with json_Unmarshal
      (marshal_failing_on (JObject (finalize [] []))) ''data: {}'' = ''data: {}''"
    using convertStreamingResponse_fail_open
      [where body = "''data: {}''" and unmarshal = json_Unmarshal
        and marshal = "marshal_failing_on (JObject (finalize [] []))"
        and content = "[]" and chunk = "[]" and err' = UnmarshalTypeError]
      scan fails by blast
  have fourth: "convertStreamingResponse_with json_Unmarshal json_Marshal ''data: {}''
      = ''{\"object\":\"chat.completion\"}''"
    by code_simp
  from ex un first second scan fails other third fourth show ?thesis by blast
qed

text \<open>
  Claim C3, as stated, fails when ``no explicit finish reason'' is a \<^verbatim>\<open>finish_reason\<close>
  whose value is \<^verbatim>\<open>null\<close>. The data lines of \<open>null_stream\<close> are two chunks with the
  fragments \<^verbatim>\<open>Hello\<close> and \<^verbatim>\<open> world\<close> and \<^verbatim>\<open>"finish_reason":null\<close>, then the sentinel.
  Reconstruction returns \<open>null_text\<close>, which decodes to an object whose first choice has
  the message and no \<^verbatim>\<open>delta\<close>, but the finish reason \<^verbatim>\<open>null\<close>, not \<^verbatim>\<open>stop\<close>: line 211
  of the source tests whether the key is present, and it is.
\<close>

theorem finish_reason_null_is_kept:
  "payloads (SplitLines null_stream) = [null_chunk1, null_chunk2, ''[DONE]'']
   \<and> json_Unmarshal null_chunk1 = Inr (Some null_object1)
   \<and> json_Unmarshal null_chunk2 = Inr (Some null_object2)
   \<and> delta_content (Some null_object1) = ''Hello''
   \<and> delta_content (Some null_object2) = '' world''
   \<and> convertStreamingResponse null_stream = Some null_text
   \<and> json_Unmarshal null_text = Inr (Some null_final)
   \<and> first_choice (obj_get null_final ''choices'') = Some (null_choice, [])
   \<and> obj_get null_choice ''message''
       = Some (JObject [(''content'', JString ''Hello world''), (''role'', JString ''assistant'')])
   \<and> obj_get null_choice ''delta'' = None
   \<and> obj_get null_choice ''finish_reason'' = Some JNull
   \<and> obj_get null_choice ''finish_reason'' \<noteq> Some (JString ''stop'')
   \<and> obj_get null_final ''object'' = Some (JString ''chat.completion'')"
  by code_simp

text \<open>
  Claim C3, amended. Let the data lines of a body be two chunks and then the sentinel, the
  chunks carrying the fragments \<^verbatim>\<open>Hello\<close> and \<^verbatim>\<open> world\<close>. If the library encodes the
  rebuilt object and decodes that text back to it, then the text returned decodes to an
  object whose first choice has the message
  \<^verbatim>\<open>{role: "assistant", content: "Hello world"}\<close> and no \<^verbatim>\<open>delta\<close>, and whose field
  \<^verbatim>\<open>object\<close> is \<^verbatim>\<open>chat.completion\<close>. Its finish reason is \<^verbatim>\<open>stop\<close> when the first choice
  of the second chunk has no key \<^verbatim>\<open>finish_reason\<close>; when it has the key, the value found
  there is kept, \<^verbatim>\<open>null\<close> included.
\<close>

theorem stream_round_trip:
  fixes unmarshal :: "string \<Rightarrow> 'e + jobject option" and marshal :: "json \<Rightarrow> 'e + string"
  assumes lines: "payloads (SplitLines body) = d1 # d2 # ''[DONE]'' # rest"
    and d1: "d1 \<noteq> ''[DONE]''" "unmarshal d1 = Inr (Some c1)"
    and d2: "d2 \<noteq> ''[DONE]''" "unmarshal d2 = Inr (Some c2)"
    and hello: "delta_content (Some c1) = ''Hello''"
    and world: "delta_content (Some c2) = '' world''"
    and choice: "first_choice (obj_get c2 ''choices'') = Some (choice, others)"
    and enc: "marshal (JObject (finalize c2 ''Hello world'')) = Inr text"
    and dec: "unmarshal text = Inr (Some (finalize c2 ''Hello world''))"
  shows "\<exists>final choice'.
           unmarshal (convertStreamingResponse_with unmarshal marshal body) = Inr (Some final)
         \<and> first_choice (obj_get final ''choices'') = Some (choice', others)
         \<and> obj_get choice' ''message''
             = Some (JObject [(''content'', JString ''Hello world''),
                              (''role'', JString ''assistant'')])
         \<and> obj_get choice' ''delta'' = None
         \<and> obj_get choice' ''finish_reason''
             = (case obj_get choice ''finish_reason'' of
                  None \<Rightarrow> Some (JString ''stop'')
                | Some reason \<Rightarrow> Some reason)
         \<and> obj_get final ''object'' = Some (JString ''chat.completion'')"
proof -
  have chunks: "parsed_chunks unmarshal (SplitLines body) = [Some c1, Some c2]"
    by (rule parsed_chunks_two [OF lines d1(1) d2(1) d1(2) d2(2)])
  have out: "convertStreamingResponse_with unmarshal marshal body = text"
  proof (rule convert_with_parsed [OF chunks])
    show "[Some c1, Some c2] \<noteq> []" by simp
    show "last [Some c1, Some c2] = Some c2" by simp
    show "marshal (JObject (finalize c2 (concat (map delta_content [Some c1, Some c2]))))
        = Inr text"
      by (simp add: hello world enc)
  qed
  let ?final = "finalize c2 ''Hello world''"
  let ?choice = "materialize choice ''Hello world''"
  have "unmarshal (convertStreamingResponse_with unmarshal marshal body) = Inr (Some ?final)"
    by (simp add: out dec)
  moreover have "first_choice (obj_get ?final ''choices'') = Some (?choice, others)"
    by (simp add: obj_get_finalize choice)
  moreover have "obj_get ?choice ''message''
      = Some (JObject [(''content'', JString ''Hello world''), (''role'', JString ''assistant'')])"
    by (simp add: obj_get_materialize)
  moreover have "obj_get ?choice ''delta'' = None"
    by (simp add: obj_get_materialize)
  moreover have "obj_get ?choice ''finish_reason''
      = (case obj_get choice ''finish_reason'' of
           None \<Rightarrow> Some (JString ''stop'')
         | Some reason \<Rightarrow> Some reason)"
    by (simp add: obj_get_materialize)
  moreover have "obj_get ?final ''object'' = Some (JString ''chat.completion'')"
    by (simp add: obj_get_finalize)
  ultimately show ?thesis by blast
qed

text \<open>
  On the model of encoding/json, for \<open>hello_stream\<close>, whose chunks have no key
  \<^verbatim>\<open>finish_reason\<close>: the text returned is \<open>hello_text\<close>, with the finish reason
  \<^verbatim>\<open>stop\<close>.
\<close>

theorem stream_round_trip_witness:
  "payloads (SplitLines hello_stream) = [hello_chunk1, hello_chunk2, ''[DONE]'']
   \<and> json_Unmarshal hello_chunk1 = Inr (Some hello_object1)
   \<and> json_Unmarshal hello_chunk2 = Inr (Some hello_object2)
   \<and> convertStreamingResponse hello_stream = Some hello_text
   \<and> (\<exists>final choice'.
          json_Unmarshal hello_text = Inr (Some final)
        \<and> first_choice (obj_get final ''choices'') = Some (choice', [])
        \<and> obj_get choice' ''message''
            = Some (JObject [(''content'', JString ''Hello world''),
                             (''role'', JString ''assistant'')])
        \<and> obj_get choice' ''delta'' = None
        \<and> obj_get choice' ''finish_reason'' = Some (JString ''stop'')
        \<and> obj_get final ''object'' = Some (JString ''chat.completion''))"
proof -
  have lines: "payloads (SplitLines hello_stream) = hello_chunk1 # hello_chunk2 # ''[DONE]'' # []"
    by code_simp
  have d1: "hello_chunk1 \<noteq> ''[DONE]''" "json_Unmarshal hello_chunk1 = Inr (Some hello_object1)"
    by code_simp+
  have d2: "hello_chunk2 \<noteq> ''[DONE]''" "json_Unmarshal hello_chunk2 = Inr (Some hello_object2)"
    by code_simp+
  have hello: "delta_content (Some hello_object1) = ''Hello''"
    by code_simp
  have world: "delta_content (Some hello_object2) = '' world''"
    by code_simp
  have choice: "first_choice (obj_get hello_object2 ''choices'')
      = Some ([(''delta'', JObject [(''content'', JString '' world'')]), (''index'', JNumber 0)], [])"
    by code_simp
  have no_reason: "obj_get [(''delta'', JObject [(''content'', JString '' world'')]),
      (''index'', JNumber 0)] ''finish_reason'' = None"
    by code_simp
  have enc: "json_Marshal (JObject (finalize hello_object2 ''Hello world'')) = Inr hello_text"
    by code_simp
  have dec: "json_Unmarshal hello_text = Inr (Some (finalize hello_object2 ''Hello world''))"
    by code_simp
  have out: "convertStreamingResponse_with json_Unmarshal json_Marshal hello_stream = hello_text"
    by code_simp
  have inside: "convertStreamingResponse hello_stream = Some hello_text"
    by code_simp
  note inst = stream_round_trip [where unmarshal = json_Unmarshal and marshal = json_Marshal,
      OF lines d1 d2 hello world choice enc dec]
  from inst lines d1(2) d2(2) inside show ?thesis
    by (simp add: out no_reason)
qed

text \<open>
  Claim C7, as stated, fails. The last chunk of \<open>usage_stream\<close> holds the bytes
  \<open>usage_field\<close>; reconstruction succeeds and returns \<open>usage_text\<close>, in which these
  bytes do not occur: \<^verbatim>\<open>json.Marshal\<close> writes the keys of the decoded \<^verbatim>\<open>usage\<close> map in
  sorted order.
\<close>

theorem reconstruction_not_byte_faithful:
  "Contains usage_stream usage_field
   \<and> parsed_chunks json_Unmarshal (SplitLines usage_stream) = [Some usage_object]
   \<and> convertStreamingResponse usage_stream = Some usage_text
   \<and> \<not> Contains usage_text usage_field"
  by code_simp

text \<open>
  Claim C7, amended. When reconstruction succeeds, the object that is encoded has every
  top-level field of the last decoded chunk other than \<^verbatim>\<open>object\<close> and \<^verbatim>\<open>choices\<close> with
  the same decoded value; \<^verbatim>\<open>object\<close> is \<^verbatim>\<open>chat.completion\<close>; and \<^verbatim>\<open>choices\<close> is
  unchanged but for its first element, when that is an object. The text returned is the
  encoding of this object by \<^verbatim>\<open>json.Marshal\<close>.
\<close>

theorem reconstruction_preserves_decoded_fields:
  fixes unmarshal :: "string \<Rightarrow> 'e + jobject option" and marshal :: "json \<Rightarrow> 'e + string"
  assumes chunks: "parsed_chunks unmarshal (SplitLines body) = chunks"
    and some: "chunks \<noteq> []"
    and base: "last chunks = Some base"
    and enc: "marshal (JObject (finalize base (concat (map delta_content chunks)))) = Inr text"
  shows "convertStreamingResponse_with unmarshal marshal body = text
       \<and> (\<forall>k. k \<noteq> ''object'' \<and> k \<noteq> ''choices'' \<longrightarrow>
              obj_get (finalize base (concat (map delta_content chunks))) k = obj_get base k)
       \<and> obj_get (finalize base (concat (map delta_content chunks))) ''object''
           = Some (JString ''chat.completion'')
       \<and> obj_get (finalize base (concat (map delta_content chunks))) ''choices''
           = (case first_choice (obj_get base ''choices'') of
                None \<Rightarrow> obj_get base ''choices''
              | Some (choice, others) \<Rightarrow>
                  Some (JArray (JObject (materialize choice (concat (map delta_content chunks)))
                                # others)))"
proof -
  have "convertStreamingResponse_with unmarshal marshal body = text"
    using chunks some base enc by (rule convert_with_parsed)
  then show ?thesis
    by (simp add: obj_get_finalize)
qed

theorem reconstruction_preserves_decoded_fields_witness:
  "parsed_chunks json_Unmarshal (SplitLines usage_stream) = [Some usage_object]
   \<and> json_Marshal (JObject (finalize usage_object ''Hi'')) = Inr usage_text
   \<and> convertStreamingResponse_with json_Unmarshal json_Marshal usage_stream = usage_text
   \<and> obj_get (finalize usage_object ''Hi'') ''usage'' = obj_get usage_object ''usage''
   \<and> obj_get (finalize usage_object ''Hi'') ''id'' = Some (JString ''c1'')"
proof -
  have chunks: "parsed_chunks json_Unmarshal (SplitLines usage_stream) = [Some usage_object]"
    by code_simp
  have some: "[Some usage_object] \<noteq> []"
    by simp
  have base: "last [Some usage_object] = Some usage_object"
    by simp
  have content: "delta_content (Some usage_object) = ''Hi''"
    by code_simp
  have enc: "json_Marshal (JObject (finalize usage_object
      (concat (map delta_content [Some usage_object])))) = Inr usage_text"
    by code_simp
  have id: "obj_get usage_object ''id'' = Some (JString ''c1'')"
    by code_simp
  note inst = reconstruction_preserves_decoded_fields
      [where unmarshal = json_Unmarshal and marshal = json_Marshal, OF chunks some base enc]
  from inst chunks enc id show ?thesis
    by (simp add: content)
qed

section \<open>Properties of the recorder\<close>

subsection \<open>Slices and the heap\<close>

lemma slice_elems_ok:
  "slice_ok arrs s \<Longrightarrow>
     slice_elems arrs s = Some (take (sl_len s) (drop (sl_off s) (arrs ! sl_array s)))"
  by (simp add: slice_ok_def slice_elems_def load_def)

lemma length_slice_elems: "slice_elems arrs s = Some elems \<Longrightarrow> length elems = sl_len s"
  by (auto simp: slice_elems_def load_def split: option.splits if_splits)

lemma append_slice_ok:
  assumes ok: "slice_ok arrs s"
  shows "\<exists>s' arrs'. append_slice grow arrs s x = Some (s', arrs')
           \<and> slice_ok arrs' s' \<and> sl_len s' = sl_len s + 1
           \<and> slice_elems arrs' s' = Some (the (slice_elems arrs s) @ [x])"
proof (cases "sl_len s < sl_cap s")
  case True
  let ?arr = "arrs ! sl_array s"
  let ?s' = "s\<lparr>sl_len := sl_len s + 1\<rparr>"
  let ?arrs' = "arrs[sl_array s := ?arr[sl_off s + sl_len s := x]]"
  from ok True have room: "sl_off s + sl_len s < length ?arr"
    by (simp add: slice_ok_def)
  from ok have a: "sl_array s < length arrs" by (simp add: slice_ok_def)
  have app: "append_slice grow arrs s x = Some (?s', ?arrs')"
    using ok True room by (simp add: append_slice_def slice_elems_ok)
  have ok': "slice_ok ?arrs' ?s'"
    using ok True by (simp add: slice_ok_def)
  have "take (sl_len s + 1) (drop (sl_off s) (?arr[sl_off s + sl_len s := x]))
      = take (sl_len s) (drop (sl_off s) ?arr) @ [x]"
    using room by (simp add: take_Suc_conv_app_nth drop_update_swap)
  then have "slice_elems ?arrs' ?s' = Some (the (slice_elems arrs s) @ [x])"
    using ok ok' a by (simp add: slice_elems_ok)
  with app ok' show ?thesis by simp
next
  case False
  let ?c = "max (sl_len s + 1) (grow (sl_cap s) (sl_len s + 1))"
  let ?elems = "take (sl_len s) (drop (sl_off s) (arrs ! sl_array s))"
  let ?s' = "\<lparr>sl_array = length arrs, sl_off = 0, sl_len = sl_len s + 1, sl_cap = ?c\<rparr>"
  let ?arrs' = "arrs @ [?elems @ [x] @ replicate (?c - (sl_len s + 1)) None]"
  from ok have len: "length ?elems = sl_len s"
    by (auto simp: slice_ok_def)
  have app: "append_slice grow arrs s x = Some (?s', ?arrs')"
    using ok False by (simp add: append_slice_def slice_elems_ok Let_def)
  have ok': "slice_ok ?arrs' ?s'"
    using len by (simp add: slice_ok_def)
  have "slice_elems ?arrs' ?s'
      = Some (take (sl_len ?s') (drop (sl_off ?s') (?arrs' ! sl_array ?s')))"
    by (rule slice_elems_ok [OF ok'])
  moreover have "take (sl_len ?s') (drop (sl_off ?s') (?arrs' ! sl_array ?s')) = ?elems @ [x]"
    using len by simp
  ultimately have "slice_elems ?arrs' ?s' = Some (?elems @ [x])"
    by simp
  with app ok' ok show ?thesis by (simp add: slice_elems_ok)
qed

lemma reslice_ok:
  assumes ok: "slice_ok arrs s" and pos: "0 < sl_len s"
  shows "slice_ok arrs (reslice_from_1 s)
       \<and> slice_elems arrs (reslice_from_1 s) = Some (tl (the (slice_elems arrs s)))"
proof -
  have ok': "slice_ok arrs (reslice_from_1 s)"
    using ok pos by (auto simp: slice_ok_def reslice_from_1_def)
  have "take (sl_len s - 1) (drop (sl_off s + 1) (arrs ! sl_array s))
      = tl (take (sl_len s) (drop (sl_off s) (arrs ! sl_array s)))"
    by (simp add: tl_take drop_Suc tl_drop)
  then show ?thesis
    using ok ok' by (simp add: slice_elems_ok) (simp add: reslice_from_1_def)
qed


lemma load_all_append:
  "load_all h (xs @ ys) =
     (case load_all h xs of
        None \<Rightarrow> None
      | Some vs \<Rightarrow> (case load_all h ys of None \<Rightarrow> None | Some ws \<Rightarrow> Some (vs @ ws)))"
  by (induction h xs rule: load_all.induct) (auto split: option.splits)

lemma load_all_grow: "load_all h xs = Some vs \<Longrightarrow> load_all (h @ [v]) xs = Some vs"
  by (induction h xs arbitrary: vs rule: load_all.induct)
    (auto simp: load_def nth_append split: option.splits if_splits)

lemma load_all_tl: "load_all h xs = Some vs \<Longrightarrow> load_all h (tl xs) = Some (tl vs)"
  by (induction h xs rule: load_all.induct) (auto split: option.splits)

lemma load_all_length: "load_all h xs = Some vs \<Longrightarrow> length vs = length xs"
  by (induction h xs arbitrary: vs rule: load_all.induct) (auto split: option.splits)

lemma load_last [simp]: "load (h @ [v]) (length h) = Some v"
  by (simp add: load_def)

lemma entry_holds_iff:
  "entry_holds st runner recs \<longleftrightarrow>
     (\<exists>p d. Map_Get (records st) runner = Some p \<and> load (datas st) p = Some d
        \<and> slice_ok (arrays st) (Records d)
        \<and> load_all (pairs st) (take (sl_len (Records d))
             (drop (sl_off (Records d)) (arrays st ! sl_array (Records d)))) = Some recs)"
  by (auto simp: entry_holds_def entry_ok_def stored_records_def stored_pointers_def
      slice_elems_ok split: option.splits)

subsection \<open>RecordRequest\<close>

lemma RecordRequest_tail:
  fixes st :: "('mode, 'cfg::zero) state"
  assumes ens: "ensureModelData (st\<lparr>pairs := pairs st @ [new_record runner req body now1 now2]\<rparr>)
      runner = st1"
    and prs: "pairs st1 = pairs st @ [new_record runner req body now1 now2]"
    and get: "Map_Get (records st1) runner = Some p"
    and ld: "load (datas st1) p = Some d"
    and ok: "slice_ok (arrays st1) (Records d)"
    and recs: "load_all (pairs st) (take (sl_len (Records d))
        (drop (sl_off (Records d)) (arrays st1 ! sl_array (Records d)))) = Some recs"
  shows "\<exists>st'. RecordRequest st runner req body now1 now2
           = (Return (Model runner @ ''_'' @ Itoa now1), st')
         \<and> entry_holds st' runner (evict (recs @ [new_record runner req body now1 now2]))"
proof -
  let ?new = "new_record runner req body now1 now2"
  let ?x = "Some (length (pairs st))"
  let ?elems = "take (sl_len (Records d)) (drop (sl_off (Records d)) (arrays st1 ! sl_array (Records d)))"
  from append_slice_ok [OF ok, of "growslice st1" ?x]
  obtain s arrs' where app: "append_slice (growslice st1) (arrays st1) (Records d) ?x = Some (s, arrs')"
    and ok1: "slice_ok arrs' s" and len1: "sl_len s = sl_len (Records d) + 1"
    and el1: "slice_elems arrs' s = Some (the (slice_elems (arrays st1) (Records d)) @ [?x])"
    by blast
  have el1': "slice_elems arrs' s = Some (?elems @ [?x])"
    using el1 ok by (simp add: slice_elems_ok)
  let ?s' = "if sl_len s > 10 then reslice_from_1 s else s"
  let ?st' = "st1\<lparr>arrays := arrs', datas := (datas st1)[p := d\<lparr>Records := ?s'\<rparr>]\<rparr>"
  have run: "RecordRequest st runner req body now1 now2
      = (Return (Model runner @ ''_'' @ Itoa now1), ?st')"
    using ens get ld app by (simp add: RecordRequest_def alloc_def Let_def)
  have pos: "0 < sl_len s" using len1 by simp
  have ok': "slice_ok arrs' ?s'"
    using ok1 reslice_ok [OF ok1 pos] by simp
  have lenel: "length ?elems = sl_len (Records d)"
    using ok by (auto simp: slice_ok_def)
  have el': "slice_elems arrs' ?s' = Some (evict (?elems @ [?x]))"
    using el1' reslice_ok [OF ok1 pos] len1 lenel by (simp add: evict_def)
  have all: "load_all (pairs st1) (?elems @ [?x]) = Some (recs @ [?new])"
    using recs by (simp add: prs load_all_append load_all_grow)
  have ev: "load_all (pairs st1) (evict (?elems @ [?x])) = Some (evict (recs @ [?new]))"
    using all load_all_tl [OF all] load_all_length [OF all] by (simp add: evict_def)
  from ld have p: "p < length (datas st1)"
    by (simp add: load_def split: if_splits)
  have "entry_holds ?st' runner (evict (recs @ [?new]))"
    unfolding entry_holds_iff
  proof (intro exI conjI)
    show "Map_Get (records ?st') runner = Some p" using get by simp
    show "load (datas ?st') p = Some (d\<lparr>Records := ?s'\<rparr>)" using p by (simp add: load_def)
    show "slice_ok (arrays ?st') (Records (d\<lparr>Records := ?s'\<rparr>))" using ok' by simp
    have "slice_elems arrs' ?s' = Some (take (sl_len ?s') (drop (sl_off ?s') (arrs' ! sl_array ?s')))"
      by (rule slice_elems_ok [OF ok'])
    with el' have "take (sl_len ?s') (drop (sl_off ?s') (arrs' ! sl_array ?s'))
        = evict (?elems @ [?x])" by simp
    then show "load_all (pairs ?st')
        (take (sl_len (Records (d\<lparr>Records := ?s'\<rparr>)))
          (drop (sl_off (Records (d\<lparr>Records := ?s'\<rparr>)))
            (arrays ?st' ! sl_array (Records (d\<lparr>Records := ?s'\<rparr>)))))
        = Some (evict (recs @ [?new]))"
      using ev by simp
  qed
  with run show ?thesis by blast
qed


lemma RecordRequest_existing:
  fixes st :: "('mode, 'cfg::zero) state"
  assumes "entry_holds st runner recs"
  shows "\<exists>st'. RecordRequest st runner req body now1 now2
           = (Return (Model runner @ ''_'' @ Itoa now1), st')
         \<and> entry_holds st' runner (evict (recs @ [new_record runner req body now1 now2]))"
proof -
  let ?st1 = "st\<lparr>pairs := pairs st @ [new_record runner req body now1 now2]\<rparr>"
  from assms obtain p d where get: "Map_Get (records st) runner = Some p"
    and ld: "load (datas st) p = Some d" and ok: "slice_ok (arrays st) (Records d)"
    and recs: "load_all (pairs st) (take (sl_len (Records d))
        (drop (sl_off (Records d)) (arrays st ! sl_array (Records d)))) = Some recs"
    unfolding entry_holds_iff by blast
  have ens: "ensureModelData ?st1 runner = ?st1"
    using get by (simp add: ensureModelData_def)
  show ?thesis
    by (rule RecordRequest_tail [OF ens, where p = p and d = d]) (simp_all add: get ld ok recs)
qed

lemma RecordRequest_creates:
  fixes st :: "('mode, 'cfg::zero) state"
  assumes none: "Map_Get (records st) runner = None"
  shows "\<exists>st'. RecordRequest st runner req body now1 now2
           = (Return (Model runner @ ''_'' @ Itoa now1), st')
         \<and> entry_holds st' runner (evict ([] @ [new_record runner req body now1 now2]))"
proof -
  let ?new = "new_record runner req body now1 now2"
  let ?s = "\<lparr>sl_array = length (arrays st), sl_off = 0, sl_len = 0, sl_cap = 10\<rparr>"
  let ?d = "\<lparr>Config = 0 :: 'cfg, Records = ?s\<rparr>"
  let ?st1 = "st\<lparr>pairs := pairs st @ [?new],
      records := Map_Set (records st) runner (length (datas st)),
      datas := datas st @ [?d], arrays := arrays st @ [replicate 10 None]\<rparr>"
  have ens: "ensureModelData (st\<lparr>pairs := pairs st @ [?new]\<rparr>) runner = ?st1"
    using none by (simp add: ensureModelData_def make_slice_def alloc_def)
  show ?thesis
    by (rule RecordRequest_tail [OF ens, where p = "length (datas st)" and d = ?d])
      (simp_all add: Map_Get_Map_Set slice_ok_def)
qed

lemma evict_drop:
  assumes "length xs \<le> 10"
  shows "evict (xs @ [x]) = drop (length (xs @ [x]) - 10) (xs @ [x])"
proof (cases "length xs = 10")
  case True
  then obtain a rest where "xs = a # rest" and "length rest = 9"
    by (cases xs) auto
  then show ?thesis by (simp add: evict_def)
next
  case False
  with assms have "length xs < 10" by simp
  then show ?thesis by (simp add: evict_def)
qed

lemma window_drop:
  "length recs \<le> 10 \<Longrightarrow> window recs news = drop (length (recs @ news) - 10) (recs @ news)"
proof (induction news arbitrary: recs)
  case Nil
  then show ?case by (simp add: window_def)
next
  case (Cons r news)
  let ?e = "evict (recs @ [r])"
  have e: "?e = drop (length (recs @ [r]) - 10) (recs @ [r])"
    using Cons.prems by (rule evict_drop)
  then have le: "length ?e \<le> 10" using Cons.prems by simp
  have "window recs (r # news) = window ?e news"
    by (simp add: window_def)
  also have "\<dots> = drop (length (?e @ news) - 10) (?e @ news)"
    using le by (rule Cons.IH)
  also have "\<dots> = drop (length (recs @ r # news) - 10) (recs @ r # news)"
  proof (cases "length recs < 10")
    case True
    then have "?e = recs @ [r]" by (simp add: evict_def)
    then show ?thesis by simp
  next
    case False
    with Cons.prems have ten: "length recs = 10" by simp
    then have "?e = tl recs @ [r]" by (cases recs) (simp_all add: evict_def)
    moreover from ten obtain a rest where "recs = a # rest" by (cases recs) auto
    ultimately show ?thesis using ten by (simp add: Suc_diff_le)
  qed
  finally show ?case .
qed

lemma RecordRequests_window:
  fixes st :: "('mode, 'cfg::zero) state"
  assumes "entry_holds st runner recs"
  shows "\<exists>st'. RecordRequests st runner captures = (Return (returned_ids runner captures), st')
           \<and> entry_holds st' runner (window recs (created runner captures))"
  using assms
proof (induction captures arbitrary: st recs)
  case Nil
  then show ?case by (simp add: window_def created_def returned_ids_def)
next
  case (Cons c captures)
  obtain req body now1 now2 where c: "c = (req, body, now1, now2)"
    by (cases c) auto
  from RecordRequest_existing [OF Cons.prems, of req body now1 now2]
  obtain st1 where one: "RecordRequest st runner req body now1 now2
        = (Return (Model runner @ ''_'' @ Itoa now1), st1)"
    and h1: "entry_holds st1 runner (evict (recs @ [new_record runner req body now1 now2]))"
    by blast
  from Cons.IH [OF h1] obtain st' where
    rest: "RecordRequests st1 runner captures = (Return (returned_ids runner captures), st')"
    and h': "entry_holds st' runner
      (window (evict (recs @ [new_record runner req body now1 now2])) (created runner captures))"
    by blast
  from one rest h' show ?case
    by (simp add: c window_def created_def returned_ids_def)
qed

lemma entry_holds_stored:
  "entry_holds st runner recs \<Longrightarrow> stored_records st runner = Some recs"
  by (simp add: entry_holds_def)

lemma RecordRequests_stored:
  fixes st :: "('mode, 'cfg::zero) state"
  assumes start: "(Map_Get (records st) runner = None \<and> recs = [])
      \<or> (entry_holds st runner recs \<and> length recs \<le> 10)"
    and some: "captures \<noteq> []"
  shows "\<exists>st'. RecordRequests st runner captures = (Return (returned_ids runner captures), st')
         \<and> stored_records st' runner
             = Some (drop (length recs + length captures - 10) (recs @ created runner captures))"
proof -
  have len: "length recs \<le> 10"
    using start by auto
  have "\<exists>st'. RecordRequests st runner captures = (Return (returned_ids runner captures), st')
      \<and> entry_holds st' runner (window recs (created runner captures))"
    using start
  proof
    assume "entry_holds st runner recs \<and> length recs \<le> 10"
    then have "entry_holds st runner recs" by simp
    then show ?thesis by (rule RecordRequests_window)
  next
    assume fresh: "Map_Get (records st) runner = None \<and> recs = []"
    from some obtain req body now1 now2 rest where caps: "captures = (req, body, now1, now2) # rest"
      by (cases captures) auto
    from fresh have none: "Map_Get (records st) runner = None" by simp
    from RecordRequest_creates [OF none, of req body now1 now2]
    obtain st1 where one: "RecordRequest st runner req body now1 now2
          = (Return (Model runner @ ''_'' @ Itoa now1), st1)"
      and h1: "entry_holds st1 runner (evict ([] @ [new_record runner req body now1 now2]))"
      by blast
    from RecordRequests_window [OF h1, of rest] obtain st' where
      rest: "RecordRequests st1 runner rest = (Return (returned_ids runner rest), st')"
      and h': "entry_holds st' runner
        (window (evict ([] @ [new_record runner req body now1 now2])) (created runner rest))"
      by blast
    from one rest h' fresh show ?thesis
      by (simp add: caps window_def created_def returned_ids_def)
  qed
  then obtain st' where
    run: "RecordRequests st runner captures = (Return (returned_ids runner captures), st')"
    and h: "entry_holds st' runner (window recs (created runner captures))"
    by blast
  have w: "window recs (created runner captures)
      = drop (length recs + length captures - 10) (recs @ created runner captures)"
    using window_drop [OF len, of "created runner captures"] by (simp add: created_def)
  from run entry_holds_stored [OF h] w show ?thesis
    by simp
qed

lemma last_ten: "length (drop (length xs - 10) xs) = min (length xs) 10"
  by (simp add: min_def)

text \<open>
  Claim C2. Let the key have no entry, or a well-formed entry holding the at most ten
  records \<open>recs\<close> of the captures so far (none for a fresh key, where \<open>N\<close> below is the
  number of captures). Every one of a sequence of further request captures against the key
  returns its id, and after the last one the records stored for the key are the last
  \<open>min N 10\<close> of the \<open>N\<close> records \<open>recs @ created runner captures\<close>, in the order of
  creation: their number is \<open>min N 10\<close>, and for \<open>N > 10\<close> the first of them is the
  record of index \<open>N - 10\<close> counted from 0, the (N-9)th. The same holds after every
  capture of the sequence, so that no capture leaves more than ten records behind.
\<close>

theorem RecordRequest_fifo_window:
  fixes st :: "('mode, 'cfg::zero) state"
  assumes start: "(Map_Get (records st) runner = None \<and> recs = [])
      \<or> (entry_holds st runner recs \<and> length recs \<le> 10)"
    and some: "captures \<noteq> []"
  shows "\<exists>st'. RecordRequests st runner captures = (Return (returned_ids runner captures), st')
         \<and> stored_records st' runner
             = Some (drop (length recs + length captures - 10) (recs @ created runner captures))
         \<and> length (the (stored_records st' runner)) = min (length recs + length captures) 10
         \<and> (length recs + length captures > 10 \<longrightarrow>
              hd (the (stored_records st' runner))
                = (recs @ created runner captures) ! (length recs + length captures - 10))
         \<and> (\<forall>n. 0 < n \<and> n \<le> length captures \<longrightarrow>
              (\<exists>st1. RecordRequests st runner (take n captures)
                        = (Return (returned_ids runner (take n captures)), st1)
                 \<and> stored_records st1 runner
                     = Some (drop (length recs + n - 10) (recs @ created runner (take n captures)))
                 \<and> length (the (stored_records st1 runner)) = min (length recs + n) 10))"
proof -
  let ?all = "recs @ created runner captures"
  from RecordRequests_stored [OF start some] obtain st' where
    run: "RecordRequests st runner captures = (Return (returned_ids runner captures), st')"
    and stored: "stored_records st' runner
      = Some (drop (length recs + length captures - 10) ?all)"
    by blast
  have lens: "length ?all = length recs + length captures"
    by (simp add: created_def)
  have count: "length (the (stored_records st' runner)) = min (length recs + length captures) 10"
    using last_ten [of ?all] by (simp only: stored option.sel lens)
  have first: "length recs + length captures > 10 \<longrightarrow>
      hd (the (stored_records st' runner)) = ?all ! (length recs + length captures - 10)"
  proof
    assume "length recs + length captures > 10"
    then have "length recs + length captures - 10 < length ?all"
      by (simp only: lens)
    then have "hd (drop (length recs + length captures - 10) ?all)
        = ?all ! (length recs + length captures - 10)"
      by (rule hd_drop_conv_nth)
    then show "hd (the (stored_records st' runner)) = ?all ! (length recs + length captures - 10)"
      by (simp only: stored option.sel)
  qed
  have prefixes: "\<exists>st1. RecordRequests st runner (take n captures)
          = (Return (returned_ids runner (take n captures)), st1)
        \<and> stored_records st1 runner
            = Some (drop (length recs + n - 10) (recs @ created runner (take n captures)))
        \<and> length (the (stored_records st1 runner)) = min (length recs + n) 10"
    if n: "0 < n \<and> n \<le> length captures" for n
  proof -
    from n have ne: "take n captures \<noteq> []" by auto
    from n have ln: "length (take n captures) = n" by simp
    from RecordRequests_stored [OF start ne] obtain st1 where
      run1: "RecordRequests st runner (take n captures)
        = (Return (returned_ids runner (take n captures)), st1)"
      and stored1: "stored_records st1 runner
        = Some (drop (length recs + n - 10) (recs @ created runner (take n captures)))"
      unfolding ln by blast
    have "length (recs @ created runner (take n captures)) = length recs + n"
      using ln by (simp add: created_def)
    then have "length (the (stored_records st1 runner)) = min (length recs + n) 10"
      using last_ten [of "recs @ created runner (take n captures)"]
      by (simp only: stored1 option.sel)
    with run1 stored1 show ?thesis by blast
  qed
  from run stored count first prefixes show ?thesis
    by blast
qed

text \<open>
  Twelve captures against a key of a new recorder: all twelve ids are returned, and the
  ten records of the captures 3 to 12 are stored, that of capture 3 first.
\<close>

theorem RecordRequest_fifo_window_witness:
  "Map_Get (records ex_recorder0) ex_key = None
   \<and> length ex_captures = 12
   \<and> fst (RecordRequests ex_recorder0 ex_key ex_captures)
       = Return [''ai/smollm2_1'', ''ai/smollm2_2'', ''ai/smollm2_3'', ''ai/smollm2_4'',
                 ''ai/smollm2_5'', ''ai/smollm2_6'', ''ai/smollm2_7'', ''ai/smollm2_8'',
                 ''ai/smollm2_9'', ''ai/smollm2_10'', ''ai/smollm2_11'', ''ai/smollm2_12'']
   \<and> map ID (the (stored_records (snd (RecordRequests ex_recorder0 ex_key ex_captures)) ex_key))
       = [''ai/smollm2_3'', ''ai/smollm2_4'', ''ai/smollm2_5'', ''ai/smollm2_6'',
          ''ai/smollm2_7'', ''ai/smollm2_8'', ''ai/smollm2_9'', ''ai/smollm2_10'',
          ''ai/smollm2_11'', ''ai/smollm2_12'']
   \<and> length (the (stored_records (snd (RecordRequests ex_recorder0 ex_key ex_captures)) ex_key))
       = 10
   \<and> hd (the (stored_records (snd (RecordRequests ex_recorder0 ex_key ex_captures)) ex_key))
       = new_record ex_key ex_request ''{}'' 3 4"
proof -
  have none: "Map_Get (records ex_recorder0) ex_key = None"
    by code_simp
  have some: "ex_captures \<noteq> []"
    by (simp add: ex_captures_def)
  have len: "length ex_captures = 12"
    by (simp add: ex_captures_def)
  have start: "(Map_Get (records ex_recorder0) ex_key = None \<and> ([] :: RequestResponsePair list) = [])
      \<or> (entry_holds ex_recorder0 ex_key [] \<and> length ([] :: RequestResponsePair list) \<le> 10)"
    using none by simp
  from RecordRequest_fifo_window [OF start some] obtain st' where
    run: "RecordRequests ex_recorder0 ex_key ex_captures
      = (Return (returned_ids ex_key ex_captures), st')"
    and stored: "stored_records st' ex_key
      = Some (drop (length ([] :: RequestResponsePair list) + length ex_captures - 10)
          ([] @ created ex_key ex_captures))"
    by blast
  have ids: "returned_ids ex_key ex_captures
      = [''ai/smollm2_1'', ''ai/smollm2_2'', ''ai/smollm2_3'', ''ai/smollm2_4'',
         ''ai/smollm2_5'', ''ai/smollm2_6'', ''ai/smollm2_7'', ''ai/smollm2_8'',
         ''ai/smollm2_9'', ''ai/smollm2_10'', ''ai/smollm2_11'', ''ai/smollm2_12'']"
    by code_simp
  have kept: "map ID (drop 2 (created ex_key ex_captures))
      = [''ai/smollm2_3'', ''ai/smollm2_4'', ''ai/smollm2_5'', ''ai/smollm2_6'',
         ''ai/smollm2_7'', ''ai/smollm2_8'', ''ai/smollm2_9'', ''ai/smollm2_10'',
         ''ai/smollm2_11'', ''ai/smollm2_12'']"
    by code_simp
  have first: "hd (drop 2 (created ex_key ex_captures)) = new_record ex_key ex_request ''{}'' 3 4"
    by (simp add: created_def ex_captures_def)
  have count: "length (drop 2 (created ex_key ex_captures)) = 10"
    by (simp add: created_def ex_captures_def)
  from run have st': "snd (RecordRequests ex_recorder0 ex_key ex_captures) = st'"
    and out: "fst (RecordRequests ex_recorder0 ex_key ex_captures)
      = Return (returned_ids ex_key ex_captures)"
    by simp_all
  from stored have stored': "stored_records st' ex_key = Some (drop 2 (created ex_key ex_captures))"
    by (simp add: len)
  show ?thesis
    by (simp only: none len st' out ids stored' option.sel kept first count simp_thms)
qed

subsection \<open>RecordResponse\<close>

lemma Write_keeps_type:
  "Write rw b = Return rw' \<Longrightarrow> is_responseRecorder rw' = is_responseRecorder rw"
  by (cases rw) (auto split: outcome.splits)

lemma WriteHeader_keeps_type:
  "WriteHeader rw c = Return rw' \<Longrightarrow> is_responseRecorder rw' = is_responseRecorder rw"
  by (cases rw) (auto split: outcome.splits)

lemma find_record_unmatched:
  "load_all prs elems = Some recs \<Longrightarrow> reqID \<notin> set (map ID recs) \<Longrightarrow>
     find_record prs elems reqID = Return None"
proof (induction prs elems arbitrary: recs rule: load_all.induct)
  case (1 h)
  show ?case by simp
next
  case (2 h xs)
  then show ?case by simp
next
  case (3 h a xs)
  then show ?case
    by (auto split: option.splits)
qed

lemma find_record_first:
  "load_all prs elems = Some recs \<Longrightarrow> i < length recs \<Longrightarrow> ID (recs ! i) = reqID \<Longrightarrow>
   (\<forall>j < i. ID (recs ! j) \<noteq> reqID) \<Longrightarrow>
     \<exists>a. elems ! i = Some a \<and> a < length prs \<and> prs ! a = recs ! i
        \<and> find_record prs elems reqID = Return (Some a)"
proof (induction prs elems arbitrary: recs i rule: load_all.induct)
  case (1 h)
  then show ?case by simp
next
  case (2 h xs)
  then show ?case by simp
next
  case (3 h a xs)
  from "3.prems"(1) obtain v vs where v: "load h a = Some v" and vs: "load_all h xs = Some vs"
    and recs: "recs = v # vs"
    by (auto split: option.splits)
  from v have a: "a < length h" "h ! a = v"
    by (auto simp: load_def split: if_splits)
  show ?case
  proof (cases i)
    case 0
    with "3.prems" recs v a show ?thesis by simp
  next
    case (Suc k)
    with "3.prems" recs have k: "k < length vs" "ID (vs ! k) = reqID"
      and before: "\<forall>j < k. ID (vs ! j) \<noteq> reqID" and head: "ID v \<noteq> reqID"
      by auto
    from "3.IH" [OF v vs k before] obtain b where "xs ! k = Some b" "b < length h"
      "h ! b = vs ! k" "find_record h xs reqID = Return (Some b)"
      by blast
    with Suc recs v head show ?thesis by simp
  qed
qed

lemma load_all_update:
  "load_all prs elems = Some recs \<Longrightarrow>
     \<exists>recs'. load_all (prs[a := v]) elems = Some recs' \<and> length recs' = length recs
        \<and> (\<forall>j < length recs. recs' ! j = (if elems ! j = Some a then v else recs ! j))"
proof (induction prs elems arbitrary: recs rule: load_all.induct)
  case (1 h)
  then show ?case by simp
next
  case (2 h xs)
  then show ?case by simp
next
  case (3 h b xs)
  from "3.prems" obtain u us where u: "load h b = Some u" and us: "load_all h xs = Some us"
    and recs: "recs = u # us"
    by (auto split: option.splits)
  from "3.IH" [OF u us] obtain us' where us': "load_all (h[a := v]) xs = Some us'"
    and len: "length us' = length us"
    and each: "\<forall>j < length us. us' ! j = (if xs ! j = Some a then v else us ! j)"
    by blast
  from u have b: "b < length h" "h ! b = u"
    by (auto simp: load_def split: if_splits)
  have ld: "load (h[a := v]) b = Some (if b = a then v else u)"
    using b by (simp add: load_def)
  have "load_all (h[a := v]) (Some b # xs) = Some ((if b = a then v else u) # us')"
    using ld us' by simp
  moreover have "\<forall>j < length recs. ((if b = a then v else u) # us') ! j
      = (if (Some b # xs) ! j = Some a then v else recs ! j)"
    using each recs by (auto simp: nth_Cons split: nat.splits)
  ultimately show ?case
    using len recs by auto
qed

lemma stored_records_Some:
  "stored_records st runner = Some recs \<longleftrightarrow>
     (\<exists>p d elems. Map_Get (records st) runner = Some p \<and> load (datas st) p = Some d
        \<and> slice_elems (arrays st) (Records d) = Some elems
        \<and> load_all (pairs st) elems = Some recs)"
  by (auto simp: stored_records_def stored_pointers_def split: option.splits)

lemma stored_records_logged [simp]:
  "stored_records (st\<lparr>logged := l\<rparr>) k = stored_records st k"
  by (simp add: stored_records_def stored_pointers_def cong: option.case_cong)

text \<open>
  Claim C10. The type assertion of \<^verbatim>\<open>RecordResponse\<close> is unchecked: with a writer that is
  not a \<^verbatim>\<open>*responseRecorder\<close> (the nil interface, or a writer of another type) the call
  panics and the state is the one before the call, whatever the id, the key and the state
  are. So a call that returns had a \<^verbatim>\<open>*responseRecorder\<close>. The writers of that type are
  those that \<^verbatim>\<open>NewResponseRecorder\<close> makes, and \<^verbatim>\<open>Write\<close> and \<^verbatim>\<open>WriteHeader\<close> keep
  the type of a writer.
\<close>

theorem RecordResponse_unchecked_downcast:
  "(\<not> is_responseRecorder rw \<longrightarrow>
      RecordResponse convert st reqID runner rw = (Panic InterfaceConversion, st))
   \<and> (fst (RecordResponse convert st reqID runner rw) = Return () \<longrightarrow> is_responseRecorder rw)
   \<and> (is_responseRecorder rw \<longleftrightarrow> (\<exists>w body statusCode. rw = ResponseRecorder w body statusCode))
   \<and> is_responseRecorder (NewResponseRecorder w)
   \<and> (Write rw b = Return rw' \<longrightarrow> is_responseRecorder rw' = is_responseRecorder rw)
   \<and> (WriteHeader rw c = Return rw' \<longrightarrow> is_responseRecorder rw' = is_responseRecorder rw)"
proof (intro conjI impI)
  show "RecordResponse convert st reqID runner rw = (Panic InterfaceConversion, st)"
    if "\<not> is_responseRecorder rw"
    using that by (cases rw) (simp_all add: RecordResponse_def)
  show "is_responseRecorder rw" if "fst (RecordResponse convert st reqID runner rw) = Return ()"
    using that by (cases rw) (simp_all add: RecordResponse_def)
  show "is_responseRecorder rw \<longleftrightarrow> (\<exists>w body statusCode. rw = ResponseRecorder w body statusCode)"
    by (cases rw) simp_all
  show "is_responseRecorder (NewResponseRecorder w)"
    by (simp add: NewResponseRecorder_def)
  show "is_responseRecorder rw' = is_responseRecorder rw" if "Write rw b = Return rw'"
    using that by (rule Write_keeps_type)
  show "is_responseRecorder rw' = is_responseRecorder rw" if "WriteHeader rw c = Return rw'"
    using that by (rule WriteHeader_keeps_type)
qed

text \<open>
  On the recorder after one capture: with the plain writer and with the nil interface the
  call panics, though the id is that of the stored record, and the recorder is as before;
  with the capturing writer it returns.
\<close>

theorem RecordResponse_unchecked_downcast_witness:
  "\<not> is_responseRecorder ex_plain_writer
   \<and> RecordResponse ex_convert ex_recorder1 ex_id ex_key ex_plain_writer
       = (Panic InterfaceConversion, ex_recorder1)
   \<and> RecordResponse ex_convert ex_recorder1 ex_id ex_key NilWriter
       = (Panic InterfaceConversion, ex_recorder1)
   \<and> Write (NewResponseRecorder (PlainWriter [] None)) ex_body = Return ex_writer
   \<and> fst (RecordResponse ex_convert ex_recorder1 ex_id ex_key ex_writer) = Return ()
   \<and> is_responseRecorder ex_writer"
proof -
  have plain: "\<not> is_responseRecorder ex_plain_writer"
    by (simp add: ex_plain_writer_def)
  have nil: "\<not> is_responseRecorder NilWriter"
    by simp
  have wr: "Write (NewResponseRecorder (PlainWriter [] None)) ex_body = Return ex_writer"
    by (simp add: NewResponseRecorder_def ex_writer_def)
  have ret: "fst (RecordResponse ex_convert ex_recorder1 ex_id ex_key ex_writer) = Return ()"
    by code_simp
  from plain nil wr ret
    RecordResponse_unchecked_downcast
      [where rw = ex_plain_writer and convert = ex_convert and st = ex_recorder1
        and reqID = ex_id and runner = ex_key]
    RecordResponse_unchecked_downcast
      [where rw = NilWriter and convert = ex_convert and st = ex_recorder1
        and reqID = ex_id and runner = ex_key]
    RecordResponse_unchecked_downcast
      [where rw = ex_writer and convert = ex_convert and st = ex_recorder1
        and reqID = ex_id and runner = ex_key]
  show ?thesis
    by blast
qed

text \<open>
  Claim C4, as stated, fails: whether the call raises depends on the writer too. With a
  writer that is not a \<^verbatim>\<open>*responseRecorder\<close> a call whose id matches no record of the
  key, and a call for a key with no entry, both panic.
\<close>

theorem RecordResponse_unmatched_can_panic:
  "stored_records ex_recorder1 ex_key = Some [ex_record]
   \<and> ID ex_record \<noteq> ''ai/smollm2_0''
   \<and> fst (RecordResponse ex_convert ex_recorder1 ''ai/smollm2_0'' ex_key ex_plain_writer)
       = Panic InterfaceConversion
   \<and> Map_Get (records ex_recorder0) ex_key = None
   \<and> fst (RecordResponse ex_convert ex_recorder0 ''ai/smollm2_0'' ex_key NilWriter)
       = Panic InterfaceConversion"
  by code_simp

text \<open>
  Claim C4, amended. Let the writer be a \<^verbatim>\<open>*responseRecorder\<close>, and let the key have no
  entry, or an entry none of whose records has the id. Then the call returns, and the state
  after it is the state before it with one more entry in the log, an error with the message
  of the source: the map, the \<^verbatim>\<open>ModelData\<close>, the slices and every record are as they
  were, and so are the records stored for every key.
\<close>

theorem RecordResponse_unmatched_is_dropped:
  assumes "Map_Get (records st) runner = None
     \<or> (\<exists>recs. stored_records st runner = Some recs \<and> reqID \<notin> set (map ID recs))"
  shows "\<exists>msg. RecordResponse convert st reqID runner (ResponseRecorder w body statusCode)
             = (Return (), st\<lparr>logged := logged st @ [Errorf msg]\<rparr>)
         \<and> msg = (if Map_Get (records st) runner = None
                   then ''Model '' @ Model runner @ '' not found in records - '' @
                        Itoa statusCode @ [newline] @ response_text convert body
                   else ''Matching request (id='' @ reqID @ '') not found for model '' @
                        Model runner @ '' - '' @ Itoa statusCode @ [newline] @
                        response_text convert body)
         \<and> records (st\<lparr>logged := logged st @ [Errorf msg]\<rparr>) = records st
         \<and> datas (st\<lparr>logged := logged st @ [Errorf msg]\<rparr>) = datas st
         \<and> arrays (st\<lparr>logged := logged st @ [Errorf msg]\<rparr>) = arrays st
         \<and> pairs (st\<lparr>logged := logged st @ [Errorf msg]\<rparr>) = pairs st
         \<and> (\<forall>k. stored_records (st\<lparr>logged := logged st @ [Errorf msg]\<rparr>) k
                = stored_records st k)"
  using assms
proof
  assume none: "Map_Get (records st) runner = None"
  have "RecordResponse convert st reqID runner (ResponseRecorder w body statusCode)
      = (Return (), st\<lparr>logged := logged st @
           [Errorf (''Model '' @ Model runner @ '' not found in records - '' @
              Itoa statusCode @ [newline] @ response_text convert body)]\<rparr>)"
    using none by (simp add: RecordResponse_def)
  with none show ?thesis
    by simp
next
  assume "\<exists>recs. stored_records st runner = Some recs \<and> reqID \<notin> set (map ID recs)"
  then obtain recs p d elems where get: "Map_Get (records st) runner = Some p"
    and ld: "load (datas st) p = Some d"
    and sl: "slice_elems (arrays st) (Records d) = Some elems"
    and la: "load_all (pairs st) elems = Some recs"
    and no: "reqID \<notin> set (map ID recs)"
    unfolding stored_records_Some by blast
  from la no have nf: "find_record (pairs st) elems reqID = Return None"
    by (rule find_record_unmatched)
  have "RecordResponse convert st reqID runner (ResponseRecorder w body statusCode)
      = (Return (), st\<lparr>logged := logged st @
           [Errorf (''Matching request (id='' @ reqID @ '') not found for model '' @
              Model runner @ '' - '' @ Itoa statusCode @ [newline] @
              response_text convert body)]\<rparr>)"
    using get ld sl nf by (simp add: RecordResponse_def)
  with get show ?thesis
    by simp
qed

text \<open>
  On the recorder after one capture, with an id that the stored record does not have, and
  on the new recorder, where the key has no entry: the call returns and the recorder is as
  before, with the error in its log.
\<close>

theorem RecordResponse_unmatched_is_dropped_witness:
  "stored_records ex_recorder1 ex_key = Some [ex_record]
   \<and> ''ai/smollm2_0'' \<notin> set (map ID [ex_record])
   \<and> RecordResponse ex_convert ex_recorder1 ''ai/smollm2_0'' ex_key ex_writer
       = (Return (),
          ex_recorder1\<lparr>logged := logged ex_recorder1 @
            [Errorf (''Matching request (id=ai/smollm2_0) not found for model ai/smollm2 - 200''
                     @ [newline] @ ex_body)]\<rparr>)
   \<and> Map_Get (records ex_recorder0) ex_key = None
   \<and> RecordResponse ex_convert ex_recorder0 ''ai/smollm2_0'' ex_key ex_writer
       = (Return (),
          ex_recorder0\<lparr>logged := logged ex_recorder0 @
            [Errorf (''Model ai/smollm2 not found in records - 200'' @ [newline] @ ex_body)]\<rparr>)
   \<and> logged ex_recorder1 = [] \<and> logged ex_recorder0 = []"
proof -
  have stored: "stored_records ex_recorder1 ex_key = Some [ex_record]"
    by code_simp
  have other: "''ai/smollm2_0'' \<notin> set (map ID [ex_record])"
    by (simp add: ex_record_def ex_id_def)
  have entry: "Map_Get (records ex_recorder1) ex_key \<noteq> None"
    by code_simp
  have none: "Map_Get (records ex_recorder0) ex_key = None"
    by code_simp
  have logs: "logged ex_recorder1 = []" "logged ex_recorder0 = []"
    by code_simp+
  have resp: "response_text ex_convert ex_body = ex_body"
    by code_simp
  have code: "Itoa 200 = ''200''"
    by code_simp
  have model: "Model ex_key = ''ai/smollm2''"
    by (simp add: ex_key_def)
  have h1: "Map_Get (records ex_recorder1) ex_key = None
     \<or> (\<exists>recs. stored_records ex_recorder1 ex_key = Some recs
           \<and> ''ai/smollm2_0'' \<notin> set (map ID recs))"
    using stored other by blast
  have h0: "Map_Get (records ex_recorder0) ex_key = None
     \<or> (\<exists>recs. stored_records ex_recorder0 ex_key = Some recs
           \<and> ''ai/smollm2_0'' \<notin> set (map ID recs))"
    using none by blast
  have r1: "RecordResponse ex_convert ex_recorder1 ''ai/smollm2_0'' ex_key ex_writer
       = (Return (),
          ex_recorder1\<lparr>logged := logged ex_recorder1 @
            [Errorf (''Matching request (id=ai/smollm2_0) not found for model ai/smollm2 - 200''
                     @ [newline] @ ex_body)]\<rparr>)"
    using RecordResponse_unmatched_is_dropped
      [OF h1, where convert = ex_convert and w = "PlainWriter ex_body (Some 200)"
        and body = ex_body and statusCode = 200]
      entry by (simp add: ex_writer_def resp code model)
  have r0: "RecordResponse ex_convert ex_recorder0 ''ai/smollm2_0'' ex_key ex_writer
       = (Return (),
          ex_recorder0\<lparr>logged := logged ex_recorder0 @
            [Errorf (''Model ai/smollm2 not found in records - 200'' @ [newline] @ ex_body)]\<rparr>)"
    using RecordResponse_unmatched_is_dropped
      [OF h0, where convert = ex_convert and w = "PlainWriter ex_body (Some 200)"
        and body = ex_body and statusCode = 200]
      none by (simp add: ex_writer_def resp code model)
  from stored other r1 none r0 logs show ?thesis
    by blast
qed

lemma RecordResponse_first_match:
  assumes stored: "stored_records st runner = Some recs"
    and i: "i < length recs"
    and match: "ID (recs ! i) = reqID"
    and first: "\<forall>j < i. ID (recs ! j) \<noteq> reqID"
  shows "\<exists>st' recs'.
           RecordResponse convert st reqID runner (ResponseRecorder w body statusCode)
             = (Return (), st')
         \<and> stored_records st' runner = Some recs'
         \<and> length recs' = length recs
         \<and> recs' ! i = (recs ! i)
             \<lparr>Response := (if \<exists>pre post. body = pre @ ''data: '' @ post
                            then convert body else body),
              StatusCode := statusCode\<rparr>
         \<and> ((\<nexists>pre post. body = pre @ ''data: '' @ post) \<longrightarrow>
              Response (recs' ! i) = body
            \<and> RecordResponse convert' st reqID runner (ResponseRecorder w body statusCode)
                = (Return (), st'))
         \<and> ((\<exists>pre post. body = pre @ ''data: '' @ post) \<longrightarrow>
              Response (recs' ! i) = convert body)"
proof -
  from stored obtain p d elems where get: "Map_Get (records st) runner = Some p"
    and ld: "load (datas st) p = Some d"
    and sl: "slice_elems (arrays st) (Records d) = Some elems"
    and la: "load_all (pairs st) elems = Some recs"
    unfolding stored_records_Some by blast
  from find_record_first [OF la i match first] obtain a where ea: "elems ! i = Some a"
    and a: "a < length (pairs st)" and pa: "pairs st ! a = recs ! i"
    and found: "find_record (pairs st) elems reqID = Return (Some a)"
    by blast
  let ?text = "\<lambda>c. if \<exists>pre post. body = pre @ ''data: '' @ post then c body else body"
  let ?v = "\<lambda>c. (recs ! i)\<lparr>Response := ?text c, StatusCode := statusCode\<rparr>"
  let ?st' = "\<lambda>c. st\<lparr>pairs := (pairs st)[a := ?v c]\<rparr>"
  have run: "RecordResponse c st reqID runner (ResponseRecorder w body statusCode)
      = (Return (), ?st' c)" for c
    using get ld sl found pa by (simp add: RecordResponse_def response_text_def Contains_iff)
  from load_all_update [OF la, of a "?v convert"] obtain recs' where
    la': "load_all ((pairs st)[a := ?v convert]) elems = Some recs'"
    and len: "length recs' = length recs"
    and each: "\<forall>j < length recs. recs' ! j = (if elems ! j = Some a then ?v convert else recs ! j)"
    by blast
  have stored': "stored_records (?st' convert) runner = Some recs'"
    unfolding stored_records_Some using get ld sl la' by simp
  have at: "recs' ! i = ?v convert"
    using each i ea by simp
  have same: "?st' convert' = ?st' convert" if "\<nexists>pre post. body = pre @ ''data: '' @ post"
    using that by simp
  show ?thesis
  proof (intro exI conjI impI)
    show "RecordResponse convert st reqID runner (ResponseRecorder w body statusCode)
        = (Return (), ?st' convert)" by (rule run)
    show "stored_records (?st' convert) runner = Some recs'" by (rule stored')
    show "length recs' = length recs" by (rule len)
    show "recs' ! i = ?v convert" by (rule at)
    show "Response (recs' ! i) = body" if "\<nexists>pre post. body = pre @ ''data: '' @ post"
      using that at by simp
    show "RecordResponse convert' st reqID runner (ResponseRecorder w body statusCode)
        = (Return (), ?st' convert)" if "\<nexists>pre post. body = pre @ ''data: '' @ post"
      using run [of convert'] same [OF that] by simp
    show "Response (recs' ! i) = convert body" if "\<exists>pre post. body = pre @ ''data: '' @ post"
      using that at by simp
  qed
qed

text \<open>
  Claim C6. Let the writer have captured \<open>body\<close>.

  \<^item> If the marker \<^verbatim>\<open>data: \<close> occurs nowhere in \<open>body\<close>, the call is the same in every
    state whatever the reconstruction is: the reconstruction is not invoked.
  \<^item> Let the records stored for the key be \<open>recs\<close>, that of index \<open>i\<close> the first with
    the id. The call returns, and afterwards the record of index \<open>i\<close> has the captured
    status and, as its response text, \<open>body\<close> itself when the marker occurs nowhere in
    it, and the result \<open>convert body\<close> of the reconstruction when the marker occurs
    somewhere in it.
\<close>

theorem RecordResponse_stores_body:
  "((\<nexists>pre post. body = pre @ ''data: '' @ post) \<longrightarrow>
      RecordResponse convert st reqID runner (ResponseRecorder w body statusCode)
        = RecordResponse convert' st reqID runner (ResponseRecorder w body statusCode))
   \<and> (stored_records st runner = Some recs \<and> i < length recs \<and> ID (recs ! i) = reqID
        \<and> (\<forall>j < i. ID (recs ! j) \<noteq> reqID) \<longrightarrow>
      (\<exists>st' recs'.
           RecordResponse convert st reqID runner (ResponseRecorder w body statusCode)
             = (Return (), st')
         \<and> stored_records st' runner = Some recs'
         \<and> length recs' = length recs
         \<and> recs' ! i = (recs ! i)
             \<lparr>Response := (if \<exists>pre post. body = pre @ ''data: '' @ post
                            then convert body else body),
              StatusCode := statusCode\<rparr>
         \<and> ((\<nexists>pre post. body = pre @ ''data: '' @ post) \<longrightarrow> Response (recs' ! i) = body)
         \<and> ((\<exists>pre post. body = pre @ ''data: '' @ post) \<longrightarrow>
              Response (recs' ! i) = convert body)))"
proof (intro conjI impI)
  assume "\<nexists>pre post. body = pre @ ''data: '' @ post"
  then have "response_text convert body = response_text convert' body"
    by (simp add: response_text_def Contains_iff)
  then show "RecordResponse convert st reqID runner (ResponseRecorder w body statusCode)
      = RecordResponse convert' st reqID runner (ResponseRecorder w body statusCode)"
    by (simp add: RecordResponse_def)
next
  assume "stored_records st runner = Some recs \<and> i < length recs \<and> ID (recs ! i) = reqID
      \<and> (\<forall>j < i. ID (recs ! j) \<noteq> reqID)"
  then have stored: "stored_records st runner = Some recs" and i: "i < length recs"
    and match: "ID (recs ! i) = reqID" and first: "\<forall>j < i. ID (recs ! j) \<noteq> reqID"
    by simp_all
  from RecordResponse_first_match [OF stored i match first, of convert w body statusCode]
  show "\<exists>st' recs'.
           RecordResponse convert st reqID runner (ResponseRecorder w body statusCode)
             = (Return (), st')
         \<and> stored_records st' runner = Some recs'
         \<and> length recs' = length recs
         \<and> recs' ! i = (recs ! i)
             \<lparr>Response := (if \<exists>pre post. body = pre @ ''data: '' @ post
                            then convert body else body),
              StatusCode := statusCode\<rparr>
         \<and> ((\<nexists>pre post. body = pre @ ''data: '' @ post) \<longrightarrow> Response (recs' ! i) = body)
         \<and> ((\<exists>pre post. body = pre @ ''data: '' @ post) \<longrightarrow>
              Response (recs' ! i) = convert body)"
    by blast
qed

text \<open>
  On the recorder after one capture, with the id of the stored record: the body that is
  not a stream is stored as it is, and for the stream \<open>hello_stream\<close>, which has the
  marker and lies in the fragment of the model of encoding/json, the text stored is the
  result \<open>hello_text\<close> of the reconstruction.
\<close>

theorem RecordResponse_stores_body_witness:
  "stored_records ex_recorder1 ex_key = Some [ex_record]
   \<and> ID ex_record = ex_id
   \<and> \<not> Contains ex_body ''data: ''
   \<and> fst (RecordResponse ex_convert ex_recorder1 ex_id ex_key ex_writer) = Return ()
   \<and> stored_records (snd (RecordResponse ex_convert ex_recorder1 ex_id ex_key ex_writer)) ex_key
       = Some [ex_record\<lparr>Response := ex_body, StatusCode := 200\<rparr>]
   \<and> Contains hello_stream ''data: ''
   \<and> convertStreamingResponse hello_stream = Some hello_text
   \<and> ex_convert hello_stream = hello_text
   \<and> stored_records
         (snd (RecordResponse ex_convert ex_recorder1 ex_id ex_key ex_stream_writer)) ex_key
       = Some [ex_record\<lparr>Response := hello_text, StatusCode := 200\<rparr>]"
proof -
  have stored: "stored_records ex_recorder1 ex_key = Some [ex_record]"
    by code_simp
  have i: "0 < length [ex_record]"
    by simp
  have match: "ID ([ex_record] ! 0) = ex_id"
    by (simp add: ex_record_def)
  have first: "\<forall>j < (0::nat). ID ([ex_record] ! j) \<noteq> ex_id"
    by simp
  have plain: "\<not> Contains ex_body ''data: ''"
    by code_simp
  have marker: "Contains hello_stream ''data: ''"
    by code_simp
  have conv: "ex_convert hello_stream = hello_text"
    by code_simp
  have inside: "convertStreamingResponse hello_stream = Some hello_text"
    by code_simp
  have one: "recs' = [recs' ! 0]" if "length recs' = length [ex_record]"
    for recs' :: "RequestResponsePair list"
    using that by (cases recs') simp_all
  have hyps: "stored_records ex_recorder1 ex_key = Some [ex_record] \<and> 0 < length [ex_record]
      \<and> ID ([ex_record] ! 0) = ex_id \<and> (\<forall>j < (0::nat). ID ([ex_record] ! j) \<noteq> ex_id)"
    using stored i match first by blast
  from hyps RecordResponse_stores_body
    [where st = ex_recorder1 and runner = ex_key and recs = "[ex_record]" and i = 0
      and reqID = ex_id and convert = ex_convert and convert' = ex_convert
      and w = "PlainWriter ex_body (Some 200)" and body = ex_body and statusCode = 200]
  obtain st1 recs1 where
    run1: "RecordResponse ex_convert ex_recorder1 ex_id ex_key ex_writer = (Return (), st1)"
    and st1: "stored_records st1 ex_key = Some recs1"
    and len1: "length recs1 = length [ex_record]"
    and at1: "recs1 ! 0 = ([ex_record] ! 0)
        \<lparr>Response := (if \<exists>pre post. ex_body = pre @ ''data: '' @ post
                       then ex_convert ex_body else ex_body),
         StatusCode := 200\<rparr>"
    unfolding ex_writer_def by blast
  have a1: "recs1 = [ex_record\<lparr>Response := ex_body, StatusCode := 200\<rparr>]"
    using one [OF len1] at1 plain by (simp add: Contains_iff)
  from hyps RecordResponse_stores_body
    [where st = ex_recorder1 and runner = ex_key and recs = "[ex_record]" and i = 0
      and reqID = ex_id and convert = ex_convert and convert' = ex_convert
      and w = "PlainWriter hello_stream (Some 200)" and body = hello_stream
      and statusCode = 200]
  obtain st2 recs2 where
    run2: "RecordResponse ex_convert ex_recorder1 ex_id ex_key ex_stream_writer
      = (Return (), st2)"
    and st2: "stored_records st2 ex_key = Some recs2"
    and len2: "length recs2 = length [ex_record]"
    and at2: "recs2 ! 0 = ([ex_record] ! 0)
        \<lparr>Response := (if \<exists>pre post. hello_stream = pre @ ''data: '' @ post
                       then ex_convert hello_stream else hello_stream),
         StatusCode := 200\<rparr>"
    unfolding ex_stream_writer_def by blast
  have a2: "recs2 = [ex_record\<lparr>Response := hello_text, StatusCode := 200\<rparr>]"
    using one [OF len2] at2 marker by (simp add: Contains_iff conv)
  from stored match plain marker inside conv run1 st1 a1 run2 st2 a2 show ?thesis
    by simp
qed

subsection \<open>GetModelData\<close>

lemma GetModelData_entry:
  assumes get: "Map_Get (records st) (completionKey env model) = Some p"
    and ld: "load (datas st) p = Some d"
    and ok: "slice_ok (arrays st) (Records d)"
  shows "GetModelData env st model
      = (Return (Some (length (datas st))),
         st\<lparr>arrays := arrays st @
               [take (sl_len (Records d)) (drop (sl_off (Records d)) (arrays st ! sl_array (Records d)))],
            datas := datas st @
               [\<lparr>Config = Config d,
                 Records = \<lparr>sl_array = length (arrays st), sl_off = 0,
                            sl_len = sl_len (Records d), sl_cap = sl_len (Records d)\<rparr>\<rparr>]\<rparr>)"
  using get ld ok
  by (simp add: GetModelData_def slice_elems_ok make_slice_def alloc_def Let_def)

lemma Query_entry:
  assumes get: "Map_Get (records st) (completionKey env model) = Some p"
    and ld: "load (datas st) p = Some d"
    and ok: "slice_ok (arrays st) (Records d)"
  shows "Query env st model
      = Return (Some (Config d,
          map (\<lambda>x. case x of None \<Rightarrow> None | Some a \<Rightarrow> load (pairs st) a)
            (take (sl_len (Records d))
               (drop (sl_off (Records d)) (arrays st ! sl_array (Records d))))))"
proof -
  let ?elems = "take (sl_len (Records d)) (drop (sl_off (Records d)) (arrays st ! sl_array (Records d)))"
  from ok have len: "length ?elems = sl_len (Records d)"
    by (auto simp: slice_ok_def)
  show ?thesis
    unfolding Query_def GetModelData_entry [OF get ld ok]
    using len by (simp add: contents_def load_def slice_elems_def)
qed






lemma entry_ok_iff:
  "entry_ok st k \<longleftrightarrow>
     (\<exists>p d. Map_Get (records st) k = Some p \<and> load (datas st) p = Some d
        \<and> slice_ok (arrays st) (Records d))"
  by (auto simp: entry_ok_def split: option.splits)





subsection \<open>The query endpoint\<close>

lemma GetModelData_cases:
  "(Map_Get (records st) (completionKey env model) = None
      \<and> GetModelData env st model = (Return None, st))
   \<or> (\<exists>e. Map_Get (records st) (completionKey env model) \<noteq> None
      \<and> GetModelData env st model = (Panic e, st))
   \<or> (\<exists>q st' config recs. Map_Get (records st) (completionKey env model) \<noteq> None
      \<and> GetModelData env st model = (Return (Some q), st')
      \<and> contents st' q = Some (config, recs))"
proof (cases "Map_Get (records st) (completionKey env model)")
  case None
  then show ?thesis by (simp add: GetModelData_def)
next
  case (Some p)
  show ?thesis
  proof (cases "load (datas st) p")
    case None
    with Some show ?thesis by (simp add: GetModelData_def)
  next
    case d: (Some d)
    show ?thesis
    proof (cases "slice_elems (arrays st) (Records d)")
      case None
      with Some d show ?thesis by (simp add: GetModelData_def)
    next
      case el: (Some elems)
      then have len: "length elems = sl_len (Records d)"
        by (rule length_slice_elems)
      from Some d el len show ?thesis
        by (simp add: GetModelData_def make_slice_def alloc_def Let_def contents_def
            load_def slice_elems_def)
    qed
  qed
qed


lemma Query_None_iff:
  "Query env st model = Return None \<longleftrightarrow> Map_Get (records st) (completionKey env model) = None"
  using GetModelData_cases [of st env model]
  by (auto simp: Query_def)

text \<open>
  Claim C8, as stated, fails in the bodies: \<^verbatim>\<open>http.Error\<close> prints the message and a line
  feed. With no model the body is the message of the claim followed by a line feed, and
  likewise for a model that has no entry.
\<close>

theorem handler_body_has_line_feed:
  "fst (GetRecordsByModelHandler ex_env ex_encode ex_recorder1 empty_response [])
     = Return \<lparr>content_type = ''text/plain; charset=utf-8'', status = Some 400,
               out = ''A 'model' query parameter is required'' @ [newline]\<rparr>
   \<and> ''A 'model' query parameter is required'' @ [newline]
       \<noteq> ''A 'model' query parameter is required''
   \<and> fst (GetRecordsByModelHandler ex_env ex_encode ex_recorder1 empty_response ''nope'')
       = Return \<lparr>content_type = ''text/plain; charset=utf-8'', status = Some 404,
                 out = ''No records found for model '' @ [CHR 0x27] @ ''nope'' @ [CHR 0x27]
                       @ [newline]\<rparr>
   \<and> ''No records found for model '' @ [CHR 0x27] @ ''nope'' @ [CHR 0x27] @ [newline]
       \<noteq> ''No records found for model '' @ [CHR 0x27] @ ''nope'' @ [CHR 0x27]"
  by code_simp

text \<open>
  Claim C8, amended. For a request that the handler answers on a new response writer:

  \<^item> with no model (the parameter absent or empty) the answer is 400, as plain text, the
    body being \<^verbatim>\<open>A 'model' query parameter is required\<close> and a line feed;
  \<^item> with a model that has no entry it is 404, as plain text, the body being
    \<^verbatim>\<open>No records found for model '<model>'\<close> and a line feed;
  \<^item> with a model for which the query returns a configuration and records, it is 200, as
    JSON, the body being the encoding of the value with the fields model, records, count
    and config and a line feed, where count is the length of the records; or, if the
    encoder fails, 500 with the message of the source;
  \<^item> whenever the handler returns, the status is one of these four: 400 exactly when
    there is no model, 404 exactly when there is a model that has no entry, 200 exactly
    when the value was encoded and written, 500 exactly when the encoder failed;
  \<^item> a model whose key has a well-formed entry is one for which the query returns a
    configuration and records.
\<close>

theorem GetRecordsByModelHandler_responses:
  "(model = [] \<longrightarrow>
      GetRecordsByModelHandler env encodeJSON st empty_response model
        = (Return \<lparr>content_type = ''text/plain; charset=utf-8'', status = Some 400,
                   out = ''A 'model' query parameter is required'' @ [newline]\<rparr>, st))
   \<and> (model \<noteq> [] \<and> Map_Get (records st) (completionKey env model) = None \<longrightarrow>
      GetRecordsByModelHandler env encodeJSON st empty_response model
        = (Return \<lparr>content_type = ''text/plain; charset=utf-8'', status = Some 404,
                   out = ''No records found for model '' @ [CHR 0x27] @ model @ [CHR 0x27]
                         @ [newline]\<rparr>, st))
   \<and> (model \<noteq> [] \<and> Query env st model = Return (Some (config, recs))
        \<and> encodeJSON \<lparr>p_model = model, p_records = recs, p_count = int (length recs),
                       p_config = config\<rparr> = Inr jsonText \<longrightarrow>
      fst (GetRecordsByModelHandler env encodeJSON st empty_response model)
        = Return \<lparr>content_type = ''application/json'', status = Some 200,
                  out = jsonText @ [newline]\<rparr>)
   \<and> (model \<noteq> [] \<and> Query env st model = Return (Some (config, recs))
        \<and> encodeJSON \<lparr>p_model = model, p_records = recs, p_count = int (length recs),
                       p_config = config\<rparr> = Inl err \<longrightarrow>
      fst (GetRecordsByModelHandler env encodeJSON st empty_response model)
        = Return \<lparr>content_type = ''text/plain; charset=utf-8'', status = Some 500,
                  out = ''Failed to encode records for model '' @ [CHR 0x27] @ model @
                        [CHR 0x27] @ '': '' @ err @ [newline]\<rparr>)
   \<and> (fst (GetRecordsByModelHandler env encodeJSON st empty_response model) = Return w \<longrightarrow>
        (status w = Some 400 \<or> status w = Some 404 \<or> status w = Some 200 \<or> status w = Some 500)
      \<and> (status w = Some 400 \<longleftrightarrow> model = [])
      \<and> (status w = Some 404 \<longleftrightarrow>
            model \<noteq> [] \<and> Map_Get (records st) (completionKey env model) = None)
      \<and> (status w = Some 200 \<longleftrightarrow>
            model \<noteq> []
            \<and> (\<exists>config' recs' jsonText'. Query env st model = Return (Some (config', recs'))
                 \<and> encodeJSON \<lparr>p_model = model, p_records = recs',
                                p_count = int (length recs'), p_config = config'\<rparr>
                     = Inr jsonText'
                 \<and> out w = jsonText' @ [newline]))
      \<and> (status w = Some 500 \<longleftrightarrow>
            model \<noteq> []
            \<and> (\<exists>config' recs' err'. Query env st model = Return (Some (config', recs'))
                 \<and> encodeJSON \<lparr>p_model = model, p_records = recs',
                                p_count = int (length recs'), p_config = config'\<rparr>
                     = Inl err')))
   \<and> (model \<noteq> [] \<and> entry_ok st (completionKey env model) \<longrightarrow>
        (\<exists>config' recs'. Query env st model = Return (Some (config', recs'))))"
proof -
  have known: "\<exists>config' recs'. Query env st model = Return (Some (config', recs'))"
    if "entry_ok st (completionKey env model)"
  proof -
    from that obtain p d where "Map_Get (records st) (completionKey env model) = Some p"
      "load (datas st) p = Some d" "slice_ok (arrays st) (Records d)"
      unfolding entry_ok_iff by blast
    from Query_entry [OF this] show ?thesis by blast
  qed
  have main: "(model = [] \<longrightarrow>
      GetRecordsByModelHandler env encodeJSON st empty_response model
        = (Return \<lparr>content_type = ''text/plain; charset=utf-8'', status = Some 400,
                   out = ''A 'model' query parameter is required'' @ [newline]\<rparr>, st))
   \<and> (model \<noteq> [] \<and> Map_Get (records st) (completionKey env model) = None \<longrightarrow>
      GetRecordsByModelHandler env encodeJSON st empty_response model
        = (Return \<lparr>content_type = ''text/plain; charset=utf-8'', status = Some 404,
                   out = ''No records found for model '' @ [CHR 0x27] @ model @ [CHR 0x27]
                         @ [newline]\<rparr>, st))
   \<and> (model \<noteq> [] \<and> Query env st model = Return (Some (config, recs))
        \<and> encodeJSON \<lparr>p_model = model, p_records = recs, p_count = int (length recs),
                       p_config = config\<rparr> = Inr jsonText \<longrightarrow>
      fst (GetRecordsByModelHandler env encodeJSON st empty_response model)
        = Return \<lparr>content_type = ''application/json'', status = Some 200,
                  out = jsonText @ [newline]\<rparr>)
   \<and> (model \<noteq> [] \<and> Query env st model = Return (Some (config, recs))
        \<and> encodeJSON \<lparr>p_model = model, p_records = recs, p_count = int (length recs),
                       p_config = config\<rparr> = Inl err \<longrightarrow>
      fst (GetRecordsByModelHandler env encodeJSON st empty_response model)
        = Return \<lparr>content_type = ''text/plain; charset=utf-8'', status = Some 500,
                  out = ''Failed to encode records for model '' @ [CHR 0x27] @ model @
                        [CHR 0x27] @ '': '' @ err @ [newline]\<rparr>)
   \<and> (fst (GetRecordsByModelHandler env encodeJSON st empty_response model) = Return w \<longrightarrow>
        (status w = Some 400 \<or> status w = Some 404 \<or> status w = Some 200 \<or> status w = Some 500)
      \<and> (status w = Some 400 \<longleftrightarrow> model = [])
      \<and> (status w = Some 404 \<longleftrightarrow>
            model \<noteq> [] \<and> Map_Get (records st) (completionKey env model) = None)
      \<and> (status w = Some 200 \<longleftrightarrow>
            model \<noteq> []
            \<and> (\<exists>config' recs' jsonText'. Query env st model = Return (Some (config', recs'))
                 \<and> encodeJSON \<lparr>p_model = model, p_records = recs',
                                p_count = int (length recs'), p_config = config'\<rparr>
                     = Inr jsonText'
                 \<and> out w = jsonText' @ [newline]))
      \<and> (status w = Some 500 \<longleftrightarrow>
            model \<noteq> []
            \<and> (\<exists>config' recs' err'. Query env st model = Return (Some (config', recs'))
                 \<and> encodeJSON \<lparr>p_model = model, p_records = recs',
                                p_count = int (length recs'), p_config = config'\<rparr>
                     = Inl err')))"
  proof (cases "model = []")
    case True
    then show ?thesis
      by (auto simp: GetRecordsByModelHandler_def http_Error_def empty_response_def)
  next
    case False
    from GetModelData_cases [of st env model]
    consider (none) "Map_Get (records st) (completionKey env model) = None"
        "GetModelData env st model = (Return None, st)"
      | (panic) e where "Map_Get (records st) (completionKey env model) \<noteq> None"
        "GetModelData env st model = (Panic e, st)"
      | (some) q st' cfg rs where "Map_Get (records st) (completionKey env model) \<noteq> None"
        "GetModelData env st model = (Return (Some q), st')" "contents st' q = Some (cfg, rs)"
      by auto
    then show ?thesis
    proof cases
      case none
      with False show ?thesis
        by (auto simp: GetRecordsByModelHandler_def http_Error_def empty_response_def Query_def)
    next
      case panic
      with False show ?thesis
        by (auto simp: GetRecordsByModelHandler_def Query_def)
    next
      case some
      show ?thesis
      proof (cases "encodeJSON \<lparr>p_model = model, p_records = rs, p_count = int (length rs),
          p_config = cfg\<rparr>")
        case (Inl e)
        with False some show ?thesis
          by (auto simp: GetRecordsByModelHandler_def http_Error_def empty_response_def Query_def)
      next
        case (Inr t)
        with False some show ?thesis
          by (auto simp: GetRecordsByModelHandler_def http_Write_def empty_response_def Query_def)
      qed
    qed
  qed
  from main known show ?thesis
    by blast
qed

text \<open>
  On the recorder after one capture: the answers with no model, with a model that has no
  entry, with the model of the capture, and with that model and the encoder that fails.
\<close>

theorem GetRecordsByModelHandler_responses_witness:
  "fst (GetRecordsByModelHandler ex_env ex_encode ex_recorder1 empty_response [])
     = Return \<lparr>content_type = ''text/plain; charset=utf-8'', status = Some 400,
               out = ''A 'model' query parameter is required'' @ [newline]\<rparr>
   \<and> Map_Get (records ex_recorder1) (completionKey ex_env ''nope'') = None
   \<and> fst (GetRecordsByModelHandler ex_env ex_encode ex_recorder1 empty_response ''nope'')
       = Return \<lparr>content_type = ''text/plain; charset=utf-8'', status = Some 404,
                 out = ''No records found for model '' @ [CHR 0x27] @ ''nope'' @ [CHR 0x27]
                       @ [newline]\<rparr>
   \<and> Query ex_env ex_recorder1 ''ai/smollm2'' = Return (Some (0, [Some ex_record]))
   \<and> fst (GetRecordsByModelHandler ex_env ex_encode ex_recorder1 empty_response ''ai/smollm2'')
       = Return \<lparr>content_type = ''application/json'', status = Some 200,
                 out = ''{\"count\":1,\"model\":\"ai/smollm2\"}'' @ [newline]\<rparr>
   \<and> fst (GetRecordsByModelHandler ex_env ex_encode_failing ex_recorder1 empty_response
              ''ai/smollm2'')
       = Return \<lparr>content_type = ''text/plain; charset=utf-8'', status = Some 500,
                 out = ''Failed to encode records for model '' @ [CHR 0x27] @ ''ai/smollm2'' @
                       [CHR 0x27] @ '': json: unsupported type'' @ [newline]\<rparr>"
proof -
  have none: "Map_Get (records ex_recorder1) (completionKey ex_env ''nope'') = None"
    by code_simp
  have query: "Query ex_env ex_recorder1 ''ai/smollm2'' = Return (Some (0, [Some ex_record]))"
    by code_simp
  have enc: "ex_encode \<lparr>p_model = ''ai/smollm2'', p_records = [Some ex_record],
      p_count = int (length [Some ex_record]), p_config = 0\<rparr>
      = Inr ''{\"count\":1,\"model\":\"ai/smollm2\"}''"
    by code_simp
  have fail: "ex_encode_failing \<lparr>p_model = ''ai/smollm2'', p_records = [Some ex_record],
      p_count = int (length [Some ex_record]), p_config = 0\<rparr>
      = Inl ''json: unsupported type''"
    by (simp add: ex_encode_failing_def)
  have a: "fst (GetRecordsByModelHandler ex_env ex_encode ex_recorder1 empty_response [])
     = Return \<lparr>content_type = ''text/plain; charset=utf-8'', status = Some 400,
               out = ''A 'model' query parameter is required'' @ [newline]\<rparr>"
    using GetRecordsByModelHandler_responses
      [where model = "[]" and env = ex_env and encodeJSON = ex_encode and st = ex_recorder1]
    by simp
  have b: "fst (GetRecordsByModelHandler ex_env ex_encode ex_recorder1 empty_response ''nope'')
       = Return \<lparr>content_type = ''text/plain; charset=utf-8'', status = Some 404,
                 out = ''No records found for model '' @ [CHR 0x27] @ ''nope'' @ [CHR 0x27]
                       @ [newline]\<rparr>"
    using GetRecordsByModelHandler_responses
      [where model = "''nope''" and env = ex_env and encodeJSON = ex_encode
        and st = ex_recorder1]
      none by simp
  have c: "fst (GetRecordsByModelHandler ex_env ex_encode ex_recorder1 empty_response
      ''ai/smollm2'')
       = Return \<lparr>content_type = ''application/json'', status = Some 200,
                 out = ''{\"count\":1,\"model\":\"ai/smollm2\"}'' @ [newline]\<rparr>"
    using GetRecordsByModelHandler_responses
      [where model = "''ai/smollm2''" and env = ex_env and encodeJSON = ex_encode
        and st = ex_recorder1 and config = 0 and recs = "[Some ex_record]"
        and jsonText = "''{\"count\":1,\"model\":\"ai/smollm2\"}''"]
      query enc by simp
  have d: "fst (GetRecordsByModelHandler ex_env ex_encode_failing ex_recorder1 empty_response
      ''ai/smollm2'')
       = Return \<lparr>content_type = ''text/plain; charset=utf-8'', status = Some 500,
                 out = ''Failed to encode records for model '' @ [CHR 0x27] @ ''ai/smollm2'' @
                       [CHR 0x27] @ '': json: unsupported type'' @ [newline]\<rparr>"
    using GetRecordsByModelHandler_responses
      [where model = "''ai/smollm2''" and env = ex_env and encodeJSON = ex_encode_failing
        and st = ex_recorder1 and config = 0 and recs = "[Some ex_record]"
        and err = "''json: unsupported type''"]
      query fail by simp
  from a none b query c d show ?thesis
    by blast
qed

subsection \<open>Reachable states\<close>

text \<open>
  Every reachable state satisfies the invariant \<open>wf\<close>. Hence, in a reachable state, a key
  has no entry, or it has a well-formed entry that holds at most ten records: the states
  that the statements above about \<^verbatim>\<open>RecordRequest\<close>, \<^verbatim>\<open>RecordResponse\<close>,
  \<^verbatim>\<open>GetModelData\<close> and the handler assume are the reachable ones, and the branches of the
  model that stop at an address that is not allocated or at a nil pointer are not taken.
\<close>

lemma ptr_ok_mono: "ptr_ok n x \<Longrightarrow> n \<le> n' \<Longrightarrow> ptr_ok n' x"
  by (auto simp: ptr_ok_def split: option.splits)

lemma slice_valid_mono:
  assumes "slice_valid arrs n s" and "n \<le> n'"
  shows "slice_valid (arrs @ extra) n' s"
proof -
  from assms(1) have a: "sl_array s < length arrs"
    by (simp add: slice_valid_def slice_ok_def)
  then have "(arrs @ extra) ! sl_array s = arrs ! sl_array s"
    by (simp add: nth_append)
  with assms a show ?thesis
    by (auto simp: slice_valid_def slice_ok_def list_all_iff intro: ptr_ok_mono)
qed

lemma set_take_drop_update:
  "set (take n (drop k (xs[i := x]))) \<subseteq> insert x (set (take n (drop k xs)))"
proof
  fix y assume "y \<in> set (take n (drop k (xs[i := x])))"
  then obtain j where j: "j < length (take n (drop k (xs[i := x])))"
    and y: "y = take n (drop k (xs[i := x])) ! j"
    by (auto simp: in_set_conv_nth)
  from j have jn: "j < n" and jk: "k + j < length xs" by auto
  from y jn jk have y': "y = (xs[i := x]) ! (k + j)" by simp
  show "y \<in> insert x (set (take n (drop k xs)))"
  proof (cases "k + j = i")
    case True
    with y' jk show ?thesis by simp
  next
    case False
    with y' have "y = xs ! (k + j)" by simp
    moreover have "take n (drop k xs) ! j = xs ! (k + j)" using jn jk by simp
    moreover have "j < length (take n (drop k xs))" using jn jk by simp
    ultimately have "y \<in> set (take n (drop k xs))"
      by (metis nth_mem)
    then show ?thesis by simp
  qed
qed

lemma slice_valid_update:
  assumes v: "slice_valid arrs n s" and x: "ptr_ok n x"
  shows "slice_valid (arrs[a := (arrs ! a)[i := x]]) n s"
proof (cases "a = sl_array s")
  case True
  from v have lt: "sl_array s < length arrs"
    by (simp add: slice_valid_def slice_ok_def)
  have "set (take (sl_len s) (drop (sl_off s) ((arrs ! a)[i := x])))
      \<subseteq> insert x (set (take (sl_len s) (drop (sl_off s) (arrs ! a))))"
    by (rule set_take_drop_update)
  with v x True lt show ?thesis
    by (auto simp: slice_valid_def slice_ok_def list_all_iff)
next
  case False
  with v show ?thesis
    by (auto simp: slice_valid_def slice_ok_def)
qed


lemma slice_valid_elems:
  "slice_valid arrs n s \<longleftrightarrow>
     slice_ok arrs s \<and> sl_len s \<le> 10 \<and> list_all (ptr_ok n) (the (slice_elems arrs s))"
  by (auto simp: slice_valid_def slice_elems_ok)

lemma append_slice_valid:
  assumes s: "slice_valid arrs n s" and x: "ptr_ok n x"
    and app: "append_slice grow arrs s x = Some (s', arrs')"
  shows "slice_valid arrs' n (if sl_len s' > 10 then reslice_from_1 s' else s')"
    and "slice_valid arrs n s2 \<Longrightarrow> slice_valid arrs' n s2"
proof -
  from s have ok: "slice_ok arrs s" and len: "sl_len s \<le> 10"
    and el: "list_all (ptr_ok n) (the (slice_elems arrs s))"
    by (simp_all add: slice_valid_elems)
  from append_slice_ok [OF ok, of grow x] app
  have ok': "slice_ok arrs' s'" and len': "sl_len s' = sl_len s + 1"
    and el': "slice_elems arrs' s' = Some (the (slice_elems arrs s) @ [x])"
    by auto
  have pos: "0 < sl_len s'" using len' by simp
  from reslice_ok [OF ok' pos]
  have rok: "slice_ok arrs' (reslice_from_1 s')"
    and rel: "slice_elems arrs' (reslice_from_1 s') = Some (tl (the (slice_elems arrs' s')))"
    by simp_all
  have all': "list_all (ptr_ok n) (the (slice_elems arrs s) @ [x])"
    using el x by simp
  have tl_ok: "list_all (ptr_ok n) (tl (the (slice_elems arrs s) @ [x]))"
    using all' by (cases "the (slice_elems arrs s) @ [x]") simp_all
  show "slice_valid arrs' n (if sl_len s' > 10 then reslice_from_1 s' else s')"
    using ok' rok el' rel all' tl_ok len len'
    by (auto simp: slice_valid_elems reslice_from_1_def)
  show "slice_valid arrs' n s2" if v: "slice_valid arrs n s2"
  proof (cases "sl_len s < sl_cap s")
    case True
    with app ok have "arrs' = arrs[sl_array s := (arrs ! sl_array s)[sl_off s + sl_len s := x]]"
      by (auto simp: append_slice_def slice_elems_ok split: if_splits)
    with v x show ?thesis
      by (simp add: slice_valid_update)
  next
    case False
    with app ok have "\<exists>extra. arrs' = arrs @ extra"
      by (auto simp: append_slice_def slice_elems_ok Let_def)
    then obtain extra where "arrs' = arrs @ extra" by blast
    with v show ?thesis
      by (simp add: slice_valid_mono)
  qed
qed

lemma wf_pairs_grow: "wf st \<Longrightarrow> wf (st\<lparr>pairs := pairs st @ [v]\<rparr>)"
  using slice_valid_mono [where extra = "[]" and n = "length (pairs st)"
      and n' = "Suc (length (pairs st))"]
  by (auto simp: wf_def list_all_iff)

lemma wf_ensureModelData:
  fixes st :: "('mode, 'cfg::zero) state"
  assumes "wf st"
  shows "wf (ensureModelData st runner)"
proof (cases "Map_Get (records st) runner")
  case (Some p)
  with assms show ?thesis by (simp add: ensureModelData_def)
next
  case None
  let ?s = "\<lparr>sl_array = length (arrays st), sl_off = 0, sl_len = 0, sl_cap = 10\<rparr>"
  have new: "slice_valid (arrays st @ [replicate 10 None]) (length (pairs st)) ?s"
    by (simp add: slice_valid_def slice_ok_def)
  have old: "slice_valid (arrays st @ [replicate 10 None]) (length (pairs st)) (Records d)"
    if "d \<in> set (datas st)" for d
    using assms that slice_valid_mono [where n' = "length (pairs st)"]
    by (auto simp: wf_def list_all_iff)
  from assms have map: "\<forall>k p. m (records st) k = Some p \<longrightarrow> p < length (datas st)"
    by (simp add: wf_def)
  show ?thesis
    using None new old map
    by (auto simp: ensureModelData_def make_slice_def alloc_def wf_def list_all_iff m_Map_Set
        less_Suc_eq)
qed


lemma wf_load:
  "wf st \<Longrightarrow> Map_Get (records st) k = Some p \<Longrightarrow>
     \<exists>d. load (datas st) p = Some d \<and> slice_valid (arrays st) (length (pairs st)) (Records d)"
  by (auto simp: wf_def Map_Get_def load_def list_all_iff)

lemma wf_store_slice:
  assumes wf: "wf st" and p: "p < length (datas st)"
    and others: "\<And>s2. slice_valid (arrays st) (length (pairs st)) s2 \<Longrightarrow>
        slice_valid arrs' (length (pairs st)) s2"
    and new: "slice_valid arrs' (length (pairs st)) (Records d')"
  shows "wf (st\<lparr>arrays := arrs', datas := (datas st)[p := d']\<rparr>)"
proof -
  have "slice_valid arrs' (length (pairs st)) (Records d)" if "d \<in> set ((datas st)[p := d'])" for d
  proof -
    from that have "d = d' \<or> d \<in> set (datas st)"
      using set_update_subset_insert [of "datas st" p d'] by auto
    then show ?thesis
      using new others wf by (auto simp: wf_def list_all_iff)
  qed
  with wf show ?thesis
    by (auto simp: wf_def list_all_iff)
qed

lemma wf_RecordRequest:
  fixes st :: "('mode, 'cfg::zero) state"
  assumes "wf st"
  shows "wf (snd (RecordRequest st runner req body now1 now2))"
proof -
  let ?new = "new_record runner req body now1 now2"
  let ?st1 = "ensureModelData (st\<lparr>pairs := pairs st @ [?new]\<rparr>) runner"
  have wf1: "wf ?st1"
    using assms by (intro wf_ensureModelData wf_pairs_grow)
  have prs: "pairs ?st1 = pairs st @ [?new]"
    by (simp add: ensureModelData_def make_slice_def alloc_def split: option.splits)
  show ?thesis
  proof (cases "Map_Get (records ?st1) runner")
    case None
    with wf1 show ?thesis by (simp add: RecordRequest_def alloc_def Let_def)
  next
    case (Some rr)
    from wf_load [OF wf1 Some] obtain d where ld: "load (datas ?st1) rr = Some d"
      and v: "slice_valid (arrays ?st1) (length (pairs ?st1)) (Records d)"
      by blast
    from ld have rr: "rr < length (datas ?st1)"
      by (simp add: load_def split: if_splits)
    have x: "ptr_ok (length (pairs ?st1)) (Some (length (pairs st)))"
      by (simp add: ptr_ok_def prs)
    show ?thesis
    proof (cases "append_slice (growslice ?st1) (arrays ?st1) (Records d) (Some (length (pairs st)))")
      case None
      with Some ld wf1 show ?thesis by (simp add: RecordRequest_def alloc_def Let_def)
    next
      case app: (Some r)
      obtain s arrs' where r: "r = (s, arrs')" by (cases r)
      let ?s' = "if sl_len s > 10 then reslice_from_1 s else s"
      note valid = append_slice_valid [OF v x app [unfolded r]]
      have "wf (?st1\<lparr>arrays := arrs', datas := (datas ?st1)[rr := d\<lparr>Records := ?s'\<rparr>]\<rparr>)"
        by (rule wf_store_slice [OF wf1 rr]) (use valid in simp_all)
      with Some ld app r show ?thesis
        by (simp add: RecordRequest_def alloc_def Let_def)
    qed
  qed
qed

lemma wf_RecordResponse:
  assumes "wf st"
  shows "wf (snd (RecordResponse convert st reqID runner rw))"
proof -
  have upd: "wf (st\<lparr>pairs := (pairs st)[a := v]\<rparr>)" for a v
    using assms by (simp add: wf_def)
  have lg: "wf (st\<lparr>logged := l\<rparr>)" for l
    using assms by (simp add: wf_def)
  show ?thesis
    using assms upd lg
    by (auto simp: RecordResponse_def Let_def
        split: ResponseWriter.splits option.splits outcome.splits)
qed

lemma wf_SetConfigForModel:
  fixes st :: "('mode, 'cfg::zero) state"
  assumes "wf st"
  shows "wf (snd (SetConfigForModel st runner config))"
proof (cases config)
  case None
  with assms show ?thesis by (simp add: SetConfigForModel_def wf_def)
next
  case (Some c)
  let ?st1 = "ensureModelData st runner"
  have wf1: "wf ?st1" using assms by (rule wf_ensureModelData)
  show ?thesis
  proof (cases "Map_Get (records ?st1) runner")
    case None
    with Some wf1 show ?thesis by (simp add: SetConfigForModel_def Let_def)
  next
    case get: (Some rr)
    from wf_load [OF wf1 get] obtain d where ld: "load (datas ?st1) rr = Some d"
      and v: "slice_valid (arrays ?st1) (length (pairs ?st1)) (Records d)"
      by blast
    from ld have rr: "rr < length (datas ?st1)"
      by (simp add: load_def split: if_splits)
    have "wf (?st1\<lparr>arrays := arrays ?st1, datas := (datas ?st1)[rr := d\<lparr>Config := c\<rparr>]\<rparr>)"
      by (rule wf_store_slice [OF wf1 rr]) (use v in simp_all)
    with Some get ld show ?thesis
      by (simp add: SetConfigForModel_def Let_def)
  qed
qed

lemma wf_GetModelData:
  assumes "wf st"
  shows "wf (snd (GetModelData env st model))"
proof (cases "Map_Get (records st) (completionKey env model)")
  case None
  with assms show ?thesis by (simp add: GetModelData_def)
next
  case (Some p)
  from wf_load [OF assms Some] obtain d where ld: "load (datas st) p = Some d"
    and v: "slice_valid (arrays st) (length (pairs st)) (Records d)"
    by blast
  from v have ok: "slice_ok (arrays st) (Records d)"
    by (simp add: slice_valid_def)
  let ?elems = "take (sl_len (Records d)) (drop (sl_off (Records d)) (arrays st ! sl_array (Records d)))"
  let ?s = "\<lparr>sl_array = length (arrays st), sl_off = 0, sl_len = sl_len (Records d),
      sl_cap = sl_len (Records d)\<rparr>"
  from ok have len: "length ?elems = sl_len (Records d)"
    by (auto simp: slice_ok_def)
  have new: "slice_valid (arrays st @ [?elems]) (length (pairs st)) ?s"
    using v len by (simp add: slice_valid_def slice_ok_def)
  have old: "slice_valid (arrays st @ [?elems]) (length (pairs st)) (Records d2)"
    if "d2 \<in> set (datas st)" for d2
    using assms that slice_valid_mono [where n' = "length (pairs st)"]
    by (auto simp: wf_def list_all_iff)
  from assms have map: "\<forall>k p. m (records st) k = Some p \<longrightarrow> p < length (datas st)"
    by (simp add: wf_def)
  have "wf (st\<lparr>arrays := arrays st @ [?elems],
      datas := datas st @ [\<lparr>Config = Config d, Records = ?s\<rparr>]\<rparr>)"
    using new old map by (auto simp: wf_def list_all_iff less_Suc_eq)
  then show ?thesis
    by (simp add: GetModelData_entry [OF Some ld ok])
qed

lemma wf_RemoveModel:
  assumes "wf st"
  shows "wf (RemoveModel env st model)"
  using assms
  by (auto simp: RemoveModel_def Let_def wf_def m_Map_Delete split: option.splits if_splits)

lemma wf_NewOpenAIRecorder: "wf (NewOpenAIRecorder f g)"
  by (simp add: wf_def NewOpenAIRecorder_def Map_New_def)


lemma reachable_wf: "reachable env st \<Longrightarrow> wf st"
  by (induction rule: reachable.induct)
    (simp_all add: wf_NewOpenAIRecorder wf_SetConfigForModel wf_RecordRequest
      wf_RecordResponse wf_GetModelData wf_RemoveModel)

lemma load_all_valid:
  "list_all (ptr_ok (length prs)) elems \<Longrightarrow>
     \<exists>recs. load_all prs elems = Some recs \<and> length recs = length elems"
proof (induction elems)
  case Nil
  show ?case by simp
next
  case (Cons x elems)
  then obtain a where "x = Some a" "a < length prs"
    by (auto simp: ptr_ok_def split: option.splits)
  with Cons show ?case
    by (auto simp: load_def)
qed

lemma wf_entry:
  assumes "wf st" and "Map_Get (records st) k = Some p"
  shows "entry_ok st k \<and> (\<exists>recs. stored_records st k = Some recs \<and> length recs \<le> 10)"
proof -
  from wf_load [OF assms] obtain d where ld: "load (datas st) p = Some d"
    and v: "slice_valid (arrays st) (length (pairs st)) (Records d)"
    by blast
  from v have ok: "slice_ok (arrays st) (Records d)" and len: "sl_len (Records d) \<le> 10"
    and el: "list_all (ptr_ok (length (pairs st))) (the (slice_elems (arrays st) (Records d)))"
    by (simp_all add: slice_valid_elems)
  from ok have se: "slice_elems (arrays st) (Records d)
      = Some (the (slice_elems (arrays st) (Records d)))"
    by (simp add: slice_elems_ok)
  from load_all_valid [OF el] obtain recs where
    la: "load_all (pairs st) (the (slice_elems (arrays st) (Records d))) = Some recs"
    and ln: "length recs = length (the (slice_elems (arrays st) (Records d)))"
    by blast
  from length_slice_elems [OF se] ln len have "length recs \<le> 10" by simp
  moreover have "stored_records st k = Some recs"
    unfolding stored_records_Some using assms(2) ld se la by blast
  moreover have "entry_ok st k"
    using assms(2) ld ok by (simp add: entry_ok_def)
  ultimately show ?thesis by blast
qed

lemma reachable_entry:
  assumes "reachable env st"
  shows "Map_Get (records st) k = None
       \<or> (entry_ok st k \<and> (\<exists>recs. stored_records st k = Some recs \<and> length recs \<le> 10))"
proof (cases "Map_Get (records st) k")
  case None
  then show ?thesis by simp
next
  case (Some p)
  from wf_entry [OF reachable_wf [OF assms] Some] show ?thesis by simp
qed

lemma reachable_start:
  assumes "reachable env st"
  shows "\<exists>recs. (Map_Get (records st) runner = None \<and> recs = [])
       \<or> (entry_holds st runner recs \<and> length recs \<le> 10)"
  using reachable_entry [OF assms, of runner]
  by (auto simp: entry_holds_def)

end
